(* ===== verification/Prelude.thy ===== *)
theory Prelude
  imports Main "HOL-Library.Word" "HOL-Library.Sublist"
begin

text \<open>
  Shared vocabulary of the development: the byte and flag types, C conversions, decimal
  rendering, the single-bit flag lemmas used for every \<^verbatim>\<open>c_cflag\<close> manipulation, and the
  \<open>named_theorems\<close> collections the component theories fill.
\<close>

unbundle bit_operations_syntax

named_theorems flag_bits \<open>tests and bits of the single-bit C flag constants\<close>
named_theorems cstr_simps \<open>facts on the C character predicates\<close>

section \<open>Types\<close>

text \<open>A C \<^verbatim>\<open>char\<close> is a byte; HOL's \<open>char\<close> has exactly 256 values.\<close>

type_synonym byte = char
type_synonym flags = "32 word"

abbreviation byte_val :: "byte \<Rightarrow> nat" where
  "byte_val c \<equiv> of_char c"

abbreviation BEL :: byte where "BEL \<equiv> CHR 0x07"
abbreviation BSP :: byte where "BSP \<equiv> CHR 0x08"
abbreviation TAB :: byte where "TAB \<equiv> CHR 0x09"
abbreviation LF :: byte where "LF \<equiv> CHR 0x0A"
abbreviation CR :: byte where "CR \<equiv> CHR 0x0D"
abbreviation DEL :: byte where "DEL \<equiv> CHR 0x7F"
abbreviation EOS :: byte where "EOS \<equiv> CHR 0x00"
abbreviation crlf :: string where "crlf \<equiv> [CR, LF]"

lemma byte_val_less [simp]: "byte_val c < 256"
  using of_char_mod_256 [of c, where 'a = nat] by (metis mod_less_divisor zero_less_numeral)

lemma byte_val_le [simp]: "byte_val c \<le> 255"
  using byte_val_less [of c] by linarith

lemma byte_val_eq_iff: "byte_val c = byte_val d \<longleftrightarrow> c = d"
  by simp

lemma byte_of_val: "n < 256 \<Longrightarrow> byte_val (char_of (n::nat)) = n"
  by simp

section \<open>C integers\<close>

text \<open>The conversion of a \<^verbatim>\<open>long\<close> to a 32-bit \<^verbatim>\<open>int\<close> keeps the low 32 bits.\<close>

definition c_int :: "int \<Rightarrow> int" where
  "c_int n = signed_take_bit 31 n"

lemma c_int_id: "- (2 ^ 31) \<le> n \<Longrightarrow> n < 2 ^ 31 \<Longrightarrow> c_int n = n"
  unfolding c_int_def by (rule signed_take_bit_int_eq_self) auto

lemma c_int_range: "- (2 ^ 31) \<le> c_int n \<and> c_int n < 2 ^ 31"
  unfolding c_int_def
  using signed_take_bit_int_greater_eq_minus_exp [of 31 n] signed_take_bit_int_less_exp [of 31 n]
  by simp

text \<open>Decimal rendering, what \<^verbatim>\<open>printf("%d")\<close> and \<^verbatim>\<open>std::to_string\<close> print.\<close>

definition digit :: "nat \<Rightarrow> char" where
  "digit d = char_of (48 + d)"

fun dec_nat :: "nat \<Rightarrow> string" where
  "dec_nat n = (if n < 10 then [digit n] else dec_nat (n div 10) @ [digit (n mod 10)])"

declare dec_nat.simps [simp del]

definition dec_int :: "int \<Rightarrow> string" where
  "dec_int i = (if i < 0 then CHR ''-'' # dec_nat (nat (- i)) else dec_nat (nat i))"

lemma dec_nat_not_Nil [simp]: "dec_nat n \<noteq> []"
  by (subst dec_nat.simps) simp

definition hexd :: "nat \<Rightarrow> char" where
  "hexd n = ''0123456789abcdef'' ! n"

section \<open>Single-bit flags\<close>

lemma and_single_bit_eq_0 [flag_bits]:
  "(x AND push_bit k (1::32 word)) = 0 \<longleftrightarrow> \<not> bit x k"
  by (simp add: push_bit_eq_mult and_exp_eq_0_iff_not_bit)

lemma bit_single_bit [flag_bits]:
  "bit (push_bit k (1::32 word)) n \<longleftrightarrow> n = k \<and> k < 32"
  by (auto simp: bit_simps)

lemma and_exp_eq_0 [flag_bits]: "(x AND 2 ^ k) = 0 \<longleftrightarrow> \<not> bit (x :: 32 word) k"
  by (rule and_exp_eq_0_iff_not_bit)

lemma bit_exp [flag_bits]: "bit ((2::32 word) ^ k) n \<longleftrightarrow> n = k \<and> k < 32"
  using bit_single_bit [of k n] by simp

section \<open>Lists\<close>

text \<open>Storing a run of bytes in a buffer, what a sequence of \<^verbatim>\<open>b[i] = c\<close> does.\<close>

definition store_at :: "'a list \<Rightarrow> nat \<Rightarrow> 'a list \<Rightarrow> 'a list" where
  "store_at b off xs = take off b @ xs @ drop (off + length xs) b"

lemma length_store_at [simp]:
  "off + length xs \<le> length b \<Longrightarrow> length (store_at b off xs) = length b"
  by (simp add: store_at_def)

lemma take_store_at [simp]:
  "off \<le> length b \<Longrightarrow> take (off + length xs) (store_at b off xs) = take off b @ xs"
  by (simp add: store_at_def)

end
