(* ===== verification/Charmap.thy ===== *)
theory Charmap
  imports Prelude
begin

text \<open>
  Character mapping, \<^verbatim>\<open>src/ppcom/src/ppcom.cpp\<close>: the \<^verbatim>\<open>M_*\<close> flags, the
  \<^verbatim>\<open>map_names\<close> table, \<^verbatim>\<open>parse_map\<close> (with the \<^verbatim>\<open>strtok\<close> it drives), \<^verbatim>\<open>print_map\<close>,
  \<^verbatim>\<open>map2hex\<close> and \<^verbatim>\<open>do_map\<close> (the final \<^verbatim>\<open>assert\<close> included).  The abstract
  specification is the manual's ordered rule list (\<open>map_rules\<close>): the first rule that is enabled and
  applies to the character wins.
\<close>

section \<open>Flags and the name table\<close>

definition M_CRLF :: flags where "M_CRLF = push_bit 0 1"
definition M_CRCRLF :: flags where "M_CRCRLF = push_bit 1 1"
definition M_IGNCR :: flags where "M_IGNCR = push_bit 2 1"
definition M_LFCR :: flags where "M_LFCR = push_bit 3 1"
definition M_LFCRLF :: flags where "M_LFCRLF = push_bit 4 1"
definition M_IGNLF :: flags where "M_IGNLF = push_bit 5 1"
definition M_DELBS :: flags where "M_DELBS = push_bit 6 1"
definition M_BSDEL :: flags where "M_BSDEL = push_bit 7 1"
definition M_SPCHEX :: flags where "M_SPCHEX = push_bit 8 1"
definition M_TABHEX :: flags where "M_TABHEX = push_bit 9 1"
definition M_CRHEX :: flags where "M_CRHEX = push_bit 10 1"
definition M_LFHEX :: flags where "M_LFHEX = push_bit 11 1"
definition M_8BITHEX :: flags where "M_8BITHEX = push_bit 12 1"
definition M_NRMHEX :: flags where "M_NRMHEX = push_bit 13 1"

definition M_NFLAGS :: nat where "M_NFLAGS = 14"

definition M_I_DFL :: flags where "M_I_DFL = 0"
definition M_O_DFL :: flags where "M_O_DFL = 0"
definition M_E_DFL :: flags where "M_E_DFL = M_DELBS OR M_CRCRLF"

lemmas M_flag_defs = M_CRLF_def M_CRCRLF_def M_IGNCR_def M_LFCR_def M_LFCRLF_def M_IGNLF_def
  M_DELBS_def M_BSDEL_def M_SPCHEX_def M_TABHEX_def M_CRHEX_def M_LFHEX_def M_8BITHEX_def
  M_NRMHEX_def

definition map_names :: "(string \<times> flags) list" where
  "map_names =
     [ (''crlf'', M_CRLF),
       (''crcrlf'', M_CRCRLF),
       (''igncr'', M_IGNCR),
       (''lfcr'', M_LFCR),
       (''lfcrlf'', M_LFCRLF),
       (''ignlf'', M_IGNLF),
       (''delbs'', M_DELBS),
       (''bsdel'', M_BSDEL),
       (''spchex'', M_SPCHEX),
       (''tabhex'', M_TABHEX),
       (''crhex'', M_CRHEX),
       (''lfhex'', M_LFHEX),
       (''8bithex'', M_8BITHEX),
       (''nrmhex'', M_NRMHEX) ]"

section \<open>parse_map and print_map\<close>

text \<open>
  \<^verbatim>\<open>strtok\<close> skips leading delimiters, returns the run of non-delimiters that follows (NULL when
  there is none) and resumes after the delimiter that ended it.
\<close>

definition map_delim :: "char \<Rightarrow> bool" where
  "map_delim c \<longleftrightarrow> c \<in> set [CHR '','', CHR '' '', TAB]"

definition strtok :: "string \<Rightarrow> (string \<times> string) option" where
  "strtok s =
     (let s1 = dropWhile map_delim s in
      if s1 = [] then None
      else Some (takeWhile (\<lambda>c. \<not> map_delim c) s1, drop 1 (dropWhile (\<lambda>c. \<not> map_delim c) s1)))"

text \<open>The inner \<^verbatim>\<open>for\<close> loop: the flag of the first table entry with this name.\<close>

fun find_map_name :: "(string \<times> flags) list \<Rightarrow> string \<Rightarrow> flags option" where
  "find_map_name [] t = None"
| "find_map_name ((m, f) # ms) t = (if t = m then Some f else find_map_name ms t)"

lemma length_dropWhile_drop1:
  "s1 \<noteq> [] \<Longrightarrow> length (drop 1 (dropWhile P s1)) < length s1"
  using length_dropWhile_le [of P s1] by (cases s1) auto

lemma strtok_shorter: "strtok s = Some (t, r) \<Longrightarrow> length r < length s"
  using length_dropWhile_drop1 [of "dropWhile map_delim s" "\<lambda>c. \<not> map_delim c"]
    length_dropWhile_le [of map_delim s]
  by (auto simp: strtok_def Let_def split: if_splits)

function parse_map_loop :: "flags \<Rightarrow> string \<Rightarrow> flags option" where
  "parse_map_loop fl s =
     (case strtok s of
        None \<Rightarrow> Some fl
      | Some (t, r) \<Rightarrow>
          (case find_map_name map_names t of
             Some f \<Rightarrow> parse_map_loop (fl OR f) r
           | None \<Rightarrow> None))"
  by pat_completeness auto
termination
  by (relation "measure (\<lambda>(fl, s). length s)") (auto dest: strtok_shorter)

declare parse_map_loop.simps [simp del]

text \<open>\<open>None\<close> is the code's return value \<^verbatim>\<open>-1\<close>.\<close>

definition parse_map :: "string \<Rightarrow> flags option" where
  "parse_map s = parse_map_loop 0 s"

definition print_map :: "flags \<Rightarrow> string" where
  "print_map fl =
     concat (map (\<lambda>i. if (fl AND push_bit i 1) \<noteq> 0 then fst (map_names ! i) @ '','' else [])
               [0..<M_NFLAGS]) @ [LF]"

section \<open>do_map\<close>

definition M_MAXMAP :: nat where "M_MAXMAP = 4"

definition map2hex :: "byte \<Rightarrow> byte list" where
  "map2hex c = [CHR ''['', hexd (byte_val c div 16), hexd (byte_val c mod 16), CHR '']'']"

text \<open>The \<^verbatim>\<open>switch\<close>; \<open>None\<close> is \<^verbatim>\<open>n == -1\<close>, otherwise the \<^verbatim>\<open>n\<close> bytes stored in the buffer.\<close>

definition do_map_switch :: "flags \<Rightarrow> byte \<Rightarrow> byte list option" where
  "do_map_switch m c =
     (if c = DEL then
        (if (m AND M_DELBS) \<noteq> 0 then Some [BSP] else None)
      else if c = BSP then
        (if (m AND M_BSDEL) \<noteq> 0 then Some [DEL] else None)
      else if c = CR then
        (if (m AND M_CRLF) \<noteq> 0 then Some [LF]
         else if (m AND M_CRCRLF) \<noteq> 0 then Some [CR, LF]
         else if (m AND M_IGNCR) \<noteq> 0 then Some []
         else if (m AND M_CRHEX) \<noteq> 0 then Some (map2hex c)
         else None)
      else if c = LF then
        (if (m AND M_LFCR) \<noteq> 0 then Some [CR]
         else if (m AND M_LFCRLF) \<noteq> 0 then Some [CR, LF]
         else if (m AND M_IGNLF) \<noteq> 0 then Some []
         else if (m AND M_LFHEX) \<noteq> 0 then Some (map2hex c)
         else None)
      else if c = TAB then
        (if (m AND M_TABHEX) \<noteq> 0 then Some (map2hex c) else None)
      else None)"

definition is_special :: "byte \<Rightarrow> bool" where
  "is_special c \<longleftrightarrow> c = DEL \<or> (byte_val c < 0x20 \<and> c \<noteq> TAB \<and> c \<noteq> LF \<and> c \<noteq> CR)"

definition is_8bit :: "byte \<Rightarrow> bool" where
  "is_8bit c \<longleftrightarrow> (byte_val c AND 0x80) \<noteq> 0"

definition is_normal :: "byte \<Rightarrow> bool" where
  "is_normal c \<longleftrightarrow> 0x20 \<le> byte_val c \<and> byte_val c < 0x7f"

definition do_map_stages :: "flags \<Rightarrow> byte \<Rightarrow> byte list" where
  "do_map_stages m c =
     (let n0 = do_map_switch m c;
          n1 = (if n0 = None \<and> (m AND M_SPCHEX) \<noteq> 0 \<and> is_special c then Some (map2hex c) else n0);
          n2 = (if n1 = None \<and> (m AND M_8BITHEX) \<noteq> 0 \<and> is_8bit c then Some (map2hex c) else n1);
          n3 = (if n2 = None \<and> (m AND M_NRMHEX) \<noteq> 0 \<and> is_normal c then Some (map2hex c) else n2)
      in (case n3 of None \<Rightarrow> [c] | Some bs \<Rightarrow> bs))"

text \<open>
  The function ends in \<^verbatim>\<open>assert(n > 0 && n <= M_MAXMAP)\<close>.  \<open>ndebug\<close> says whether the
  build defines \<^verbatim>\<open>NDEBUG\<close> (the repository's build files do not); \<open>None\<close> is the failed assertion,
  which aborts the program.
\<close>

definition do_map :: "bool \<Rightarrow> flags \<Rightarrow> byte \<Rightarrow> byte list option" where
  "do_map ndebug m c =
     (let bs = do_map_stages m c in
      if ndebug \<or> (0 < length bs \<and> length bs \<le> M_MAXMAP) then Some bs else None)"

text \<open>The loop over the bytes read from the port (\<^verbatim>\<open>bmp += do_map(bmp, opts.imap, ...)\<close>).\<close>

fun map_bytes :: "bool \<Rightarrow> flags \<Rightarrow> byte list \<Rightarrow> byte list option" where
  "map_bytes nd m [] = Some []"
| "map_bytes nd m (c # cs) =
     (case do_map nd m c of
        None \<Rightarrow> None
      | Some bs \<Rightarrow> (case map_bytes nd m cs of None \<Rightarrow> None | Some r \<Rightarrow> Some (bs @ r)))"

section \<open>The manual's ordered rule list\<close>

definition map_rules :: "(flags \<times> (byte \<Rightarrow> bool) \<times> (byte \<Rightarrow> byte list)) list" where
  "map_rules =
     [ (M_CRLF, (\<lambda>c. c = CR), (\<lambda>c. [LF])),
       (M_CRCRLF, (\<lambda>c. c = CR), (\<lambda>c. [CR, LF])),
       (M_IGNCR, (\<lambda>c. c = CR), (\<lambda>c. [])),
       (M_LFCR, (\<lambda>c. c = LF), (\<lambda>c. [CR])),
       (M_LFCRLF, (\<lambda>c. c = LF), (\<lambda>c. [CR, LF])),
       (M_IGNLF, (\<lambda>c. c = LF), (\<lambda>c. [])),
       (M_BSDEL, (\<lambda>c. c = BSP), (\<lambda>c. [DEL])),
       (M_DELBS, (\<lambda>c. c = DEL), (\<lambda>c. [BSP])),
       (M_SPCHEX, (\<lambda>c. (byte_val c < 0x20 \<or> byte_val c = 0x7f) \<and> c \<notin> set [CR, LF, TAB]), map2hex),
       (M_TABHEX, (\<lambda>c. c = TAB), map2hex),
       (M_CRHEX, (\<lambda>c. c = CR), map2hex),
       (M_LFHEX, (\<lambda>c. c = LF), map2hex),
       (M_8BITHEX, (\<lambda>c. 0x80 \<le> byte_val c), map2hex),
       (M_NRMHEX, (\<lambda>c. 0x20 \<le> byte_val c \<and> byte_val c < 0x7f), map2hex) ]"

fun first_rule :: "(flags \<times> (byte \<Rightarrow> bool) \<times> (byte \<Rightarrow> byte list)) list \<Rightarrow> flags \<Rightarrow> byte \<Rightarrow> byte list" where
  "first_rule [] m c = [c]"
| "first_rule ((f, p, r) # rs) m c = (if (m AND f) \<noteq> 0 \<and> p c then r c else first_rule rs m c)"

lemma byte_val_7f: "byte_val c = 0x7f \<longleftrightarrow> c = DEL"
proof -
  have "byte_val DEL = 0x7f" by simp
  then show ?thesis using byte_val_eq_iff [of c DEL] by simp
qed

lemma is_8bit_iff: "is_8bit c \<longleftrightarrow> 0x80 \<le> byte_val c"
proof -
  have "is_8bit c \<longleftrightarrow> bit (byte_val c) 7"
    using and_exp_eq_0_iff_not_bit [of "byte_val c" 7] by (simp add: is_8bit_def)
  also have "\<dots> \<longleftrightarrow> odd (byte_val c div 128)"
    using bit_iff_odd [of "byte_val c" 7] by simp
  also have "\<dots> \<longleftrightarrow> 0x80 \<le> byte_val c"
  proof (cases "0x80 \<le> byte_val c")
    case True
    then have "byte_val c div 128 = 1" using byte_val_less [of c] by (intro div_nat_eqI) auto
    with True show ?thesis by simp
  qed simp
  finally show ?thesis .
qed

text \<open>The behaviour on each of the six classes of characters the code distinguishes.\<close>

lemma do_map_stages_DEL:
  "do_map_stages m DEL =
     (if (m AND M_DELBS) \<noteq> 0 then [BSP] else if (m AND M_SPCHEX) \<noteq> 0 then map2hex DEL else [DEL])"
  by (simp add: do_map_stages_def do_map_switch_def is_special_def is_8bit_iff is_normal_def Let_def)

lemma do_map_stages_BSP:
  "do_map_stages m BSP =
     (if (m AND M_BSDEL) \<noteq> 0 then [DEL] else if (m AND M_SPCHEX) \<noteq> 0 then map2hex BSP else [BSP])"
  by (simp add: do_map_stages_def do_map_switch_def is_special_def is_8bit_iff is_normal_def Let_def)

lemma do_map_stages_CR:
  "do_map_stages m CR =
     (if (m AND M_CRLF) \<noteq> 0 then [LF] else if (m AND M_CRCRLF) \<noteq> 0 then [CR, LF]
      else if (m AND M_IGNCR) \<noteq> 0 then [] else if (m AND M_CRHEX) \<noteq> 0 then map2hex CR else [CR])"
  by (simp add: do_map_stages_def do_map_switch_def is_special_def is_8bit_iff is_normal_def Let_def)

lemma do_map_stages_LF:
  "do_map_stages m LF =
     (if (m AND M_LFCR) \<noteq> 0 then [CR] else if (m AND M_LFCRLF) \<noteq> 0 then [CR, LF]
      else if (m AND M_IGNLF) \<noteq> 0 then [] else if (m AND M_LFHEX) \<noteq> 0 then map2hex LF else [LF])"
  by (simp add: do_map_stages_def do_map_switch_def is_special_def is_8bit_iff is_normal_def Let_def)

lemma do_map_stages_TAB:
  "do_map_stages m TAB = (if (m AND M_TABHEX) \<noteq> 0 then map2hex TAB else [TAB])"
  by (simp add: do_map_stages_def do_map_switch_def is_special_def is_8bit_iff is_normal_def Let_def)

lemma do_map_stages_other:
  assumes "c \<notin> set [DEL, BSP, CR, LF, TAB]"
  shows "do_map_stages m c =
     (if byte_val c < 0x20 \<and> (m AND M_SPCHEX) \<noteq> 0 \<or> 0x80 \<le> byte_val c \<and> (m AND M_8BITHEX) \<noteq> 0 \<or>
         0x20 \<le> byte_val c \<and> byte_val c < 0x7f \<and> (m AND M_NRMHEX) \<noteq> 0
      then map2hex c else [c])"
proof -
  from assms have "do_map_switch m c = None" and "is_special c \<longleftrightarrow> byte_val c < 0x20"
    by (simp_all add: do_map_switch_def is_special_def)
  then show ?thesis by (simp add: do_map_stages_def is_8bit_iff is_normal_def)
qed

lemmas do_map_stages_eqs =
  do_map_stages_DEL do_map_stages_BSP do_map_stages_CR do_map_stages_LF do_map_stages_TAB

lemma byte_class_cases:
  obtains "c = DEL" | "c = BSP" | "c = CR" | "c = LF" | "c = TAB"
    | "c \<notin> set [DEL, BSP, CR, LF, TAB]"
  by auto

lemma do_map_stages_rules: "do_map_stages m c = first_rule map_rules m c"
proof (cases c rule: byte_class_cases)
  case 6
  then have "byte_val c \<noteq> 0x7f" using byte_val_7f by simp
  with 6 show ?thesis by (simp add: do_map_stages_other map_rules_def)
qed (simp_all add: do_map_stages_eqs map_rules_def)

lemma do_map_stages_length: "length (do_map_stages m c) \<le> M_MAXMAP"
  by (cases c rule: byte_class_cases)
    (simp_all add: do_map_stages_eqs do_map_stages_other map2hex_def M_MAXMAP_def)

lemma do_map_stages_empty:
  "do_map_stages m c = [] \<longleftrightarrow>
     c = CR \<and> (m AND M_CRLF) = 0 \<and> (m AND M_CRCRLF) = 0 \<and> (m AND M_IGNCR) \<noteq> 0 \<or>
     c = LF \<and> (m AND M_LFCR) = 0 \<and> (m AND M_LFCRLF) = 0 \<and> (m AND M_IGNLF) \<noteq> 0"
  by (cases c rule: byte_class_cases)
    (simp_all add: do_map_stages_eqs do_map_stages_other map2hex_def)

lemma do_map_Some_iff:
  "do_map nd m c = Some bs \<longleftrightarrow> bs = do_map_stages m c \<and> (nd \<or> bs \<noteq> [])"
  using do_map_stages_length [of m c] by (auto simp: do_map_def Let_def)

lemma do_map_None_iff: "do_map nd m c = None \<longleftrightarrow> \<not> nd \<and> do_map_stages m c = []"
  using do_map_stages_length [of m c] by (auto simp: do_map_def Let_def)

lemma map_bytes_Some:
  "map_bytes nd m cs = Some bs \<Longrightarrow> bs = concat (map (do_map_stages m) cs)"
  by (induction cs arbitrary: bs) (auto simp: do_map_Some_iff split: option.splits)

lemma map_bytes_length:
  "map_bytes nd m cs = Some bs \<Longrightarrow> length bs \<le> M_MAXMAP * length cs"
proof (induction cs arbitrary: bs)
  case (Cons c cs)
  from Cons.prems obtain b r where b: "do_map nd m c = Some b" and r: "map_bytes nd m cs = Some r"
    and "bs = b @ r" by (auto split: option.splits)
  with Cons.IH [OF r] do_map_stages_length [of m c] show ?case by (auto simp: do_map_Some_iff)
qed simp

section \<open>parse_map against the token list\<close>

function map_tokens :: "string \<Rightarrow> string list" where
  "map_tokens s = (case strtok s of None \<Rightarrow> [] | Some (t, r) \<Rightarrow> t # map_tokens r)"
  by pat_completeness auto
termination
  by (relation "measure length") (auto dest: strtok_shorter)

declare map_tokens.simps [simp del]

definition or_names :: "flags \<Rightarrow> string list \<Rightarrow> flags" where
  "or_names fl ts = fold (\<lambda>t a. a OR the (find_map_name map_names t)) ts fl"

definition known_name :: "string \<Rightarrow> bool" where
  "known_name t \<longleftrightarrow> t \<in> set (map fst map_names)"

lemma find_map_name_None: "find_map_name ms t = None \<longleftrightarrow> t \<notin> set (map fst ms)"
  by (induction ms t rule: find_map_name.induct) auto

lemma parse_map_loop_tokens:
  "parse_map_loop fl s =
     (if \<forall>t \<in> set (map_tokens s). known_name t then Some (or_names fl (map_tokens s)) else None)"
proof (induction fl s rule: parse_map_loop.induct)
  case (1 fl s)
  show ?case
  proof (cases "strtok s")
    case None
    then show ?thesis
      by (simp add: parse_map_loop.simps [of fl s] map_tokens.simps [of s] or_names_def)
  next
    case (Some tr)
    obtain t r where tr: "tr = (t, r)" by (cases tr)
    show ?thesis
    proof (cases "find_map_name map_names t")
      case None
      with Some tr show ?thesis
        using find_map_name_None [of map_names t]
        by (simp add: parse_map_loop.simps [of fl s] map_tokens.simps [of s] known_name_def)
    next
      case f: (Some f)
      then have "known_name t"
        using find_map_name_None [of map_names t] by (simp add: known_name_def)
      with "1.IH" [OF Some tr [symmetric] f] Some tr f show ?thesis
        by (simp add: parse_map_loop.simps [of fl s] map_tokens.simps [of s] or_names_def)
    qed
  qed
qed

text \<open>A comma-terminated list of names splits back into the names.\<close>

definition plain_name :: "string \<Rightarrow> bool" where
  "plain_name t \<longleftrightarrow> t \<noteq> [] \<and> list_all (\<lambda>c. \<not> map_delim c) t"

lemma strtok_Nil: "strtok [] = None"
  by (simp add: strtok_def)

lemma strtok_name:
  assumes "plain_name t"
  shows "strtok (t @ CHR '','' # r) = Some (t, r)"
proof -
  obtain c cs where t: "t = c # cs" using assms by (cases t) (auto simp: plain_name_def)
  have c: "\<not> map_delim c" and all: "\<forall>x \<in> set t. \<not> map_delim x"
    using assms t by (auto simp: plain_name_def list_all_iff)
  have comma: "map_delim (CHR '','')" by (simp add: map_delim_def)
  have "dropWhile map_delim (t @ CHR '','' # r) = t @ CHR '','' # r" using t c by simp
  moreover have "takeWhile (\<lambda>c. \<not> map_delim c) (t @ CHR '','' # r) = t"
    using all comma by (simp add: takeWhile_append2)
  moreover have "dropWhile (\<lambda>c. \<not> map_delim c) (t @ CHR '','' # r) = CHR '','' # r"
    using all comma by (simp add: dropWhile_append2)
  ultimately show ?thesis using t by (simp add: strtok_def Let_def)
qed

lemma map_tokens_names:
  "list_all plain_name ts \<Longrightarrow> map_tokens (concat (map (\<lambda>t. t @ '','') ts)) = ts"
proof (induction ts)
  case Nil
  then show ?case by (simp add: map_tokens.simps strtok_Nil)
next
  case (Cons t ts)
  then show ?case by (simp add: map_tokens.simps [of "t @ _"] strtok_name)
qed

lemma map_names_plain: "list_all plain_name (map fst map_names)"
  by (simp add: map_names_def plain_name_def map_delim_def)

lemma map_names_index: "i < 14 \<Longrightarrow> find_map_name map_names (fst (map_names ! i)) = Some (push_bit i 1)"
proof -
  have "\<forall>i \<in> set [0..<14]. find_map_name map_names (fst (map_names ! i)) = Some (push_bit i 1)"
    by (simp add: map_names_def M_flag_defs upt_rec)
  then show "i < 14 \<Longrightarrow> ?thesis" by simp
qed

lemma length_map_names: "length map_names = 14"
  by (simp add: map_names_def)

lemma known_nth: "i < 14 \<Longrightarrow> known_name (fst (map_names ! i))"
  unfolding known_name_def using nth_mem [of i "map fst map_names"] by (simp add: length_map_names)

lemma or_names_indices:
  "set is \<subseteq> {..<14} \<Longrightarrow>
     bit (or_names fl (map (\<lambda>i. fst (map_names ! i)) is)) n \<longleftrightarrow> bit fl n \<or> n \<in> set is"
proof (induction "is" arbitrary: fl)
  case (Cons i "is")
  then have "bit (fl OR push_bit i 1) n \<longleftrightarrow> bit fl n \<or> n = i"
    by (auto simp: bit_or_iff flag_bits)
  with Cons show ?case by (auto simp: or_names_def map_names_index)
qed (simp add: or_names_def)

lemma concat_if_filter:
  "concat (map (\<lambda>i. if P i then f i else []) xs) = concat (map f (filter P xs))"
  by (induction xs) auto

lemma butlast_print_map:
  "butlast (print_map fl) =
     concat (map (\<lambda>t. t @ '','') (map (\<lambda>i. fst (map_names ! i)) (filter (bit fl) [0..<14])))"
  by (simp add: print_map_def flag_bits concat_if_filter M_NFLAGS_def comp_def)

lemma parse_map_print_map: "parse_map (butlast (print_map fl)) = Some (take_bit 14 fl)"
proof -
  let ?is = "filter (bit fl) [0..<14]"
  let ?ts = "map (\<lambda>i. fst (map_names ! i)) ?is"
  have sub: "set ?is \<subseteq> {..<14}" by auto
  have known: "\<forall>t \<in> set ?ts. known_name t" using sub by (auto intro: known_nth)
  then have "list_all plain_name ?ts"
    using map_names_plain by (force simp: list_all_iff known_name_def)
  then have "map_tokens (butlast (print_map fl)) = ?ts"
    by (simp only: butlast_print_map map_tokens_names)
  moreover have "or_names 0 ?ts = take_bit 14 fl"
    by (rule bit_eqI) (subst or_names_indices [OF sub], auto simp: bit_take_bit_iff)
  ultimately show ?thesis using known by (simp add: parse_map_def parse_map_loop_tokens)
qed

lemma find_map_name_in: "find_map_name ms t = Some f \<Longrightarrow> f \<in> set (map snd ms)"
  by (induction ms t rule: find_map_name.induct) (auto split: if_splits)

lemma map_names_low: "\<forall>f \<in> set (map snd map_names). take_bit 14 f = f"
  by (simp add: map_names_def M_flag_defs)

lemma find_map_name_low: "find_map_name map_names t = Some f \<Longrightarrow> bit f n \<Longrightarrow> n < 14"
  using map_names_low find_map_name_in [of map_names t f] by (metis bit_take_bit_iff)

lemma or_names_low:
  "\<forall>t \<in> set ts. known_name t \<Longrightarrow> \<forall>n. bit fl n \<longrightarrow> n < 14 \<Longrightarrow> bit (or_names fl ts) n \<Longrightarrow> n < 14"
proof (induction ts arbitrary: fl)
  case (Cons t ts)
  obtain f where f: "find_map_name map_names t = Some f"
    using Cons.prems(1) find_map_name_None [of map_names t]
    by (cases "find_map_name map_names t") (auto simp: known_name_def)
  have "\<forall>n. bit (fl OR f) n \<longrightarrow> n < 14"
    using Cons.prems(2) find_map_name_low [OF f] by (auto simp: bit_or_iff)
  with Cons f show ?case by (auto simp: or_names_def)
qed (simp add: or_names_def)

section \<open>Properties\<close>

text \<open>
  C28: \<^verbatim>\<open>do_map\<close> implements the manual's rule list.  Whenever the final assertion does not
  fire, the replacement is the one of the first rule, in the documented order, whose identifier is
  enabled in the mapping and which applies to the character (the character itself when no rule
  does), and the assertion fires exactly for a character that an enabled "ignore" rule removes.
\<close>

theorem do_map_first_rule:
  "do_map nd m c =
     (if \<not> nd \<and> first_rule map_rules m c = [] then None else Some (first_rule map_rules m c))"
  by (cases "do_map nd m c")
    (auto simp: do_map_None_iff do_map_Some_iff do_map_stages_rules [symmetric])

text \<open>
  C40: the documented identifiers \<^verbatim>\<open>igncr\<close> and \<^verbatim>\<open>ignlf\<close> abort the program in a build with
  assertions: \<^verbatim>\<open>do_map\<close> fails its assertion exactly when a CR (an LF) is ignored by the mapping
  and no earlier CR (LF) rule is enabled.
\<close>

theorem do_map_abort_iff:
  "do_map nd m c = None \<longleftrightarrow>
     \<not> nd \<and>
     (c = CR \<and> (m AND M_CRLF) = 0 \<and> (m AND M_CRCRLF) = 0 \<and> (m AND M_IGNCR) \<noteq> 0 \<or>
      c = LF \<and> (m AND M_LFCR) = 0 \<and> (m AND M_LFCRLF) = 0 \<and> (m AND M_IGNLF) \<noteq> 0)"
  unfolding do_map_None_iff do_map_stages_empty by (rule refl)

text \<open>
  \<^verbatim>\<open>parse_map\<close> accepts a string exactly when every token between commas, blanks and
  tabs is one of the fourteen identifiers, and then returns the union of their flags; any other
  token makes the whole option invalid (\<^verbatim>\<open>-1\<close>).
\<close>

theorem parse_map_tokens:
  "parse_map s =
     (if list_all known_name (map_tokens s) then Some (or_names 0 (map_tokens s)) else None)"
  unfolding parse_map_def parse_map_loop_tokens list_all_iff by (rule refl)

text \<open>
  The text \<^verbatim>\<open>print_map\<close> shows for a mapping (less its line feed) is read back by
  \<^verbatim>\<open>parse_map\<close> as the fourteen mapping bits, and what \<^verbatim>\<open>parse_map\<close> returns has no other bit set.
\<close>

theorem parse_print_map:
  "parse_map (butlast (print_map fl)) = Some (take_bit 14 fl) \<and>
   map_option (take_bit 14) (parse_map s) = parse_map s"
proof
  show "parse_map (butlast (print_map fl)) = Some (take_bit 14 fl)" by (rule parse_map_print_map)
  have "\<forall>t \<in> set (map_tokens s). known_name t \<Longrightarrow>
      take_bit 14 (or_names 0 (map_tokens s)) = or_names 0 (map_tokens s)"
    by (rule bit_eqI) (auto simp: bit_take_bit_iff dest: or_names_low [where fl = 0, rotated 2])
  then show "map_option (take_bit 14) (parse_map s) = parse_map s"
    by (simp add: parse_map_def parse_map_loop_tokens)
qed

end
