(* ===== verification/Hexin.thy ===== *)
theory Hexin
  imports Prelude
begin

text \<open>
  Hexadecimal input of the "write hex" command, \<^verbatim>\<open>src/ppcom/src/ppcom.cpp\<close>:
  \<^verbatim>\<open>hexisdelim\<close>, \<^verbatim>\<open>hex2byte\<close> and \<^verbatim>\<open>hex2bin\<close>.  A C string is the list of its
  characters before the terminating NUL; \<open>None\<close> is the return value \<^verbatim>\<open>-1\<close>.
\<close>

definition HEXDELIM :: string where
  "HEXDELIM = '' '' @ [CR] @ '';:-_.,/''"

definition hexisdelim :: "char \<Rightarrow> bool" where
  "hexisdelim c \<longleftrightarrow> c \<in> set HEXDELIM"

definition hex2byte :: "char \<Rightarrow> nat option" where
  "hex2byte c =
     (if byte_val CHR ''0'' \<le> byte_val c \<and> byte_val c \<le> byte_val CHR ''9''
      then Some (byte_val c - byte_val CHR ''0'')
      else if byte_val CHR ''A'' \<le> byte_val c \<and> byte_val c \<le> byte_val CHR ''F''
      then Some (byte_val c - byte_val CHR ''A'' + 10)
      else if byte_val CHR ''a'' \<le> byte_val c \<and> byte_val c \<le> byte_val CHR ''f''
      then Some (byte_val c - byte_val CHR ''a'' + 10)
      else None)"

text \<open>
  \<open>hex2bin sz s\<close>: the loop with \<open>sz\<close> free places left in the buffer; the result is what it appends.
  The loop stops when the buffer is full or the string ends, whichever comes first.
\<close>

fun hex2bin :: "nat \<Rightarrow> string \<Rightarrow> byte list option" where
  "hex2bin 0 s = Some []"
| "hex2bin (Suc n) [] = Some []"
| "hex2bin (Suc n) (c # s) =
     (if hexisdelim c then hex2bin (Suc n) s
      else
        (case hex2byte c of
           None \<Rightarrow> None
         | Some b0 \<Rightarrow>
             (case s of
                [] \<Rightarrow> None
              | d # s' \<Rightarrow>
                  (case hex2byte d of
                     None \<Rightarrow> None
                   | Some b1 \<Rightarrow>
                       (case hex2bin n s' of
                          None \<Rightarrow> None
                        | Some r \<Rightarrow> Some (char_of (push_bit 4 b0 OR b1) # r))))))"

section \<open>Lemmas\<close>

text \<open>One byte as two hexadecimal digits, the digits \<^verbatim>\<open>map2hex\<close> also prints.\<close>

definition hex_of_byte :: "byte \<Rightarrow> string" where
  "hex_of_byte b = [hexd (byte_val b div 16), hexd (byte_val b mod 16)]"

lemma hexd_cases: "n < 16 \<Longrightarrow> n \<in> set [0..<16]"
  by simp

lemma hex2byte_hexd: "n < 16 \<Longrightarrow> hex2byte (hexd n) = Some n"
proof -
  have "\<forall>n \<in> set [0..<16]. hex2byte (hexd n) = Some n"
    by (simp add: hex2byte_def hexd_def upt_rec)
  then show "n < 16 \<Longrightarrow> ?thesis" using hexd_cases by blast
qed

lemma hexd_not_delim: "n < 16 \<Longrightarrow> \<not> hexisdelim (hexd n)"
proof -
  have "\<forall>n \<in> set [0..<16]. \<not> hexisdelim (hexd n)"
    by (simp add: hexisdelim_def HEXDELIM_def hexd_def upt_rec)
  then show "n < 16 \<Longrightarrow> ?thesis" using hexd_cases by blast
qed

lemma hex2byte_bound: "hex2byte c = Some n \<Longrightarrow> n < 16"
  by (auto simp: hex2byte_def split: if_splits)

lemma nibbles_join:
  assumes "b1 < 16"
  shows "push_bit 4 (b0::nat) OR b1 = b0 * 16 + b1"
proof -
  have "push_bit 4 b0 AND b1 = 0"
  proof (rule bit_eqI)
    fix n
    show "bit (push_bit 4 b0 AND b1) n \<longleftrightarrow> bit (0::nat) n"
    proof (cases "n < 4")
      case False
      then have "(2::nat) ^ 4 \<le> 2 ^ n" by (intro power_increasing) auto
      with assms have "b1 < 2 ^ n" by simp
      then have "\<not> bit b1 n" by (simp add: bit_iff_odd)
      then show ?thesis by (simp add: bit_and_iff)
    qed (simp add: bit_and_iff bit_push_bit_iff)
  qed
  then have "push_bit 4 b0 OR b1 = push_bit 4 b0 + b1" by (rule disjunctive_add_eq_or [symmetric])
  then show ?thesis by (simp add: push_bit_eq_mult)
qed

lemma byte_nibbles: "char_of (push_bit 4 (byte_val b div 16) OR byte_val b mod 16) = b"
  by (simp add: nibbles_join)

lemma hex2bin_hex_of_byte:
  "hex2bin (Suc n) (hex_of_byte b @ s) = map_option ((#) b) (hex2bin n s)"
  using byte_val_less [of b]
  by (simp add: hex_of_byte_def hexd_not_delim hex2byte_hexd byte_nibbles less_mult_imp_div_less
      split: option.split)

lemma hex2bin_delims:
  "list_all hexisdelim ds \<Longrightarrow> hex2bin n (ds @ s) = hex2bin n s"
  by (induction ds; cases n) auto

lemma hex2bin_length: "hex2bin n s = Some bs \<Longrightarrow> length bs \<le> n"
proof (induction n s arbitrary: bs rule: hex2bin.induct)
  case (3 n c s)
  then show ?case by (force split: if_splits option.splits list.splits)
qed auto

text \<open>What a user may type: each byte after any run of delimiters.\<close>

definition hex_text :: "(string \<times> byte) list \<Rightarrow> string" where
  "hex_text ps = concat (map (\<lambda>(ds, b). ds @ hex_of_byte b) ps)"

lemma hex2bin_hex_text:
  "list_all (\<lambda>(ds, b). list_all hexisdelim ds) ps \<Longrightarrow> length ps \<le> n \<Longrightarrow>
     hex2bin n (hex_text ps) = Some (map snd ps)"
proof (induction ps arbitrary: n)
  case Nil
  then show ?case by (cases n) (simp_all add: hex_text_def)
next
  case (Cons p ps)
  obtain ds b where p: "p = (ds, b)" by (cases p)
  obtain k where n: "n = Suc k" using Cons.prems(2) by (cases n) auto
  have "hex2bin n (hex_text (p # ps)) = map_option ((#) b) (hex2bin k (hex_text ps))"
    using Cons.prems(1) by (simp add: p n hex_text_def hex2bin_delims hex2bin_hex_of_byte)
  then show ?case using Cons p n by simp
qed

lemma hex2byte_join:
  assumes "hex2byte c = Some b0" and "hex2byte d = Some b1"
  shows "map hex2byte (hex_of_byte (char_of (push_bit 4 b0 OR b1))) = [hex2byte c, hex2byte d]"
proof -
  have "b0 < 16" "b1 < 16" using assms hex2byte_bound by blast+
  moreover from this have "(b0 * 16 + b1) mod 256 = b0 * 16 + b1" by simp
  ultimately show ?thesis using assms
    by (simp add: hex_of_byte_def nibbles_join hex2byte_hexd)
qed

lemma hex2bin_sound:
  "hex2bin n s = Some bs \<Longrightarrow> length bs < n \<Longrightarrow>
     map hex2byte (filter (\<lambda>c. \<not> hexisdelim c) s) = map hex2byte (concat (map hex_of_byte bs))"
proof (induction n s arbitrary: bs rule: hex2bin.induct)
  case (3 n c s)
  show ?case
  proof (cases "hexisdelim c")
    case True
    with 3 show ?thesis by simp
  next
    case False
    with "3.prems"(1) obtain b0 d s' b1 r where d: "hex2byte c = Some b0" "s = d # s'"
      "hex2byte d = Some b1" "hex2bin n s' = Some r"
      "bs = char_of (push_bit 4 b0 OR b1) # r"
      by (auto split: option.splits list.splits)
    moreover have "\<not> hexisdelim d"
    proof
      assume "hexisdelim d"
      then have "hex2byte d = None" by (auto simp: hexisdelim_def HEXDELIM_def hex2byte_def)
      with d(3) show False by simp
    qed
    moreover from d "3.prems"(2) have "length r < n" by simp
    ultimately show ?thesis using False "3.IH"(2) [OF False d(1,2,3,4)] hex2byte_join [OF d(1,3)]
      by simp
  qed
qed auto

section \<open>Properties\<close>

text \<open>
  C27: round trip of hexadecimal input.  Any sequence of bytes that fits the buffer, written as
  two hexadecimal digits each with arbitrary runs of delimiters before each byte, is read back by
  \<^verbatim>\<open>hex2bin\<close> exactly.
\<close>

theorem hex2bin_roundtrip:
  assumes "list_all (\<lambda>(ds, b). list_all hexisdelim ds) ps" and "length ps \<le> sz"
  shows "hex2bin sz (hex_text ps) = Some (map snd ps)"
  using assms by (rule hex2bin_hex_text)

theorem hex2bin_roundtrip_witness:
  "hex2bin 128 ''41 4243:44'' = Some ''ABCD''"
  using hex2bin_roundtrip [of "[([], CHR ''A''), ('' '', CHR ''B''), ([], CHR ''C''), ('':'', CHR ''D'')]" 128]
  by (simp add: hex_text_def hex_of_byte_def hexd_def hexisdelim_def HEXDELIM_def)

text \<open>
  Nothing but what was typed is sent.  When \<^verbatim>\<open>hex2bin\<close> accepts a string without filling
  the buffer, the digits typed (delimiters removed, upper or lower case) are exactly the digits of
  the bytes returned; and it never returns more bytes than the buffer holds.
\<close>

theorem hex2bin_exact:
  assumes "hex2bin sz s = Some bs"
  shows "length bs \<le> sz \<and>
    (length bs = sz \<or>
     map hex2byte (filter (\<lambda>c. \<not> hexisdelim c) s) = map hex2byte (concat (map hex_of_byte bs)))"
  using hex2bin_length [OF assms] hex2bin_sound [OF assms] by linarith

theorem hex2bin_exact_witness:
  "hex2bin 3 ''fF-01'' = Some [CHR 0xFF, CHR 0x01] \<and> length [CHR 0xFF, CHR 0x01] \<le> (3::nat)"
proof -
  have h: "hex2bin 3 ''fF-01'' = Some [CHR 0xFF, CHR 0x01]" by code_simp
  show ?thesis using h hex2bin_exact [OF h] by simp
qed

end
