(* ===== verification/Split.thy ===== *)
theory Split
  imports Prelude
begin

text \<open>
  Argument splitting with quoting, \<^verbatim>\<open>src/ppcom/src/split.cpp\<close>.  The lexer is the source's
  state machine over a fixed argument buffer (\<open>MAX_ARG_LEN\<close>) and a fixed argument vector
  (\<open>argv_sz\<close>).  The abstract specification \<open>lex_delim\<close>, \<open>lex_quote\<close>, \<open>lex_arg\<close> is the
  grammar documented in \<^verbatim>\<open>split.h\<close>, one character at a time and without limits.
\<close>

section \<open>The lexer\<close>

datatype err_codes = ERR_OK | ERR_BS_AT_EOS | ERR_SQ_OPEN_AT_EOS | ERR_DQ_OPEN_AT_EOS
datatype lex_state = ST_DELIM | ST_QUOTE | ST_ARG | ST_END

abbreviation BS :: char where "BS \<equiv> CHR 0x5C"
abbreviation SQ :: char where "SQ \<equiv> CHR 0x27"
abbreviation DQ :: char where "DQ \<equiv> CHR 0x22"
abbreviation NL :: char where "NL \<equiv> CHR 0x0A"

definition MAX_ARG_LEN :: nat where "MAX_ARG_LEN = 512"
definition SPLIT_DROP :: nat where "SPLIT_DROP = 1"
definition SPLIT_TRUNC :: nat where "SPLIT_TRUNC = 2"

definition is_delim :: "char \<Rightarrow> bool" where
  "is_delim c \<longleftrightarrow> c = CHR '' '' \<or> c = TAB \<or> c = NL"

definition is_dq_escapable :: "char \<Rightarrow> bool" where
  "is_dq_escapable c \<longleftrightarrow> c = BS \<or> c = DQ \<or> c = CHR 0x60 \<or> c = CHR ''$''"

text \<open>
  The local variables: \<open>sp_in\<close> the input from \<^verbatim>\<open>c\<close> on, \<open>sp_buf\<close> the bytes of
  \<^verbatim>\<open>arg_buff\<close> before \<^verbatim>\<open>ap\<close>, \<open>sp_argv\<close> the filled slots of \<^verbatim>\<open>argv\<close> (\<^verbatim>\<open>*argc\<close> is
  their number), \<open>sp_oom\<close> whether \<^verbatim>\<open>strdup\<close> failed (an immediate \<^verbatim>\<open>return -1\<close>).
\<close>

record spl =
  sp_in :: string
  sp_buf :: string
  sp_state :: lex_state
  sp_qc :: char
  sp_err :: err_codes
  sp_flags :: nat
  sp_argv :: "string list"
  sp_oom :: bool

text \<open>\<^verbatim>\<open>*c\<close>: the terminating NUL when the input is used up.\<close>

definition cur :: "spl \<Rightarrow> char" where
  "cur s = (case sp_in s of [] \<Rightarrow> EOS | c # _ \<Rightarrow> c)"

definition adv :: "spl \<Rightarrow> spl" where
  "adv s = s\<lparr>sp_in := tl (sp_in s)\<rparr>"

definition save :: "char \<Rightarrow> spl \<Rightarrow> spl" where
  "save c s =
     (if length (sp_buf s) \<noteq> MAX_ARG_LEN - 1
      then s\<lparr>sp_buf := sp_buf s @ [c]\<rparr>
      else s\<lparr>sp_flags := sp_flags s OR SPLIT_TRUNC\<rparr>)"

definition push :: "(string \<Rightarrow> bool) \<Rightarrow> nat \<Rightarrow> spl \<Rightarrow> spl" where
  "push strdup_ok argv_sz s =
     (let s1 =
        (if length (sp_argv s) < argv_sz then
           (if strdup_ok (sp_buf s) then s\<lparr>sp_argv := sp_argv s @ [sp_buf s]\<rparr>
            else s\<lparr>sp_oom := True\<rparr>)
         else s\<lparr>sp_flags := sp_flags s OR SPLIT_DROP\<rparr>)
      in if sp_oom s1 then s1 else s1\<lparr>sp_buf := []\<rparr>)"

definition step_delim :: "spl \<Rightarrow> spl" where
  "step_delim s0 =
     (let s = s0\<lparr>sp_in := dropWhile is_delim (sp_in s0)\<rparr> in
      if cur s = SQ \<or> cur s = DQ then (adv s)\<lparr>sp_qc := cur s, sp_state := ST_QUOTE\<rparr>
      else if sp_in s = [] then s\<lparr>sp_state := ST_END\<rparr>
      else if cur s = BS then
        (let s1 = adv s in
         if cur s1 = NL then adv s1
         else if sp_in s1 = [] then s1\<lparr>sp_state := ST_END, sp_err := ERR_BS_AT_EOS\<rparr>
         else (adv (save (cur s1) s1))\<lparr>sp_state := ST_ARG\<rparr>)
      else (adv (save (cur s) s))\<lparr>sp_state := ST_ARG\<rparr>)"

text \<open>The inner \<^verbatim>\<open>while\<close> of \<open>ST_QUOTE\<close> saves the characters for which this holds.\<close>

definition quote_plain :: "char \<Rightarrow> char \<Rightarrow> bool" where
  "quote_plain qc c \<longleftrightarrow> c \<noteq> qc \<and> (c \<noteq> BS \<or> qc = SQ)"

definition quote_run :: "spl \<Rightarrow> spl" where
  "quote_run s =
     (fold save (takeWhile (quote_plain (sp_qc s)) (sp_in s)) s)
       \<lparr>sp_in := dropWhile (quote_plain (sp_qc s)) (sp_in s)\<rparr>"

definition step_quote :: "spl \<Rightarrow> spl" where
  "step_quote s0 =
     (let s = quote_run s0 in
      if cur s = sp_qc s then (adv s)\<lparr>sp_state := ST_ARG\<rparr>
      else if cur s = BS then
        (let s1 = adv s in
         if cur s1 = NL then adv s1
         else if sp_in s1 = [] then s1\<lparr>sp_state := ST_END, sp_err := ERR_BS_AT_EOS\<rparr>
         else
           (let s2 = (if is_dq_escapable (cur s1) then s1 else save BS s1)
            in adv (save (cur s1) s2)))
      else s\<lparr>sp_state := ST_END, sp_err := ERR_SQ_OPEN_AT_EOS\<rparr>)"

definition step_arg :: "(string \<Rightarrow> bool) \<Rightarrow> nat \<Rightarrow> spl \<Rightarrow> spl" where
  "step_arg strdup_ok argv_sz s =
     (if cur s = SQ \<or> cur s = DQ then (adv s)\<lparr>sp_qc := cur s, sp_state := ST_QUOTE\<rparr>
      else if is_delim (cur s) \<or> sp_in s = [] then
        (let s1 = push strdup_ok argv_sz s in
         if sp_oom s1 then s1
         else (adv s1)\<lparr>sp_state := (if sp_in s = [] then ST_END else ST_DELIM)\<rparr>)
      else if cur s = BS then
        (let s1 = adv s in
         if cur s1 = NL then adv s1
         else if sp_in s1 = [] then s1\<lparr>sp_state := ST_END, sp_err := ERR_BS_AT_EOS\<rparr>
         else adv (save (cur s1) s1))
      else adv (save (cur s) s))"

definition split_step :: "(string \<Rightarrow> bool) \<Rightarrow> nat \<Rightarrow> spl \<Rightarrow> spl" where
  "split_step strdup_ok argv_sz s =
     (case sp_state s of
        ST_DELIM \<Rightarrow> step_delim s
      | ST_QUOTE \<Rightarrow> step_quote s
      | ST_ARG \<Rightarrow> step_arg strdup_ok argv_sz s
      | ST_END \<Rightarrow> s)"

text \<open>Simplification rules for the short-hands.\<close>

lemma adv_simps [simp]:
  "sp_in (adv s) = tl (sp_in s)" "sp_buf (adv s) = sp_buf s" "sp_state (adv s) = sp_state s"
  "sp_qc (adv s) = sp_qc s" "sp_err (adv s) = sp_err s" "sp_flags (adv s) = sp_flags s"
  "sp_argv (adv s) = sp_argv s" "sp_oom (adv s) = sp_oom s"
  by (simp_all add: adv_def)

lemma save_simps [simp]:
  "sp_in (save c s) = sp_in s" "sp_state (save c s) = sp_state s" "sp_qc (save c s) = sp_qc s"
  "sp_err (save c s) = sp_err s" "sp_argv (save c s) = sp_argv s" "sp_oom (save c s) = sp_oom s"
  by (simp_all add: save_def)

lemma fold_save_simps [simp]:
  "sp_in (fold save cs s) = sp_in s" "sp_state (fold save cs s) = sp_state s"
  "sp_qc (fold save cs s) = sp_qc s" "sp_err (fold save cs s) = sp_err s"
  "sp_argv (fold save cs s) = sp_argv s" "sp_oom (fold save cs s) = sp_oom s"
  by (induction cs arbitrary: s) simp_all

lemma push_simps [simp]:
  "sp_in (push k n s) = sp_in s" "sp_state (push k n s) = sp_state s"
  "sp_qc (push k n s) = sp_qc s" "sp_err (push k n s) = sp_err s"
  by (simp_all add: push_def Let_def)

fun state_weight :: "lex_state \<Rightarrow> nat" where
  "state_weight ST_END = 0"
| "state_weight ST_QUOTE = 2"
| "state_weight _ = 1"

definition split_measure :: "spl \<Rightarrow> nat" where
  "split_measure s = 3 * length (sp_in s) + state_weight (sp_state s)"

lemma cur_empty: "sp_in s = [] \<Longrightarrow> cur s = EOS"
  by (simp add: cur_def)

lemma cur_nonempty: "cur s \<noteq> EOS \<Longrightarrow> sp_in s \<noteq> []"
  by (auto simp: cur_def)

lemma length_tl_less: "xs \<noteq> [] \<Longrightarrow> length (tl xs) < length xs"
  by (cases xs) auto

lemma step_delim_measure:
  assumes "sp_state s = ST_DELIM"
  shows "split_measure (step_delim s) < split_measure s"
proof -
  let ?d = "dropWhile is_delim (sp_in s)"
  have le: "length ?d \<le> length (sp_in s)" by (rule length_dropWhile_le)
  show ?thesis
  proof (cases ?d)
    case Nil
    then show ?thesis using assms
      by (simp add: step_delim_def split_measure_def cur_def Let_def del: dropWhile_eq_Nil_conv)
  next
    case (Cons c r)
    then have r: "length r < length (sp_in s)" using le by simp
    have "length (tl r) \<le> length r" by simp
    with r Cons assms show ?thesis
      by (auto simp: step_delim_def split_measure_def cur_def Let_def)
  qed
qed

lemma step_quote_measure:
  assumes "sp_state s = ST_QUOTE"
  shows "split_measure (step_quote s) < split_measure s"
proof -
  let ?d = "dropWhile (quote_plain (sp_qc s)) (sp_in s)"
  have le: "length ?d \<le> length (sp_in s)" by (rule length_dropWhile_le)
  show ?thesis
  proof (cases ?d)
    case Nil
    then show ?thesis using assms
      by (simp add: step_quote_def quote_run_def split_measure_def cur_def Let_def
          del: dropWhile_eq_Nil_conv)
  next
    case (Cons c r)
    then have r: "length r < length (sp_in s)" using le by simp
    have "length (tl r) \<le> length r" by simp
    moreover have "\<not> quote_plain (sp_qc s) c" using Cons by (metis hd_dropWhile list.distinct(1) list.sel(1))
    ultimately show ?thesis using r Cons assms
      by (auto simp: step_quote_def quote_run_def quote_plain_def split_measure_def cur_def Let_def)
  qed
qed

lemma step_arg_measure:
  assumes "sp_state s = ST_ARG" and "\<not> sp_oom (step_arg k n s)"
  shows "split_measure (step_arg k n s) < split_measure s"
proof (cases "sp_in s")
  case Nil
  with assms show ?thesis
    by (simp add: step_arg_def split_measure_def cur_def is_delim_def Let_def split: if_splits)
next
  case (Cons c r)
  have "length (tl r) \<le> length r" by simp
  with Cons assms show ?thesis
    by (auto simp: step_arg_def split_measure_def cur_def Let_def split: if_splits)
qed

lemma split_step_measure:
  "sp_state s \<noteq> ST_END \<Longrightarrow> \<not> sp_oom (split_step k n s) \<Longrightarrow>
     split_measure (split_step k n s) < split_measure s"
  by (cases "sp_state s")
    (simp_all add: split_step_def step_delim_measure step_quote_measure step_arg_measure)

text \<open>The loop \<^verbatim>\<open>while ( state != ST_END )\<close>, left early when \<^verbatim>\<open>strdup\<close> fails.\<close>

function split_loop :: "(string \<Rightarrow> bool) \<Rightarrow> nat \<Rightarrow> spl \<Rightarrow> spl" where
  "split_loop k n s =
     (if sp_state s = ST_END then s
      else (let s' = split_step k n s in if sp_oom s' then s' else split_loop k n s'))"
  by pat_completeness auto
termination
  by (relation "measure (\<lambda>(k, n, s). split_measure s)") (auto dest: split_step_measure)

declare split_loop.simps [simp del]

definition split_init :: "string \<Rightarrow> string list \<Rightarrow> spl" where
  "split_init s argv =
     \<lparr>sp_in = s, sp_buf = [], sp_state = ST_DELIM, sp_qc = SQ, sp_err = ERR_OK, sp_flags = 0,
      sp_argv = argv, sp_oom = False\<rparr>"

text \<open>
  \<open>split_quoted strdup_ok s argv argv_sz\<close>: \<open>argv\<close> holds the \<^verbatim>\<open>*argc\<close> arguments already in
  the vector; the result is the return value and the arguments in the vector afterwards.
\<close>

definition split_quoted ::
    "(string \<Rightarrow> bool) \<Rightarrow> string \<Rightarrow> string list \<Rightarrow> nat \<Rightarrow> int \<times> string list" where
  "split_quoted strdup_ok s argv argv_sz =
     (let e = split_loop strdup_ok argv_sz (split_init s argv) in
      (if sp_oom e \<or> sp_err e \<noteq> ERR_OK then -1 else int (sp_flags e), sp_argv e))"

section \<open>The documented grammar, without limits\<close>

definition add_arg :: "string \<Rightarrow> err_codes \<times> string list \<Rightarrow> err_codes \<times> string list" where
  "add_arg a r = (fst r, a # snd r)"

text \<open>
  The error code and the complete arguments; \<open>a\<close> is the argument read so far.
\<close>

fun lex_delim :: "string \<Rightarrow> err_codes \<times> string list"
  and lex_quote :: "char \<Rightarrow> string \<Rightarrow> string \<Rightarrow> err_codes \<times> string list"
  and lex_arg :: "string \<Rightarrow> string \<Rightarrow> err_codes \<times> string list" where
  "lex_delim [] = (ERR_OK, [])"
| "lex_delim (c # s) =
     (if is_delim c then lex_delim s
      else if c = SQ \<or> c = DQ then lex_quote c [] s
      else if c = BS then
        (case s of [] \<Rightarrow> (ERR_BS_AT_EOS, [])
         | d # s' \<Rightarrow> if d = NL then lex_delim s' else lex_arg [d] s')
      else lex_arg [c] s)"
| "lex_quote q a [] = (ERR_SQ_OPEN_AT_EOS, [])"
| "lex_quote q a (c # s) =
     (if c = q then lex_arg a s
      else if c = BS \<and> q \<noteq> SQ then
        (case s of [] \<Rightarrow> (ERR_BS_AT_EOS, [])
         | d # s' \<Rightarrow>
             if d = NL then lex_quote q a s'
             else if is_dq_escapable d then lex_quote q (a @ [d]) s'
             else lex_quote q (a @ [BS, d]) s')
      else lex_quote q (a @ [c]) s)"
| "lex_arg a [] = (ERR_OK, [a])"
| "lex_arg a (c # s) =
     (if c = SQ \<or> c = DQ then lex_quote c a s
      else if is_delim c then add_arg a (lex_delim s)
      else if c = BS then
        (case s of [] \<Rightarrow> (ERR_BS_AT_EOS, [])
         | d # s' \<Rightarrow> if d = NL then lex_arg a s' else lex_arg (a @ [d]) s')
      else lex_arg (a @ [c]) s)"

text \<open>What the limits make of it: \<open>f\<close> the warning flags so far, \<open>argv\<close> the filled slots.\<close>

definition trunc_flag :: "string \<Rightarrow> nat" where
  "trunc_flag a = (if length a < MAX_ARG_LEN then 0 else SPLIT_TRUNC)"

fun limited :: "nat \<Rightarrow> nat \<Rightarrow> string list \<Rightarrow> string list \<Rightarrow> nat \<times> string list" where
  "limited n f argv [] = (f, argv)"
| "limited n f argv (a # as) =
     (if length argv < n
      then limited n (f OR trunc_flag a) (argv @ [take (MAX_ARG_LEN - 1) a]) as
      else limited n (f OR trunc_flag a OR SPLIT_DROP) argv as)"

definition split_spec :: "nat \<Rightarrow> nat \<Rightarrow> string list \<Rightarrow> err_codes \<times> string list \<Rightarrow> int \<times> string list" where
  "split_spec n f argv r =
     (if fst r = ERR_OK then int (fst (limited n f argv (snd r))) else -1,
      snd (limited n f argv (snd r)))"

definition split_result :: "spl \<Rightarrow> int \<times> string list" where
  "split_result e = (if sp_oom e \<or> sp_err e \<noteq> ERR_OK then -1 else int (sp_flags e), sp_argv e)"

section \<open>Refinement\<close>

abbreviation "mem_ok \<equiv> (\<lambda>_::string. True)"

text \<open>The loop at a state whose input, buffer and flags are given.\<close>

definition at :: "lex_state \<Rightarrow> char \<Rightarrow> string \<Rightarrow> nat \<Rightarrow> string list \<Rightarrow> string \<Rightarrow> spl" where
  "at st q a f argv s =
     \<lparr>sp_in = s, sp_buf = take (MAX_ARG_LEN - 1) a, sp_state = st, sp_qc = q, sp_err = ERR_OK,
      sp_flags = f OR trunc_flag a, sp_argv = argv, sp_oom = False\<rparr>"

lemma at_fields [simp]:
  "sp_in (at st q a f argv s) = s" "sp_state (at st q a f argv s) = st"
  "sp_qc (at st q a f argv s) = q" "sp_argv (at st q a f argv s) = argv"
  "sp_oom (at st q a f argv s) = False" "sp_err (at st q a f argv s) = ERR_OK"
  by (simp_all add: at_def)

lemma cur_at: "cur (at st q a f argv s) = (case s of [] \<Rightarrow> EOS | c # _ \<Rightarrow> c)"
  by (simp add: cur_def)

lemma at_in [simp]: "(at st q a f argv s)\<lparr>sp_in := s'\<rparr> = at st q a f argv s'"
  by (simp add: at_def)

lemma at_state [simp]: "(at st q a f argv s)\<lparr>sp_state := st'\<rparr> = at st' q a f argv s"
  by (simp add: at_def)

lemma at_qc [simp]: "(at st q a f argv s)\<lparr>sp_qc := q'\<rparr> = at st q' a f argv s"
  by (simp add: at_def)

lemma adv_at [simp]: "adv (at st q a f argv s) = at st q a f argv (tl s)"
  by (simp add: adv_def)

lemma save_at [simp]: "save c (at st q a f argv s) = at st q (a @ [c]) f argv s"
  by (auto simp: save_def at_def trunc_flag_def MAX_ARG_LEN_def or.assoc)

lemma fold_save_at: "fold save cs (at st q a f argv s) = at st q (a @ cs) f argv s"
  by (induction cs arbitrary: a) simp_all

lemma quote_run_at:
  "quote_run (at ST_QUOTE q a f argv s) =
     at ST_QUOTE q (a @ takeWhile (quote_plain q) s) f argv (dropWhile (quote_plain q) s)"
  by (simp add: quote_run_def fold_save_at)

lemma push_at:
  "push mem_ok n (at st q a f argv s) =
     (if length argv < n then at st q [] (f OR trunc_flag a) (argv @ [take (MAX_ARG_LEN - 1) a]) s
      else at st q [] (f OR trunc_flag a OR SPLIT_DROP) argv s)"
  by (simp add: push_def at_def trunc_flag_def MAX_ARG_LEN_def Let_def or.assoc)

lemma split_init_at: "split_init s argv = at ST_DELIM SQ [] 0 argv s"
  by (simp add: split_init_def at_def trunc_flag_def MAX_ARG_LEN_def)

text \<open>One unfolding of the loop, and the two inner loops one character at a time.\<close>

lemma loop_step:
  "sp_state s \<noteq> ST_END \<Longrightarrow> \<not> sp_oom (split_step k n s) \<Longrightarrow>
     split_loop k n s = split_loop k n (split_step k n s)"
  by (subst split_loop.simps) (simp add: Let_def)

lemma loop_cong:
  "split_step k n s = split_step k n t \<Longrightarrow> sp_state s \<noteq> ST_END \<Longrightarrow> sp_state t \<noteq> ST_END \<Longrightarrow>
     split_loop k n s = split_loop k n t"
  by (simp add: split_loop.simps [of k n s] split_loop.simps [of k n t])

lemma loop_END: "sp_state s = ST_END \<Longrightarrow> split_loop k n s = s"
  by (subst split_loop.simps) simp

lemma loop_delim_skip:
  "is_delim c \<Longrightarrow>
     split_loop k n (at ST_DELIM q a f argv (c # s)) = split_loop k n (at ST_DELIM q a f argv s)"
  by (rule loop_cong) (simp_all add: split_step_def step_delim_def)

lemma loop_quote_char:
  "quote_plain q c \<Longrightarrow>
     split_loop k n (at ST_QUOTE q a f argv (c # s)) =
     split_loop k n (at ST_QUOTE q (a @ [c]) f argv s)"
  by (rule loop_cong) (simp_all add: split_step_def step_quote_def quote_run_at)

lemma loop_at:
  assumes "split_step k n (at st q a f argv s) = at st' q' a' f' argv' s'" and "st \<noteq> ST_END"
  shows "split_loop k n (at st q a f argv s) = split_loop k n (at st' q' a' f' argv' s')"
  using loop_step [of "at st q a f argv s" k n] assms by simp

lemma loop_final:
  assumes "split_step k n (at st q a f argv s) = e" and "sp_state e = ST_END" and "st \<noteq> ST_END"
  shows "split_loop k n (at st q a f argv s) = e"
  using assms loop_END [of e] by (subst split_loop.simps) (simp add: Let_def)

lemmas step_simps = split_step_def step_delim_def step_quote_def step_arg_def cur_at
  quote_run_at push_at Let_def quote_plain_def

lemma loop_from_delim:
  "c = SQ \<or> c = DQ \<Longrightarrow> split_loop k n (at ST_DELIM q [] f argv (c # s)) =
     split_loop k n (at ST_QUOTE c [] f argv s)"
  "split_loop k n (at ST_DELIM q [] f argv (BS # NL # s)) =
     split_loop k n (at ST_DELIM q [] f argv s)"
  "d \<noteq> NL \<Longrightarrow> split_loop k n (at ST_DELIM q [] f argv (BS # d # s)) =
     split_loop k n (at ST_ARG q [d] f argv s)"
  "\<not> is_delim c \<Longrightarrow> c \<noteq> SQ \<Longrightarrow> c \<noteq> DQ \<Longrightarrow> c \<noteq> BS \<Longrightarrow>
     split_loop k n (at ST_DELIM q [] f argv (c # s)) = split_loop k n (at ST_ARG q [c] f argv s)"
  "split_loop k n (at ST_DELIM q [] f argv []) = at ST_END q [] f argv []"
  "split_loop k n (at ST_DELIM q [] f argv [BS]) =
     (at ST_END q [] f argv [])\<lparr>sp_err := ERR_BS_AT_EOS\<rparr>"
  by (rule loop_at loop_final; auto simp: step_simps is_delim_def)+

lemma loop_from_quote:
  "split_loop k n (at ST_QUOTE q a f argv (q # s)) = split_loop k n (at ST_ARG q a f argv s)"
  "q = DQ \<Longrightarrow> split_loop k n (at ST_QUOTE q a f argv (BS # NL # s)) =
     split_loop k n (at ST_QUOTE q a f argv s)"
  "q = DQ \<Longrightarrow> d \<noteq> NL \<Longrightarrow> split_loop k n (at ST_QUOTE q a f argv (BS # d # s)) =
     split_loop k n (at ST_QUOTE q (if is_dq_escapable d then a @ [d] else a @ [BS, d]) f argv s)"
  "q = DQ \<Longrightarrow> split_loop k n (at ST_QUOTE q a f argv [BS]) =
     (at ST_END q a f argv [])\<lparr>sp_err := ERR_BS_AT_EOS\<rparr>"
  "q = SQ \<or> q = DQ \<Longrightarrow> split_loop k n (at ST_QUOTE q a f argv []) =
     (at ST_END q a f argv [])\<lparr>sp_err := ERR_SQ_OPEN_AT_EOS\<rparr>"
  by (rule loop_at loop_final; auto simp: step_simps)+

lemma loop_from_arg:
  "c = SQ \<or> c = DQ \<Longrightarrow> split_loop k n (at ST_ARG q a f argv (c # s)) =
     split_loop k n (at ST_QUOTE c a f argv s)"
  "is_delim c \<Longrightarrow> length argv < n \<Longrightarrow> split_loop mem_ok n (at ST_ARG q a f argv (c # s)) =
     split_loop mem_ok n (at ST_DELIM q [] (f OR trunc_flag a) (argv @ [take (MAX_ARG_LEN - 1) a]) s)"
  "is_delim c \<Longrightarrow> \<not> length argv < n \<Longrightarrow> split_loop mem_ok n (at ST_ARG q a f argv (c # s)) =
     split_loop mem_ok n (at ST_DELIM q [] (f OR trunc_flag a OR SPLIT_DROP) argv s)"
  "length argv < n \<Longrightarrow> split_loop mem_ok n (at ST_ARG q a f argv []) =
     at ST_END q [] (f OR trunc_flag a) (argv @ [take (MAX_ARG_LEN - 1) a]) []"
  "\<not> length argv < n \<Longrightarrow> split_loop mem_ok n (at ST_ARG q a f argv []) =
     at ST_END q [] (f OR trunc_flag a OR SPLIT_DROP) argv []"
  "split_loop k n (at ST_ARG q a f argv (BS # NL # s)) = split_loop k n (at ST_ARG q a f argv s)"
  "d \<noteq> NL \<Longrightarrow> split_loop k n (at ST_ARG q a f argv (BS # d # s)) =
     split_loop k n (at ST_ARG q (a @ [d]) f argv s)"
  "split_loop k n (at ST_ARG q a f argv [BS]) =
     (at ST_END q a f argv [])\<lparr>sp_err := ERR_BS_AT_EOS\<rparr>"
  "\<not> is_delim c \<Longrightarrow> c \<noteq> SQ \<Longrightarrow> c \<noteq> DQ \<Longrightarrow> c \<noteq> BS \<Longrightarrow>
     split_loop k n (at ST_ARG q a f argv (c # s)) = split_loop k n (at ST_ARG q (a @ [c]) f argv s)"
  by (rule loop_at loop_final; auto simp: step_simps is_delim_def)+

lemma trunc_flag_Nil [simp]: "trunc_flag [] = 0"
  by (simp add: trunc_flag_def MAX_ARG_LEN_def)

lemma split_result_END:
  "split_result (at ST_END q a f argv s) = (int (f OR trunc_flag a), argv)"
  "e \<noteq> ERR_OK \<Longrightarrow> split_result ((at ST_END q a f argv s)\<lparr>sp_err := e\<rparr>) = (-1, argv)"
  by (simp_all add: split_result_def at_def)

lemma split_spec_simps:
  "split_spec n f argv (ERR_OK, []) = (int f, argv)"
  "e \<noteq> ERR_OK \<Longrightarrow> split_spec n f argv (e, []) = (-1, argv)"
  "split_spec n f argv (add_arg a r) =
     (if length argv < n then split_spec n (f OR trunc_flag a) (argv @ [take (MAX_ARG_LEN - 1) a]) r
      else split_spec n (f OR trunc_flag a OR SPLIT_DROP) argv r)"
  by (simp_all add: split_spec_def add_arg_def)

lemma add_arg_Nil: "(ERR_OK, [a]) = add_arg a (ERR_OK, [])"
  by (simp add: add_arg_def)

lemmas refine_simps = split_result_END split_spec_simps loop_delim_skip loop_from_delim
  loop_from_quote loop_from_arg

lemma refine_all:
  "\<forall>q f argv. split_result (split_loop mem_ok n (at ST_DELIM q [] f argv s)) = split_spec n f argv (lex_delim s)"
  "qc = SQ \<or> qc = DQ \<Longrightarrow> \<forall>f argv.
      split_result (split_loop mem_ok n (at ST_QUOTE qc a f argv s)) = split_spec n f argv (lex_quote qc a s)"
  "\<forall>q f argv. split_result (split_loop mem_ok n (at ST_ARG q a f argv s)) = split_spec n f argv (lex_arg a s)"
proof (induction s and qc a s and a s rule: lex_delim_lex_quote_lex_arg.induct)
  case 1
  show ?case by (simp add: refine_simps)
next
  case (2 c s)
  show ?case
  proof (cases "is_delim c \<or> c = SQ \<or> c = DQ")
    case True
    then show ?thesis using 2 by (auto simp: refine_simps)
  next
    case False
    then show ?thesis using 2 by (cases "c = BS"; cases s) (auto simp: refine_simps)
  qed
next
  case (3 q a)
  then show ?case by (auto simp: refine_simps)
next
  case (4 q a c s)
  consider "c = q" | "c \<noteq> q" "c = BS" "q = DQ" | "quote_plain q c"
    using "4.prems" by (auto simp: quote_plain_def)
  then show ?case
  proof cases
    case 1
    then show ?thesis using 4 by (simp add: loop_from_quote)
  next
    case 2
    then show ?thesis using 4 by (cases s) (auto simp: refine_simps)
  next
    case 3
    then have nc: "c \<noteq> q" "\<not> (c = BS \<and> q \<noteq> SQ)" by (auto simp: quote_plain_def)
    then have eq: "lex_quote q a (c # s) = lex_quote q (a @ [c]) s" by auto
    show ?thesis unfolding eq loop_quote_char [OF 3] by (rule "4.IH"(5) [OF nc "4.prems"])
  qed
next
  case (5 a)
  show ?case by (auto simp: refine_simps add_arg_Nil)
next
  case (6 a c s)
  show ?case
  proof (cases "is_delim c \<or> c = SQ \<or> c = DQ")
    case True
    then show ?thesis using 6 by (auto simp: refine_simps)
  next
    case False
    then show ?thesis using 6 by (cases "c = BS"; cases s) (auto simp: refine_simps)
  qed
qed

section \<open>Consequences\<close>

lemma split_quoted_refines:
  "split_quoted mem_ok s argv n = split_spec n 0 argv (lex_delim s)"
  using refine_all(1) [of n s]
  by (simp add: split_quoted_def split_init_at split_result_def Let_def)

lemma limited_argv:
  "snd (limited n f argv as) = argv @ take (n - length argv) (map (take (MAX_ARG_LEN - 1)) as)"
proof (induction n f argv as rule: limited.induct)
  case (2 n f argv a as)
  show ?case
  proof (cases "length argv < n")
    case True
    then have "n - length argv = Suc (n - Suc (length argv))" by simp
    with 2 True show ?thesis by simp
  qed (use 2 in simp)
qed simp

lemma limited_flags:
  "fst (limited n f argv as) =
     f OR (if list_all (\<lambda>a. length a < MAX_ARG_LEN) as then 0 else SPLIT_TRUNC)
       OR (if length argv + length as \<le> n \<or> as = [] then 0 else SPLIT_DROP)"
proof (induction n f argv as rule: limited.induct)
  case (2 n f argv a as)
  then show ?case
    by (cases "as = []") (auto simp: trunc_flag_def or.assoc or.left_commute or.commute [of SPLIT_DROP])
qed simp

section \<open>Quoting\<close>

definition dq_escape :: "string \<Rightarrow> string" where
  "dq_escape a = concat (map (\<lambda>c. if is_dq_escapable c then [BS, c] else [c]) a)"

definition dq_quote :: "string \<Rightarrow> string" where
  "dq_quote a = [DQ] @ dq_escape a @ [DQ]"

definition quoted_line :: "string list \<Rightarrow> string" where
  "quoted_line as = concat (map (\<lambda>a. dq_quote a @ '' '') as)"

lemma lex_quote_escape: "lex_quote DQ a (dq_escape cs @ DQ # r) = lex_arg (a @ cs) r"
proof (induction cs arbitrary: a)
  case (Cons c cs)
  show ?case
  proof (cases "is_dq_escapable c")
    case True
    then have "c \<noteq> NL" by (auto simp: is_dq_escapable_def)
    with True Cons show ?thesis by (simp add: dq_escape_def)
  next
    case False
    then have "c \<noteq> BS" "c \<noteq> DQ" by (auto simp: is_dq_escapable_def)
    with False Cons show ?thesis by (simp add: dq_escape_def)
  qed
qed (simp add: dq_escape_def)

lemma lex_quoted_line: "lex_delim (quoted_line as) = (ERR_OK, as)"
proof (induction as)
  case (Cons a as)
  have "lex_delim (quoted_line (a # as)) = lex_quote DQ [] (dq_escape a @ DQ # '' '' @ quoted_line as)"
    by (simp add: quoted_line_def dq_quote_def is_delim_def)
  also have "\<dots> = lex_arg a ('' '' @ quoted_line as)" by (simp add: lex_quote_escape)
  also have "\<dots> = (ERR_OK, a # as)" using Cons by (simp add: is_delim_def add_arg_def)
  finally show ?case .
qed (simp add: quoted_line_def)

section \<open>Bounds of the argument vector\<close>

definition split_inv :: "nat \<Rightarrow> string list \<Rightarrow> spl \<Rightarrow> bool" where
  "split_inv n argv s \<longleftrightarrow>
     (\<exists>new. sp_argv s = argv @ new \<and> (new = [] \<or> length argv + length new \<le> n) \<and>
        list_all (\<lambda>a. length a < MAX_ARG_LEN) new) \<and> length (sp_buf s) < MAX_ARG_LEN"

lemma split_inv_save [simp]: "split_inv n argv s \<Longrightarrow> split_inv n argv (save c s)"
  by (auto simp: split_inv_def save_def MAX_ARG_LEN_def)

lemma split_inv_fold_save: "split_inv n argv s \<Longrightarrow> split_inv n argv (fold save cs s)"
  by (induction cs arbitrary: s) simp_all

lemma split_inv_frame [simp]:
  "split_inv n argv (s\<lparr>sp_in := i\<rparr>) = split_inv n argv s"
  "split_inv n argv (s\<lparr>sp_state := st\<rparr>) = split_inv n argv s"
  "split_inv n argv (s\<lparr>sp_qc := q\<rparr>) = split_inv n argv s"
  "split_inv n argv (s\<lparr>sp_err := e\<rparr>) = split_inv n argv s"
  "split_inv n argv (adv s) = split_inv n argv s"
  by (simp_all add: split_inv_def)

lemma split_inv_push:
  assumes "split_inv n argv s" shows "split_inv n argv (push k n s)"
proof -
  from assms obtain new where new: "sp_argv s = argv @ new" "new = [] \<or> length argv + length new \<le> n"
    "list_all (\<lambda>a. length a < MAX_ARG_LEN) new" "length (sp_buf s) < MAX_ARG_LEN"
    by (auto simp: split_inv_def)
  then have "\<exists>new'. argv @ new @ [sp_buf s] = argv @ new' \<and>
      (length (sp_argv s) < n \<longrightarrow> length argv + length new' \<le> n) \<and>
      list_all (\<lambda>a. length a < MAX_ARG_LEN) new'"
    by (intro exI [of _ "new @ [sp_buf s]"]) auto
  with new show ?thesis
    by (auto simp: split_inv_def push_def Let_def MAX_ARG_LEN_def)
qed

lemma split_inv_step: "split_inv n argv s \<Longrightarrow> split_inv n argv (split_step k n s)"
  by (cases "sp_state s")
    (simp_all add: split_step_def step_delim_def step_quote_def step_arg_def quote_run_def Let_def
      split_inv_fold_save split_inv_push)

lemma split_inv_loop: "split_inv n argv s \<Longrightarrow> split_inv n argv (split_loop k n s)"
proof (induction k n s rule: split_loop.induct)
  case (1 k n s)
  then show ?case
    by (subst split_loop.simps) (simp add: Let_def split_inv_step)
qed

section \<open>Properties\<close>

text \<open>
  C23: refinement.  As long as memory lasts, \<^verbatim>\<open>split_quoted\<close> computes the documented grammar
  and then applies its two limits: it returns -1 exactly on a lexical error, it stores the first
  free slots' worth of arguments, each cut to 511 characters, and on success the warning flags say
  precisely whether an argument was cut and whether one was dropped.
\<close>

theorem split_quoted_grammar:
  "split_quoted mem_ok s argv n =
     (let (e, args) = lex_delim s in
      (if e \<noteq> ERR_OK then -1
       else int ((if list_all (\<lambda>a. length a < MAX_ARG_LEN) args then 0 else SPLIT_TRUNC) OR
                 (if length argv + length args \<le> n \<or> args = [] then 0 else SPLIT_DROP)),
       argv @ take (n - length argv) (map (take (MAX_ARG_LEN - 1)) args)))"
  by (cases "lex_delim s") (simp add: split_quoted_refines split_spec_def limited_argv limited_flags)

text \<open>
  C24: round trip of quoting.  Any arguments (blanks, quotes, backslashes, newlines, empty strings
  included) that fit the vector and the argument buffer, each written between double quotes with
  the four escapable characters escaped, are split back into exactly those arguments with no
  warning.
\<close>

theorem split_quoted_roundtrip:
  assumes "length argv + length args \<le> n" and "list_all (\<lambda>a. length a < MAX_ARG_LEN) args"
  shows "split_quoted mem_ok (quoted_line args) argv n = (0, argv @ args)"
proof -
  have "map (take (MAX_ARG_LEN - 1)) args = args"
    using assms(2) by (auto simp: list_all_iff MAX_ARG_LEN_def intro!: map_idI)
  then show ?thesis using assms
    by (simp add: split_quoted_refines split_spec_def limited_argv limited_flags lex_quoted_line)
qed

theorem split_quoted_roundtrip_witness:
  "split_quoted mem_ok (quoted_line [''a $b'', [], [BS, DQ, NL]]) [''sz''] 32
     = (0, [''sz'', ''a $b'', [], [BS, DQ, NL]])"
  using split_quoted_roundtrip [of "[''sz'']" "[''a $b'', [], [BS, DQ, NL]]" 32]
  by (simp add: MAX_ARG_LEN_def)

text \<open>
  Memory safety of the argument vector.  Whatever the input and whenever \<^verbatim>\<open>strdup\<close>
  fails, the arguments already in the vector are kept, no slot at or beyond \<^verbatim>\<open>argv_sz\<close> is
  written, and every stored argument fits \<^verbatim>\<open>arg_buff\<close> with its terminator.
\<close>

theorem split_quoted_bounds:
  "\<exists>new. snd (split_quoted k s argv n) = argv @ new \<and> length new \<le> n - length argv \<and>
     list_all (\<lambda>a. length a < MAX_ARG_LEN) new"
proof -
  have "split_inv n argv (split_init s argv)"
    by (simp add: split_inv_def split_init_def MAX_ARG_LEN_def)
  then have "split_inv n argv (split_loop k n (split_init s argv))" by (rule split_inv_loop)
  then show ?thesis by (auto simp: split_inv_def split_quoted_def Let_def)
qed

text \<open>
  The ten examples of the documentation of \<^verbatim>\<open>split_quoted\<close> in \<^verbatim>\<open>split.h\<close>.
\<close>

lemma split_quoted_examples:
  "map (\<lambda>s. split_quoted mem_ok s [] 8)
     [ ''a b c d'',
       [SQ] @ ''a  b'' @ [SQ] @ '' c   d'',
       [SQ] @ ''a '' @ [DQ] @ ''b'' @ [DQ, SQ] @ '' c d'',
       [DQ] @ ''a '' @ [SQ] @ ''b'' @ [SQ, DQ] @ '' c d'',
       ''a'' @ [DQ] @ ''b c'' @ [DQ] @ ''  d'',
       ''a'' @ [BS] @ '' b c d'',
       [BS] @ ''a'' @ [BS] @ ''b c d'',
       [BS] @ ''a'' @ [BS, BS] @ ''b '' @ [BS, BS] @ '' c d'',
       [DQ] @ ''a'' @ [BS] @ ''$'' @ [BS] @ ''b'' @ [DQ] @ '' c d'',
       [DQ, BS] @ ''a'' @ [BS, CHR 0x60, BS, DQ, BS] @ ''b'' @ [DQ] @ '' c d'' ]
   = [ (0, [''a'', ''b'', ''c'', ''d'']),
       (0, [''a  b'', ''c'', ''d'']),
       (0, [''a '' @ [DQ] @ ''b'' @ [DQ], ''c'', ''d'']),
       (0, [''a '' @ [SQ] @ ''b'' @ [SQ], ''c'', ''d'']),
       (0, [''ab c'', ''d'']),
       (0, [''a b'', ''c'', ''d'']),
       (0, [''ab'', ''c'', ''d'']),
       (0, [''a'' @ [BS] @ ''b'', [BS], ''c'', ''d'']),
       (0, [''a$'' @ [BS] @ ''b'', ''c'', ''d'']),
       (0, [[BS] @ ''a'' @ [CHR 0x60, DQ, BS] @ ''b'', ''c'', ''d'']) ]"
  by (simp add: split_quoted_refines split_spec_def limited_argv limited_flags is_delim_def
      is_dq_escapable_def add_arg_def trunc_flag_def MAX_ARG_LEN_def)

end
