(* ===== verification/Baud.thy ===== *)
theory Baud
  imports Prelude
begin

text \<open>
  Baud rates, \<^verbatim>\<open>src/ppcom/src/term.cpp\<close>: the table of standard speeds and termios codes,
  the up and down searches, \<^verbatim>\<open>Bcode\<close>, \<^verbatim>\<open>Bspeed\<close>, \<^verbatim>\<open>term_baud_ok\<close>, \<^verbatim>\<open>term_baud_std\<close>; and the
  wrappers of \<^verbatim>\<open>src/ppcom/src/ppcom.cpp\<close> (\<^verbatim>\<open>baud_up\<close>, \<^verbatim>\<open>baud_down\<close>, \<^verbatim>\<open>set_tty_write_sz\<close>).
  The codes \<^verbatim>\<open>B0\<close> .. \<^verbatim>\<open>B4000000\<close> are those of the Linux \<^verbatim>\<open>termios.h\<close>, where every
  \<^verbatim>\<open>#ifdef Bxxx\<close> of the table holds; \<open>high\<close> is the build option \<^verbatim>\<open>HIGH_BAUD\<close>.
\<close>

type_synonym speed_t = "32 word"

definition BNONE :: speed_t where "BNONE = 0xFFFFFFFF"
definition B0 :: speed_t where "B0 = 0"

definition baud_table_std :: "(int \<times> speed_t) list" where
  "baud_table_std =
     [ (0, B0), (50, 0x1), (75, 0x2), (110, 0x3), (134, 0x4), (150, 0x5), (200, 0x6), (300, 0x7),
       (600, 0x8), (1200, 0x9), (1800, 0xA), (2400, 0xB), (4800, 0xC), (9600, 0xD),
       (19200, 0xE), (38400, 0xF), (57600, 0x1001), (115200, 0x1002) ]"

definition baud_table_high :: "(int \<times> speed_t) list" where
  "baud_table_high =
     [ (230400, 0x1003), (460800, 0x1004), (500000, 0x1005), (576000, 0x1006), (921600, 0x1007),
       (1000000, 0x1008), (1152000, 0x1009), (1500000, 0x100A), (2000000, 0x100B),
       (2500000, 0x100C), (3000000, 0x100D), (3500000, 0x100E), (4000000, 0x100F) ]"

definition baud_table :: "bool \<Rightarrow> (int \<times> speed_t) list" where
  "baud_table high = baud_table_std @ (if high then baud_table_high else [])"

fun baud_up_loop :: "(int \<times> speed_t) list \<Rightarrow> int \<Rightarrow> int" where
  "baud_up_loop [] baud = baud"
| "baud_up_loop ((speed, code) # t) baud = (if baud \<ge> speed then baud_up_loop t baud else speed)"

fun baud_down_loop :: "(int \<times> speed_t) list \<Rightarrow> int \<Rightarrow> int" where
  "baud_down_loop [] baud = baud"
| "baud_down_loop ((speed, code) # t) baud = (if baud \<le> speed then baud_down_loop t baud else speed)"

definition term_baud_up :: "bool \<Rightarrow> int \<Rightarrow> int" where
  "term_baud_up high baud = baud_up_loop (baud_table high) baud"

definition term_baud_down :: "bool \<Rightarrow> int \<Rightarrow> int" where
  "term_baud_down high baud = baud_down_loop (rev (baud_table high)) baud"

fun bcode_loop :: "(int \<times> speed_t) list \<Rightarrow> int \<Rightarrow> speed_t" where
  "bcode_loop [] speed = BNONE"
| "bcode_loop ((sp, code) # t) speed = (if sp = speed then code else bcode_loop t speed)"

fun bspeed_loop :: "(int \<times> speed_t) list \<Rightarrow> speed_t \<Rightarrow> int" where
  "bspeed_loop [] code = -1"
| "bspeed_loop ((sp, cd) # t) code = (if cd = code then sp else bspeed_loop t code)"

definition Bcode :: "bool \<Rightarrow> int \<Rightarrow> speed_t" where
  "Bcode high speed = bcode_loop (baud_table high) speed"

definition Bspeed :: "bool \<Rightarrow> speed_t \<Rightarrow> int" where
  "Bspeed high code = bspeed_loop (baud_table high) code"

text \<open>\<open>custom\<close> is what \<^verbatim>\<open>use_custom_baud()\<close> returns.\<close>

definition term_baud_ok :: "bool \<Rightarrow> bool \<Rightarrow> int \<Rightarrow> bool" where
  "term_baud_ok custom high baud =
     (if custom then baud \<ge> 0 else Bcode high baud \<noteq> BNONE)"

definition term_baud_std :: "bool \<Rightarrow> int \<Rightarrow> bool" where
  "term_baud_std high baud = (Bcode high baud \<noteq> BNONE)"

definition baud_up :: "bool \<Rightarrow> int \<Rightarrow> int" where
  "baud_up high baud = term_baud_up high baud"

definition baud_down :: "bool \<Rightarrow> int \<Rightarrow> int" where
  "baud_down high baud = (let nb = term_baud_down high baud in if nb = 0 then baud else nb)"

definition TTY_WRITE_SZ_DIV :: int where "TTY_WRITE_SZ_DIV = 10"
definition TTY_WRITE_SZ_MIN :: int where "TTY_WRITE_SZ_MIN = 8"

text \<open>C division truncates towards zero (a speed that cannot be decoded is \<open>-1\<close>).\<close>

definition set_tty_write_sz :: "int \<Rightarrow> int" where
  "set_tty_write_sz baud =
     (let q = (if baud < 0 then - ((- baud) div TTY_WRITE_SZ_DIV) else baud div TTY_WRITE_SZ_DIV) in
      if q < TTY_WRITE_SZ_MIN then TTY_WRITE_SZ_MIN else q)"

section \<open>Lemmas\<close>

abbreviation speeds :: "bool \<Rightarrow> int list" where
  "speeds high \<equiv> map fst (baud_table high)"

lemma baud_table_sorted: "sorted_wrt (<) (speeds high)"
  by (cases high) (simp_all add: baud_table_def baud_table_std_def baud_table_high_def)

lemma speeds_nonneg: "s \<in> set (speeds high) \<Longrightarrow> 0 \<le> s"
  by (cases high) (auto simp: baud_table_def baud_table_std_def baud_table_high_def)

lemma baud_table_codes: "distinct (map snd (baud_table high))" "BNONE \<notin> set (map snd (baud_table high))"
  by (cases high; simp add: baud_table_def baud_table_std_def baud_table_high_def B0_def BNONE_def)+

lemma baud_up_loop_Min:
  "sorted_wrt (<) (map fst t) \<Longrightarrow>
     baud_up_loop t b = (if {s \<in> set (map fst t). b < s} = {} then b
                         else Min {s \<in> set (map fst t). b < s})"
proof (induction t b rule: baud_up_loop.induct)
  case (2 speed code t b)
  show ?case
  proof (cases "b \<ge> speed")
    case True
    then have "{s \<in> set (map fst ((speed, code) # t)). b < s} = {s \<in> set (map fst t). b < s}" by auto
    with 2 True show ?thesis by simp
  next
    case False
    have "Min {s \<in> set (map fst ((speed, code) # t)). b < s} = speed"
      using 2(2) False by (intro Min_eqI) (auto intro: less_imp_le)
    with False show ?thesis by auto
  qed
qed simp

lemma baud_down_loop_Max:
  "sorted_wrt (<) (rev (map fst t)) \<Longrightarrow>
     baud_down_loop t b = (if {s \<in> set (map fst t). s < b} = {} then b
                           else Max {s \<in> set (map fst t). s < b})"
proof (induction t b rule: baud_down_loop.induct)
  case (2 speed code t b)
  show ?case
  proof (cases "b \<le> speed")
    case True
    then have "{s \<in> set (map fst ((speed, code) # t)). s < b} = {s \<in> set (map fst t). s < b}" by auto
    with 2 True show ?thesis by (simp add: sorted_wrt_append)
  next
    case False
    have "Max {s \<in> set (map fst ((speed, code) # t)). s < b} = speed"
      using 2(2) False by (intro Max_eqI) (auto simp: sorted_wrt_append intro: less_imp_le)
    with False show ?thesis by auto
  qed
qed simp

lemma term_baud_up_Min:
  "term_baud_up high b = (if {s \<in> set (speeds high). b < s} = {} then b
                          else Min {s \<in> set (speeds high). b < s})"
  unfolding term_baud_up_def by (rule baud_up_loop_Min [OF baud_table_sorted])

lemma term_baud_down_Max:
  "term_baud_down high b = (if {s \<in> set (speeds high). s < b} = {} then b
                            else Max {s \<in> set (speeds high). s < b})"
  using baud_down_loop_Max [of "rev (baud_table high)" b] baud_table_sorted [of high]
  by (simp add: term_baud_down_def rev_map)

lemma bcode_loop_BNONE:
  "BNONE \<notin> set (map snd t) \<Longrightarrow> bcode_loop t s = BNONE \<longleftrightarrow> s \<notin> set (map fst t)"
  by (induction t s rule: bcode_loop.induct) auto

lemma Bcode_BNONE: "Bcode high s = BNONE \<longleftrightarrow> s \<notin> set (speeds high)"
  unfolding Bcode_def by (rule bcode_loop_BNONE [OF baud_table_codes(2)])

lemma bcode_loop_in: "s \<in> set (map fst t) \<Longrightarrow> (s, bcode_loop t s) \<in> set t"
  by (induction t s rule: bcode_loop.induct) auto

lemma bspeed_loop_in: "distinct (map snd t) \<Longrightarrow> (s, c) \<in> set t \<Longrightarrow> bspeed_loop t c = s"
proof (induction t c rule: bspeed_loop.induct)
  case (2 sp cd t code)
  then show ?case by (auto simp: image_iff) 
qed simp

lemma Bspeed_Bcode: "s \<in> set (speeds high) \<Longrightarrow> Bspeed high (Bcode high s) = s"
  unfolding Bspeed_def Bcode_def
  by (rule bspeed_loop_in [OF baud_table_codes(1) bcode_loop_in])

lemma Bcode_in_table: "s \<in> set (speeds high) \<Longrightarrow> Bcode high s \<in> set (map snd (baud_table high))"
  using bcode_loop_in [of s "baud_table high"] by (force simp: Bcode_def)

text \<open>Stepping down undoes a step up from a table speed.\<close>

lemma baud_down_up:
  "list_all (\<lambda>s. term_baud_up high s = s \<or> term_baud_down high (term_baud_up high s) = s) (speeds high)"
  by (cases high) (simp_all add: term_baud_up_def term_baud_down_def baud_table_def
      baud_table_std_def baud_table_high_def)

section \<open>Properties\<close>

text \<open>
  "baud up" and "baud down" move to the adjacent standard speed: the least table speed above
  the current rate (the rate itself at the top) and the greatest one below it (the rate itself when
  there is none), also from a custom rate between two standard ones; and the down command never
  reaches speed 0, which would hang up the line.
\<close>

theorem baud_steps:
  "baud_up high b =
     (if {s \<in> set (speeds high). b < s} = {} then b else Min {s \<in> set (speeds high). b < s}) \<and>
   term_baud_down high b =
     (if {s \<in> set (speeds high). s < b} = {} then b else Max {s \<in> set (speeds high). s < b}) \<and>
   (baud_down high b = 0 \<longleftrightarrow> b = 0)"
proof (intro conjI)
  show "baud_down high b = 0 \<longleftrightarrow> b = 0"
  proof -
    have "term_baud_down high 0 = 0"
      by (cases high) (simp_all add: term_baud_down_def baud_table_def baud_table_std_def baud_table_high_def)
    then show ?thesis by (auto simp: baud_down_def Let_def)
  qed
qed (simp_all only: baud_up_def term_baud_up_Min term_baud_down_Max)

text \<open>
  The code table is a bijection between the standard speeds and their termios codes:
  decoding the code of a standard speed gives the speed back, exactly the standard speeds have a
  code, and without custom baud rates these are the only rates accepted.
\<close>

theorem baud_codes:
  "(Bcode high s \<noteq> BNONE \<longleftrightarrow> s \<in> set (speeds high)) \<and>
   map (\<lambda>s. Bspeed high (Bcode high s)) (speeds high) = speeds high \<and>
   (term_baud_ok False high s \<longleftrightarrow> s \<in> set (speeds high))"
  by (auto simp: Bcode_BNONE term_baud_ok_def Bspeed_Bcode simp del: map_map set_map intro!: map_idI)

end
