(* ===== verification/Termios.thy ===== *)
theory Termios
  imports Baud
begin

text \<open>
  The \<^verbatim>\<open>struct termios\<close> of the C library on Linux, its flag constants and the library
  functions the source calls on it (\<^verbatim>\<open>cfmakeraw\<close>, \<^verbatim>\<open>cfsetospeed\<close>, \<^verbatim>\<open>cfgetospeed\<close>,
  \<^verbatim>\<open>cfsetispeed\<close>, \<^verbatim>\<open>cfgetispeed\<close>); and the custom baud rate support of
  \<^verbatim>\<open>src/ppcom/src/termios2.cpp\<close>, \<^verbatim>\<open>src/ppcom/src/custbaud.cpp\<close> and
  \<^verbatim>\<open>src/ppcom/include/termbits2.h\<close>: \<^verbatim>\<open>struct termios2\<close>, the conversions done by
  \<^verbatim>\<open>tc2setattr\<close> and \<^verbatim>\<open>tc2getattr\<close>, and the \<^verbatim>\<open>cf2\<close> speed functions.
\<close>

section \<open>struct termios\<close>

record termios =
  c_iflag :: flags
  c_oflag :: flags
  c_cflag :: flags
  c_lflag :: flags
  c_line :: "8 word"
  c_cc :: "8 word list"
  c_ispeed :: speed_t
  c_ospeed :: speed_t

definition NCCS :: nat where "NCCS = 32"
definition VTIME :: nat where "VTIME = 5"
definition VMIN :: nat where "VMIN = 6"

definition IGNBRK :: flags where "IGNBRK = push_bit 0 1"
definition BRKINT :: flags where "BRKINT = push_bit 1 1"
definition PARMRK :: flags where "PARMRK = push_bit 3 1"
definition ISTRIP :: flags where "ISTRIP = push_bit 5 1"
definition INLCR :: flags where "INLCR = push_bit 6 1"
definition IGNCR :: flags where "IGNCR = push_bit 7 1"
definition ICRNL :: flags where "ICRNL = push_bit 8 1"
definition IXON :: flags where "IXON = push_bit 10 1"
definition IXANY :: flags where "IXANY = push_bit 11 1"
definition IXOFF :: flags where "IXOFF = push_bit 12 1"
definition IBAUD0 :: flags where "IBAUD0 = push_bit 31 1"

definition OPOST :: flags where "OPOST = push_bit 0 1"

definition CS5 :: flags where "CS5 = 0"
definition CS6 :: flags where "CS6 = push_bit 4 1"
definition CS7 :: flags where "CS7 = push_bit 5 1"
definition CSIZE :: flags where "CSIZE = CS6 OR CS7"
definition CS8 :: flags where "CS8 = CS6 OR CS7"
definition CSTOPB :: flags where "CSTOPB = push_bit 6 1"
definition PARENB :: flags where "PARENB = push_bit 8 1"
definition PARODD :: flags where "PARODD = push_bit 9 1"
definition HUPCL :: flags where "HUPCL = push_bit 10 1"
definition CLOCAL :: flags where "CLOCAL = push_bit 11 1"
definition CMSPAR :: flags where "CMSPAR = push_bit 30 1"
definition CRTSCTS :: flags where "CRTSCTS = push_bit 31 1"
definition CBAUDEX :: flags where "CBAUDEX = push_bit 12 1"
definition CBAUD :: flags where "CBAUD = CBAUDEX OR mask 4"
definition BOTHER :: flags where "BOTHER = CBAUDEX"
definition IBSHIFT :: nat where "IBSHIFT = 16"
definition B57600 :: speed_t where "B57600 = 0x1001"
definition MAX_BAUD :: speed_t where "MAX_BAUD = 0x100F"

definition ISIG :: flags where "ISIG = push_bit 0 1"
definition ICANON :: flags where "ICANON = push_bit 1 1"
definition ECHO :: flags where "ECHO = push_bit 3 1"
definition ECHONL :: flags where "ECHONL = push_bit 6 1"
definition IEXTEN :: flags where "IEXTEN = push_bit 15 1"

text \<open>Tests and bits of the constants.\<close>

lemma flag_consts [flag_bits]:
  "(x AND IXON) = 0 \<longleftrightarrow> \<not> bit x 10" "(x AND IXANY) = 0 \<longleftrightarrow> \<not> bit x 11"
  "(x AND IXOFF) = 0 \<longleftrightarrow> \<not> bit x 12" "(x AND CSTOPB) = 0 \<longleftrightarrow> \<not> bit x 6"
  "(x AND PARENB) = 0 \<longleftrightarrow> \<not> bit x 8" "(x AND PARODD) = 0 \<longleftrightarrow> \<not> bit x 9"
  "(x AND HUPCL) = 0 \<longleftrightarrow> \<not> bit x 10" "(x AND CLOCAL) = 0 \<longleftrightarrow> \<not> bit x 11"
  "(x AND CMSPAR) = 0 \<longleftrightarrow> \<not> bit x 30" "(x AND CRTSCTS) = 0 \<longleftrightarrow> \<not> bit x 31"
  by (simp_all only: IXON_def IXANY_def IXOFF_def CSTOPB_def PARENB_def PARODD_def HUPCL_def
      CLOCAL_def CMSPAR_def CRTSCTS_def and_single_bit_eq_0)

lemma flag_const_bits [flag_bits]:
  "bit IXON n \<longleftrightarrow> n = 10" "bit IXANY n \<longleftrightarrow> n = 11" "bit IXOFF n \<longleftrightarrow> n = 12"
  "bit IBAUD0 n \<longleftrightarrow> n = 31" "bit CS5 n \<longleftrightarrow> False" "bit CS6 n \<longleftrightarrow> n = 4" "bit CS7 n \<longleftrightarrow> n = 5"
  "bit CSTOPB n \<longleftrightarrow> n = 6" "bit PARENB n \<longleftrightarrow> n = 8" "bit PARODD n \<longleftrightarrow> n = 9"
  "bit HUPCL n \<longleftrightarrow> n = 10" "bit CLOCAL n \<longleftrightarrow> n = 11" "bit CMSPAR n \<longleftrightarrow> n = 30"
  "bit CRTSCTS n \<longleftrightarrow> n = 31" "bit CBAUDEX n \<longleftrightarrow> n = 12"
  by (simp_all only: IXON_def IXANY_def IXOFF_def IBAUD0_def CS5_def CS6_def CS7_def CSTOPB_def
      PARENB_def PARODD_def HUPCL_def CLOCAL_def CMSPAR_def CRTSCTS_def CBAUDEX_def bit_single_bit
      bit_0_eq bot_apply) auto

lemma flag_group_bits [flag_bits]:
  "bit CSIZE n \<longleftrightarrow> n = 4 \<or> n = 5" "bit CS8 n \<longleftrightarrow> n = 4 \<or> n = 5"
  "bit CBAUD n \<longleftrightarrow> n = 12 \<or> n < 4" "bit BOTHER n \<longleftrightarrow> n = 12"
  by (auto simp: CSIZE_def CS8_def CBAUD_def BOTHER_def bit_or_iff flag_bits bit_mask_iff)

lemma flag_not_bit [flag_bits]: "bit (NOT (x :: 32 word)) n \<longleftrightarrow> n < 32 \<and> \<not> bit x n"
  by (simp add: bit_not_iff)

lemmas flag_ops = bit_and_iff bit_or_iff flag_bits

section \<open>Library functions on termios\<close>

definition cfmakeraw :: "termios \<Rightarrow> termios" where
  "cfmakeraw t = t\<lparr>
     c_iflag := c_iflag t AND
       NOT (IGNBRK OR BRKINT OR PARMRK OR ISTRIP OR INLCR OR IGNCR OR ICRNL OR IXON),
     c_oflag := c_oflag t AND NOT OPOST,
     c_lflag := c_lflag t AND NOT (ECHO OR ECHONL OR ICANON OR ISIG OR IEXTEN),
     c_cflag := (c_cflag t AND NOT (CSIZE OR PARENB)) OR CS8,
     c_cc := (c_cc t)[VMIN := 1, VTIME := 0]\<rparr>"

text \<open>\<open>None\<close> is the error return (\<^verbatim>\<open>errno = EINVAL\<close>).\<close>

definition speed_valid :: "speed_t \<Rightarrow> bool" where
  "speed_valid speed \<longleftrightarrow> \<not> ((speed AND NOT CBAUD) \<noteq> 0 \<and> (speed < B57600 \<or> speed > MAX_BAUD))"

definition cfsetospeed :: "termios \<Rightarrow> speed_t \<Rightarrow> termios option" where
  "cfsetospeed t speed =
     (if speed_valid speed
      then Some (t\<lparr>c_ospeed := speed, c_cflag := (c_cflag t AND NOT (CBAUD OR CBAUDEX)) OR speed\<rparr>)
      else None)"

definition cfgetospeed :: "termios \<Rightarrow> speed_t" where
  "cfgetospeed t = c_cflag t AND (CBAUD OR CBAUDEX)"

definition cfsetispeed :: "termios \<Rightarrow> speed_t \<Rightarrow> termios option" where
  "cfsetispeed t speed =
     (if \<not> speed_valid speed then None
      else if speed = 0 then Some (t\<lparr>c_ispeed := speed, c_iflag := c_iflag t OR IBAUD0\<rparr>)
      else Some (t\<lparr>c_ispeed := speed, c_iflag := c_iflag t AND NOT IBAUD0,
                   c_cflag := (c_cflag t AND NOT (CBAUD OR CBAUDEX)) OR speed\<rparr>))"

definition cfgetispeed :: "termios \<Rightarrow> speed_t" where
  "cfgetispeed t = (if (c_iflag t AND IBAUD0) \<noteq> 0 then 0 else c_cflag t AND (CBAUD OR CBAUDEX))"

section \<open>Custom baud rates (termios2)\<close>

text \<open>
  \<^verbatim>\<open>use_custom_baud()\<close> on Linux: always 0 when the support is not compiled in, otherwise 0
  exactly when the environment variable \<^verbatim>\<open>NO_CUSTOM_BAUD\<close> is set.
\<close>

definition use_custom_baud :: "bool \<Rightarrow> bool \<Rightarrow> bool" where
  "use_custom_baud compiled env_no_custom_baud =
     (if compiled then (if env_no_custom_baud then False else True) else False)"

definition K_NCCS :: nat where "K_NCCS = 19"

record termios2 =
  k_iflag :: flags
  k_oflag :: flags
  k_cflag :: flags
  k_lflag :: flags
  k_line :: "8 word"
  k_cc :: "8 word list"
  k_ispeed :: speed_t
  k_ospeed :: speed_t

text \<open>The structure \<^verbatim>\<open>tc2setattr\<close> passes to the kernel.\<close>

definition to_termios2 :: "termios \<Rightarrow> termios2" where
  "to_termios2 t =
     \<lparr>k_iflag = c_iflag t AND NOT IBAUD0,
      k_oflag = c_oflag t,
      k_cflag = c_cflag t,
      k_lflag = c_lflag t,
      k_line = c_line t,
      k_cc = take K_NCCS (c_cc t),
      k_ispeed = c_ispeed t,
      k_ospeed = c_ospeed t\<rparr>"

text \<open>What \<^verbatim>\<open>tc2getattr\<close> makes of the kernel's structure (\<^verbatim>\<open>_POSIX_VDISABLE\<close> is 0).\<close>

definition of_termios2 :: "termios2 \<Rightarrow> termios" where
  "of_termios2 k =
     \<lparr>c_iflag = k_iflag k,
      c_oflag = k_oflag k,
      c_cflag = k_cflag k,
      c_lflag = k_lflag k,
      c_line = k_line k,
      c_cc = take K_NCCS (k_cc k) @ replicate (NCCS - K_NCCS) 0,
      c_ispeed = k_ispeed k,
      c_ospeed = k_ospeed k\<rparr>"

definition cf2setispeed :: "bool \<Rightarrow> termios \<Rightarrow> speed_t \<Rightarrow> termios option" where
  "cf2setispeed custom t speed =
     (if \<not> custom then cfsetispeed t speed
      else if (speed AND NOT CBAUD) \<noteq> 0 \<and> (speed < B57600 \<or> speed > MAX_BAUD) then None
      else Some (t\<lparr>c_ispeed := speed,
                   c_cflag := (c_cflag t AND NOT (push_bit IBSHIFT (CBAUD OR CBAUDEX)))
                                OR push_bit IBSHIFT speed\<rparr>))"

definition cf2getispeed :: "bool \<Rightarrow> termios \<Rightarrow> speed_t" where
  "cf2getispeed custom t =
     (if \<not> custom then cfgetispeed t
      else drop_bit IBSHIFT (c_cflag t) AND (CBAUD OR CBAUDEX))"

definition cf2setospeed_custom :: "bool \<Rightarrow> termios \<Rightarrow> int \<Rightarrow> termios option" where
  "cf2setospeed_custom custom t speed =
     (if \<not> custom then None
      else if speed \<le> 0 then None
      else Some (t\<lparr>c_cflag := (c_cflag t AND NOT (CBAUD OR CBAUDEX)) OR BOTHER,
                   c_ospeed := word_of_int speed\<rparr>))"

definition cf2setispeed_custom :: "bool \<Rightarrow> termios \<Rightarrow> int \<Rightarrow> termios option" where
  "cf2setispeed_custom custom t speed =
     (if \<not> custom then None
      else if speed < 0 then None
      else if speed = 0 then
        Some (t\<lparr>c_cflag := (c_cflag t AND NOT (push_bit IBSHIFT (CBAUD OR CBAUDEX)))
                             OR push_bit IBSHIFT B0\<rparr>)
      else
        Some (t\<lparr>c_cflag := (c_cflag t AND NOT (push_bit IBSHIFT (CBAUD OR CBAUDEX)))
                             OR push_bit IBSHIFT BOTHER,
                c_ispeed := word_of_int speed\<rparr>))"

text \<open>
  The macros of \<^verbatim>\<open>termios2.h\<close>; without the support, the stubs of \<^verbatim>\<open>custbaud.cpp\<close>
  return \<open>-1\<close>.
\<close>

definition cfgetospeed_custom :: "bool \<Rightarrow> termios \<Rightarrow> int" where
  "cfgetospeed_custom compiled t = (if compiled then sint (c_ospeed t) else -1)"

definition cfgetispeed_custom :: "bool \<Rightarrow> termios \<Rightarrow> int" where
  "cfgetispeed_custom compiled t = (if compiled then sint (c_ispeed t) else -1)"

section \<open>Lemmas\<close>

lemma wire_cflag [simp]: "c_cflag (of_termios2 (to_termios2 t)) = c_cflag t"
  by (simp add: of_termios2_def to_termios2_def)

lemma wire_iflag [simp]: "c_iflag (of_termios2 (to_termios2 t)) = c_iflag t AND NOT IBAUD0"
  by (simp add: of_termios2_def to_termios2_def)

lemma wire_ospeed [simp]: "c_ospeed (of_termios2 (to_termios2 t)) = c_ospeed t"
  by (simp add: of_termios2_def to_termios2_def)

lemma to_of_termios2:
  "length (k_cc k) = K_NCCS \<Longrightarrow> \<not> bit (k_iflag k) 31 \<Longrightarrow> to_termios2 (of_termios2 k) = k"
proof -
  assume "length (k_cc k) = K_NCCS" and "\<not> bit (k_iflag k) 31"
  moreover have "k_iflag k AND NOT IBAUD0 = k_iflag k"
    by (rule bit_eqI) (use \<open>\<not> bit (k_iflag k) 31\<close> in \<open>auto simp: flag_ops dest: bit_imp_le_length\<close>)
  ultimately show ?thesis by (simp add: of_termios2_def to_termios2_def)
qed

text \<open>The speed field of \<^verbatim>\<open>c_cflag\<close> depends on five bits.\<close>

lemma cfgetospeed_cong:
  "(\<And>n. n = 12 \<or> n < 4 \<Longrightarrow> bit (c_cflag t) n = bit (c_cflag t') n) \<Longrightarrow> cfgetospeed t = cfgetospeed t'"
  unfolding cfgetospeed_def by (rule bit_eqI) (auto simp: flag_ops)

lemma bit_CBAUD_or: "bit (CBAUD OR CBAUDEX) n \<longleftrightarrow> n = 12 \<or> n < 4"
  by (auto simp: flag_ops)

lemma speed_codes_low:
  "c \<in> set (map snd (baud_table high)) \<Longrightarrow> c AND (CBAUD OR CBAUDEX) = c"
proof -
  have "CBAUD OR CBAUDEX = 0x100F" by (simp add: CBAUD_def CBAUDEX_def mask_numeral)
  then have "list_all (\<lambda>c. c AND (CBAUD OR CBAUDEX) = c) (map snd (baud_table high))"
    by (cases high) (simp_all add: baud_table_def baud_table_std_def baud_table_high_def B0_def)
  then show "c \<in> set (map snd (baud_table high)) \<Longrightarrow> ?thesis"
    by (auto simp: list_all_iff)
qed

lemma BOTHER_no_code: "bspeed_loop (baud_table high) BOTHER = -1"
  by (cases high) (simp_all add: baud_table_def baud_table_std_def baud_table_high_def B0_def
      BOTHER_def CBAUDEX_def)

end
