(* ===== verification/Settings.thy ===== *)
theory Settings
  imports Termios
begin

text \<open>
  The port settings encoded in a \<^verbatim>\<open>struct termios\<close>: the bodies of the
  \<^verbatim>\<open>term_set_*\<close> and \<^verbatim>\<open>term_get_*\<close> functions of \<^verbatim>\<open>src/ppcom/src/term.cpp\<close> on one
  structure, without the table of managed terminals (theory \<open>Term\<close>).  The locale \<open>setting\<close> is
  the contract of a set/get pair; every pair of the source is an interpretation of it.
\<close>

section \<open>Enumerations of term.h and the build configuration\<close>

datatype term_errno_e =
    TERM_EOK | TERM_ENOINIT | TERM_EFULL | TERM_ENOTFOUND | TERM_EEXISTS | TERM_EATEXIT
  | TERM_EISATTY | TERM_EFLUSH | TERM_EGETATTR | TERM_ESETATTR | TERM_EBAUD | TERM_ESETOSPEED
  | TERM_ESETISPEED | TERM_EGETSPEED | TERM_EPARITY | TERM_EDATABITS | TERM_ESTOPBITS | TERM_EFLOW
  | TERM_EDTRDOWN | TERM_EDTRUP | TERM_EMCTL | TERM_EDRAIN | TERM_EBREAK | TERM_ERTSDOWN
  | TERM_ERTSUP

datatype parity_e = P_NONE | P_EVEN | P_ODD | P_MARK | P_SPACE | P_ERROR
datatype flowcntrl_e = FC_NONE | FC_RTSCTS | FC_XONXOFF | FC_OTHER | FC_ERROR

text \<open>
  The preprocessor options, and the one environment variable the library reads.
  \<open>TTY_Q_SZ = 0\<close> means an unlimited output queue.
\<close>

record build =
  USE_CUSTOM_BAUD :: bool
  NO_CUSTOM_BAUD :: bool
  HIGH_BAUD :: bool
  USE_FLOCK :: bool
  NDEBUG :: bool
  TTY_Q_SZ :: nat

definition custom_on :: "build \<Rightarrow> bool" where
  "custom_on b = use_custom_baud (USE_CUSTOM_BAUD b) (NO_CUSTOM_BAUD b)"

section \<open>Setters and getters on one structure\<close>

definition set_baudrate_tio :: "build \<Rightarrow> int \<Rightarrow> termios \<Rightarrow> term_errno_e + termios" where
  "set_baudrate_tio b baudrate t =
     (let spd = Bcode (HIGH_BAUD b) baudrate;
          zero_ispeed = (\<lambda>tio. case cf2setispeed (custom_on b) tio B0 of None \<Rightarrow> tio | Some t' \<Rightarrow> t')
      in
      if spd \<noteq> BNONE then
        (case cfsetospeed t spd of
           None \<Rightarrow> Inl TERM_ESETOSPEED
         | Some tio \<Rightarrow> Inr (zero_ispeed tio))
      else if \<not> custom_on b then Inl TERM_EBAUD
      else
        (case cf2setospeed_custom (custom_on b) t baudrate of
           None \<Rightarrow> Inl TERM_ESETOSPEED
         | Some tio \<Rightarrow> Inr (zero_ispeed tio)))"

text \<open>The output speed; \<open>-1\<close> (with \<^verbatim>\<open>TERM_EGETSPEED\<close>) when it cannot be decoded.\<close>

definition get_baudrate_tio :: "build \<Rightarrow> termios \<Rightarrow> int" where
  "get_baudrate_tio b t =
     (let ospeed = Bspeed (HIGH_BAUD b) (cfgetospeed t) in
      if ospeed < 0 then
        (if \<not> custom_on b then ospeed else cfgetospeed_custom (USE_CUSTOM_BAUD b) t)
      else ospeed)"

definition get_ispeed_tio :: "build \<Rightarrow> termios \<Rightarrow> int" where
  "get_ispeed_tio b t =
     (let ispeed = Bspeed (HIGH_BAUD b) (cf2getispeed (custom_on b) t) in
      if custom_on b \<and> ispeed < 0 then cfgetispeed_custom (USE_CUSTOM_BAUD b) t else ispeed)"

definition upd_cflag :: "(flags \<Rightarrow> flags) \<Rightarrow> termios \<Rightarrow> termios" where
  "upd_cflag f t = t\<lparr>c_cflag := f (c_cflag t)\<rparr>"

definition upd_iflag :: "(flags \<Rightarrow> flags) \<Rightarrow> termios \<Rightarrow> termios" where
  "upd_iflag f t = t\<lparr>c_iflag := f (c_iflag t)\<rparr>"

fun set_parity_tio :: "parity_e \<Rightarrow> termios \<Rightarrow> term_errno_e + termios" where
  "set_parity_tio P_EVEN t = Inr (upd_cflag (\<lambda>f. (f AND NOT (PARODD OR CMSPAR)) OR PARENB) t)"
| "set_parity_tio P_ODD t = Inr (upd_cflag (\<lambda>f. (f AND NOT CMSPAR) OR (PARENB OR PARODD)) t)"
| "set_parity_tio P_MARK t = Inr (upd_cflag (\<lambda>f. f OR (PARENB OR PARODD OR CMSPAR)) t)"
| "set_parity_tio P_SPACE t = Inr (upd_cflag (\<lambda>f. (f AND NOT PARODD) OR (PARENB OR CMSPAR)) t)"
| "set_parity_tio P_NONE t = Inr (upd_cflag (\<lambda>f. f AND NOT (PARENB OR PARODD OR CMSPAR)) t)"
| "set_parity_tio P_ERROR t = Inl TERM_EPARITY"

definition get_parity_tio :: "termios \<Rightarrow> parity_e" where
  "get_parity_tio t =
     (let flg = c_cflag t in
      if (flg AND PARENB) = 0 then P_NONE
      else if (flg AND CMSPAR) \<noteq> 0 then (if (flg AND PARODD) \<noteq> 0 then P_MARK else P_SPACE)
      else (if (flg AND PARODD) \<noteq> 0 then P_ODD else P_EVEN))"

definition set_databits_tio :: "int \<Rightarrow> termios \<Rightarrow> term_errno_e + termios" where
  "set_databits_tio databits t =
     (if databits = 5 then Inr (upd_cflag (\<lambda>f. (f AND NOT CSIZE) OR CS5) t)
      else if databits = 6 then Inr (upd_cflag (\<lambda>f. (f AND NOT CSIZE) OR CS6) t)
      else if databits = 7 then Inr (upd_cflag (\<lambda>f. (f AND NOT CSIZE) OR CS7) t)
      else if databits = 8 then Inr (upd_cflag (\<lambda>f. (f AND NOT CSIZE) OR CS8) t)
      else Inl TERM_EDATABITS)"

definition get_databits_tio :: "termios \<Rightarrow> int" where
  "get_databits_tio t =
     (let flg = c_cflag t AND CSIZE in
      if flg = CS5 then 5 else if flg = CS6 then 6 else if flg = CS7 then 7 else 8)"

definition set_stopbits_tio :: "int \<Rightarrow> termios \<Rightarrow> term_errno_e + termios" where
  "set_stopbits_tio stopbits t =
     (if stopbits = 1 then Inr (upd_cflag (\<lambda>f. f AND NOT CSTOPB) t)
      else if stopbits = 2 then Inr (upd_cflag (\<lambda>f. f OR CSTOPB) t)
      else Inl TERM_ESTOPBITS)"

definition get_stopbits_tio :: "termios \<Rightarrow> int" where
  "get_stopbits_tio t = (if (c_cflag t AND CSTOPB) \<noteq> 0 then 2 else 1)"

fun set_flowcntrl_tio :: "flowcntrl_e \<Rightarrow> termios \<Rightarrow> term_errno_e + termios" where
  "set_flowcntrl_tio FC_RTSCTS t =
     Inr (upd_iflag (\<lambda>f. f AND NOT (IXON OR IXOFF OR IXANY)) (upd_cflag (\<lambda>f. f OR CRTSCTS) t))"
| "set_flowcntrl_tio FC_XONXOFF t =
     Inr (upd_iflag (\<lambda>f. f OR (IXON OR IXOFF)) (upd_cflag (\<lambda>f. f AND NOT CRTSCTS) t))"
| "set_flowcntrl_tio FC_NONE t =
     Inr (upd_iflag (\<lambda>f. f AND NOT (IXON OR IXOFF OR IXANY)) (upd_cflag (\<lambda>f. f AND NOT CRTSCTS) t))"
| "set_flowcntrl_tio _ t = Inl TERM_EFLOW"

definition get_flowcntrl_tio :: "termios \<Rightarrow> flowcntrl_e" where
  "get_flowcntrl_tio t =
     (let rtscts = (c_cflag t AND CRTSCTS) \<noteq> 0;
          xoff = (c_iflag t AND IXOFF) \<noteq> 0;
          xon = (c_iflag t AND (IXON OR IXANY)) \<noteq> 0
      in
      if rtscts \<and> \<not> xoff \<and> \<not> xon then FC_RTSCTS
      else if \<not> rtscts \<and> xoff \<and> xon then FC_XONXOFF
      else if \<not> rtscts \<and> \<not> xoff \<and> \<not> xon then FC_NONE
      else FC_OTHER)"

definition set_local_tio :: "bool \<Rightarrow> termios \<Rightarrow> term_errno_e + termios" where
  "set_local_tio lcl t =
     (if lcl then Inr (upd_cflag (\<lambda>f. f OR CLOCAL) t) else Inr (upd_cflag (\<lambda>f. f AND NOT CLOCAL) t))"

definition set_hupcl_tio :: "bool \<Rightarrow> termios \<Rightarrow> term_errno_e + termios" where
  "set_hupcl_tio on t =
     (if on then Inr (upd_cflag (\<lambda>f. f OR HUPCL) t) else Inr (upd_cflag (\<lambda>f. f AND NOT HUPCL) t))"

definition set_raw_tio :: "termios \<Rightarrow> term_errno_e + termios" where
  "set_raw_tio t = (let r = cfmakeraw t in Inr (r\<lparr>c_cc := (c_cc r)[VMIN := 1, VTIME := 0]\<rparr>))"

section \<open>The settings of a port as one value\<close>

record port_params =
  pp_baud :: int
  pp_parity :: parity_e
  pp_databits :: int
  pp_stopbits :: int
  pp_flow :: flowcntrl_e
  pp_local :: bool
  pp_hupcl :: bool
  pp_line :: "flags \<times> flags \<times> 8 word list"

definition params_of :: "build \<Rightarrow> termios \<Rightarrow> port_params" where
  "params_of b t =
     \<lparr>pp_baud = get_baudrate_tio b t, pp_parity = get_parity_tio t,
      pp_databits = get_databits_tio t, pp_stopbits = get_stopbits_tio t,
      pp_flow = get_flowcntrl_tio t, pp_local = bit (c_cflag t) 11, pp_hupcl = bit (c_cflag t) 10,
      pp_line = (c_lflag t, c_oflag t, c_cc t)\<rparr>"

text \<open>The getters in terms of single bits.\<close>

lemma get_parity_bits:
  "get_parity_tio t =
     (let f = bit (c_cflag t) in
      if \<not> f 8 then P_NONE else if f 30 then (if f 9 then P_MARK else P_SPACE)
      else (if f 9 then P_ODD else P_EVEN))"
  by (simp add: get_parity_tio_def flag_bits Let_def)

lemma and_CSIZE_cases:
  assumes "\<And>n. bit c n \<Longrightarrow> n = 4 \<or> n = 5"
  shows "(x AND CSIZE = c) = (bit x 4 = bit c 4 \<and> bit x 5 = bit c 5)"
    (is "?l = ?r")
proof
  assume "?l"
  then show "?r" by (auto simp: flag_ops)
next
  assume "?r"
  then show "?l" using assms by (intro bit_eqI) (auto simp: flag_ops)
qed

lemma and_CSIZE_eq:
  "(x AND CSIZE = CS5) = (\<not> bit x 4 \<and> \<not> bit x 5)" "(x AND CSIZE = CS6) = (bit x 4 \<and> \<not> bit x 5)"
  "(x AND CSIZE = CS7) = (\<not> bit x 4 \<and> bit x 5)"
  by (subst and_CSIZE_cases; auto simp: flag_ops)+

lemma get_databits_bits:
  "get_databits_tio t =
     (let f = bit (c_cflag t) in if f 5 then (if f 4 then 8 else 7) else (if f 4 then 6 else 5))"
  by (auto simp: get_databits_tio_def Let_def and_CSIZE_eq)

lemma get_stopbits_bits: "get_stopbits_tio t = (if bit (c_cflag t) 6 then 2 else 1)"
  by (simp add: get_stopbits_tio_def flag_bits)

lemma and_or_eq_0: "x AND (a OR c) = 0 \<longleftrightarrow> x AND a = 0 \<and> x AND c = (0 :: 32 word)"
  by (auto simp: bit_eq_iff flag_ops)

lemma get_flow_bits:
  "get_flowcntrl_tio t =
     (let r = bit (c_cflag t) 31; i = bit (c_iflag t); xoff = i 12; xon = i 10 \<or> i 11 in
      if r \<and> \<not> xoff \<and> \<not> xon then FC_RTSCTS
      else if \<not> r \<and> xoff \<and> xon then FC_XONXOFF
      else if \<not> r \<and> \<not> xoff \<and> \<not> xon then FC_NONE
      else FC_OTHER)"
  by (simp add: get_flowcntrl_tio_def flag_bits and_or_eq_0 Let_def)

lemma get_baudrate_cong:
  "(\<And>n. n = 12 \<or> n < 4 \<Longrightarrow> bit (c_cflag t) n = bit (c_cflag t') n) \<Longrightarrow> c_ospeed t = c_ospeed t' \<Longrightarrow>
     get_baudrate_tio b t = get_baudrate_tio b t'"
  using cfgetospeed_cong [of t t']
  by (simp add: get_baudrate_tio_def cfgetospeed_custom_def Let_def)

lemma upd_flags_simps [simp]:
  "c_cflag (upd_cflag f t) = f (c_cflag t)" "c_iflag (upd_cflag f t) = c_iflag t"
  "c_cflag (upd_iflag f t) = c_cflag t" "c_iflag (upd_iflag f t) = f (c_iflag t)"
  "c_ospeed (upd_cflag f t) = c_ospeed t" "c_ospeed (upd_iflag f t) = c_ospeed t"
  "c_lflag (upd_cflag f t) = c_lflag t" "c_lflag (upd_iflag f t) = c_lflag t"
  "c_oflag (upd_cflag f t) = c_oflag t" "c_oflag (upd_iflag f t) = c_oflag t"
  "c_cc (upd_cflag f t) = c_cc t" "c_cc (upd_iflag f t) = c_cc t"
  by (simp_all add: upd_cflag_def upd_iflag_def)

lemmas param_bits = params_of_def get_parity_bits get_databits_bits get_stopbits_bits get_flow_bits

lemma get_baudrate_wire [simp]: "get_baudrate_tio b (of_termios2 (to_termios2 t)) = get_baudrate_tio b t"
  by (rule get_baudrate_cong) simp_all

text \<open>What a change of flags keeps of the baud rate.\<close>

lemma less_4_cases: "(n::nat) < 4 \<longleftrightarrow> n = 0 \<or> n = 1 \<or> n = 2 \<or> n = 3"
  by auto

lemma get_baudrate_upd [simp]:
  "bit (f (c_cflag t)) 0 = bit (c_cflag t) 0 \<Longrightarrow> bit (f (c_cflag t)) 1 = bit (c_cflag t) 1 \<Longrightarrow>
   bit (f (c_cflag t)) 2 = bit (c_cflag t) 2 \<Longrightarrow> bit (f (c_cflag t)) 3 = bit (c_cflag t) 3 \<Longrightarrow>
   bit (f (c_cflag t)) 12 = bit (c_cflag t) 12 \<Longrightarrow>
     get_baudrate_tio b (upd_cflag f t) = get_baudrate_tio b t"
  by (rule get_baudrate_cong) (auto simp: less_4_cases)

lemma get_parity_upd [simp]:
  "bit (f (c_cflag t)) 8 = bit (c_cflag t) 8 \<Longrightarrow> bit (f (c_cflag t)) 9 = bit (c_cflag t) 9 \<Longrightarrow>
   bit (f (c_cflag t)) 30 = bit (c_cflag t) 30 \<Longrightarrow> get_parity_tio (upd_cflag f t) = get_parity_tio t"
  by (simp add: get_parity_bits Let_def)

lemma get_databits_upd [simp]:
  "bit (f (c_cflag t)) 4 = bit (c_cflag t) 4 \<Longrightarrow> bit (f (c_cflag t)) 5 = bit (c_cflag t) 5 \<Longrightarrow>
     get_databits_tio (upd_cflag f t) = get_databits_tio t"
  by (simp add: get_databits_bits Let_def)

lemma get_stopbits_upd [simp]:
  "bit (f (c_cflag t)) 6 = bit (c_cflag t) 6 \<Longrightarrow> get_stopbits_tio (upd_cflag f t) = get_stopbits_tio t"
  by (simp add: get_stopbits_bits)

lemma get_flow_upd [simp]:
  "bit (f (c_cflag t)) 31 = bit (c_cflag t) 31 \<Longrightarrow> get_flowcntrl_tio (upd_cflag f t) = get_flowcntrl_tio t"
  by (simp add: get_flow_bits)

lemma get_iflag_upd [simp]:
  "get_parity_tio (upd_iflag f t) = get_parity_tio t" "get_databits_tio (upd_iflag f t) = get_databits_tio t"
  "get_stopbits_tio (upd_iflag f t) = get_stopbits_tio t"
  by (simp_all add: get_parity_bits get_databits_bits get_stopbits_bits)

lemma get_baudrate_iflag [simp]: "get_baudrate_tio b (upd_iflag f t) = get_baudrate_tio b t"
  by (rule get_baudrate_cong) simp_all

lemmas setter_defs = set_databits_tio_def set_stopbits_tio_def set_local_tio_def set_hupcl_tio_def

lemma getters_wire [simp]:
  "get_parity_tio (of_termios2 (to_termios2 t)) = get_parity_tio t"
  "get_databits_tio (of_termios2 (to_termios2 t)) = get_databits_tio t"
  "get_stopbits_tio (of_termios2 (to_termios2 t)) = get_stopbits_tio t"
  "get_flowcntrl_tio (of_termios2 (to_termios2 t)) = get_flowcntrl_tio t"
  by (simp_all add: get_parity_bits get_databits_bits get_stopbits_bits get_flow_bits flag_ops Let_def)

lemma params_wire:
  "params_of b (of_termios2 (to_termios2 t)) =
     (params_of b t)\<lparr>pp_line := pp_line (params_of b (of_termios2 (to_termios2 t)))\<rparr>"
  by (simp add: params_of_def flag_ops)

section \<open>The contract of a setting\<close>

text \<open>
  \<open>setv\<close> and \<open>getv\<close> are a setter and a getter on \<^verbatim>\<open>struct termios\<close>, \<open>ctype\<close> the values of the C
  type of the argument and \<open>valid\<close> those that are legal settings.  The laws: exactly the legal
  values are accepted, an accepted value is the one read back, and the value survives the
  conversions to the kernel's structure and back.
\<close>

definition setting_result :: "build \<Rightarrow> term_errno_e + termios \<Rightarrow> bool \<Rightarrow> (port_params \<Rightarrow> port_params) \<Rightarrow> termios \<Rightarrow> bool" where
  "setting_result b r ok f t =
     (case r of
        Inl e \<Rightarrow> \<not> ok
      | Inr t' \<Rightarrow>
          ok \<and> params_of b t' = f (params_of b t) \<and>
          (let k = params_of b (of_termios2 (to_termios2 t')) in
           k = (f (params_of b t))\<lparr>pp_line := pp_line k\<rparr>))"

locale setting =
  fixes setv :: "'v \<Rightarrow> termios \<Rightarrow> term_errno_e + termios"
    and getv :: "termios \<Rightarrow> 'v"
    and ctype :: "'v \<Rightarrow> bool"
    and valid :: "'v \<Rightarrow> bool"
    and upd :: "'v \<Rightarrow> port_params \<Rightarrow> port_params"
    and bld :: build
  assumes set_valid: "ctype v \<Longrightarrow> valid v \<Longrightarrow> \<exists>t'. setv v t = Inr t'"
    and set_invalid: "ctype v \<Longrightarrow> \<not> valid v \<Longrightarrow> \<exists>e. setv v t = Inl e"
    and set_get: "ctype v \<Longrightarrow> setv v t = Inr t' \<Longrightarrow> getv t' = v"
    and set_frame: "ctype v \<Longrightarrow> setv v t = Inr t' \<Longrightarrow> params_of bld t' = upd v (params_of bld t)"
    and get_wire: "getv (of_termios2 (to_termios2 t)) = getv t"
begin

lemma accepted_iff: "ctype v \<Longrightarrow> (\<exists>t'. setv v t = Inr t') = valid v"
  using set_valid set_invalid by (metis Inl_Inr_False)

lemma result:
  assumes "ctype v"
  shows "setting_result bld (setv v t) (valid v) (upd v) t"
proof (cases "setv v t")
  case (Inl e)
  then show ?thesis using set_valid [OF assms, of t] by (auto simp: setting_result_def)
next
  case (Inr t')
  have "valid v" using set_invalid [OF assms, of t] Inr by auto
  moreover note set_frame [OF assms Inr] params_wire [of bld t']
  ultimately show ?thesis unfolding setting_result_def Inr sum.case Let_def by metis
qed

text \<open>A legal value set, sent to the kernel and read back is unchanged.\<close>

lemma set_wire_get:
  assumes "ctype v" "valid v"
  obtains t' where "setv v t = Inr t'" "getv (of_termios2 (to_termios2 t')) = v"
  using set_valid [OF assms] set_get [OF assms(1)] get_wire by metis

end

lemma set_get_parity: "set_parity_tio v t = Inr t' \<Longrightarrow> get_parity_tio t' = v"
  by (cases v) (auto simp: get_parity_bits flag_ops)

lemma set_get_databits: "set_databits_tio v t = Inr t' \<Longrightarrow> get_databits_tio t' = v"
  by (auto simp: set_databits_tio_def get_databits_bits flag_ops split: if_splits)

lemma set_get_stopbits: "set_stopbits_tio v t = Inr t' \<Longrightarrow> get_stopbits_tio t' = v"
  by (auto simp: set_stopbits_tio_def get_stopbits_bits flag_ops split: if_splits)

lemma set_get_flow: "set_flowcntrl_tio v t = Inr t' \<Longrightarrow> get_flowcntrl_tio t' = v"
  by (cases v) (auto simp: get_flow_bits flag_ops)

lemma params_of_parity: "set_parity_tio v t = Inr t' \<Longrightarrow> params_of b t' = (params_of b t)\<lparr>pp_parity := v\<rparr>"
  using set_get_parity [of v t t'] by (cases v) (auto simp: params_of_def flag_ops)

lemma params_of_databits:
  "set_databits_tio v t = Inr t' \<Longrightarrow> params_of b t' = (params_of b t)\<lparr>pp_databits := v\<rparr>"
  using set_get_databits [of v t t']
  by (auto simp: set_databits_tio_def params_of_def flag_ops split: if_splits)

lemma params_of_stopbits:
  "set_stopbits_tio v t = Inr t' \<Longrightarrow> params_of b t' = (params_of b t)\<lparr>pp_stopbits := v\<rparr>"
  using set_get_stopbits [of v t t']
  by (auto simp: set_stopbits_tio_def params_of_def flag_ops split: if_splits)

lemma params_of_flow:
  "set_flowcntrl_tio v t = Inr t' \<Longrightarrow> params_of b t' = (params_of b t)\<lparr>pp_flow := v\<rparr>"
  using set_get_flow [of v t t'] by (cases v) (auto simp: params_of_def flag_ops)

lemma params_of_local: "set_local_tio v t = Inr t' \<Longrightarrow> params_of b t' = (params_of b t)\<lparr>pp_local := v\<rparr>"
  by (auto simp: set_local_tio_def params_of_def flag_ops split: if_splits)

lemma params_of_hupcl: "set_hupcl_tio v t = Inr t' \<Longrightarrow> params_of b t' = (params_of b t)\<lparr>pp_hupcl := v\<rparr>"
  by (auto simp: set_hupcl_tio_def params_of_def flag_ops split: if_splits)

section \<open>Interpretations\<close>

interpretation par: setting set_parity_tio get_parity_tio "\<lambda>_. True" "\<lambda>p. p \<noteq> P_ERROR"
  "\<lambda>v p. p\<lparr>pp_parity := v\<rparr>" bld
proof
  fix v t
  show "v \<noteq> P_ERROR \<Longrightarrow> \<exists>t'. set_parity_tio v t = Inr t'" by (cases v) auto
qed (auto simp: set_get_parity params_of_parity)

interpretation dat: setting set_databits_tio get_databits_tio "\<lambda>_. True" "\<lambda>n. n \<in> {5, 6, 7, 8}"
  "\<lambda>v p. p\<lparr>pp_databits := v\<rparr>" bld
  by unfold_locales (simp_all add: set_get_databits params_of_databits, auto simp: set_databits_tio_def)

interpretation stp: setting set_stopbits_tio get_stopbits_tio "\<lambda>_. True" "\<lambda>n. n \<in> {1, 2}"
  "\<lambda>v p. p\<lparr>pp_stopbits := v\<rparr>" bld
  by unfold_locales (simp_all add: set_get_stopbits params_of_stopbits, auto simp: set_stopbits_tio_def)

interpretation flw: setting set_flowcntrl_tio get_flowcntrl_tio "\<lambda>_. True"
  "\<lambda>f. f \<in> {FC_NONE, FC_RTSCTS, FC_XONXOFF}" "\<lambda>v p. p\<lparr>pp_flow := v\<rparr>" bld
proof
  fix v t
  show "v \<in> {FC_NONE, FC_RTSCTS, FC_XONXOFF} \<Longrightarrow> \<exists>t'. set_flowcntrl_tio v t = Inr t'" by auto
  show "v \<notin> {FC_NONE, FC_RTSCTS, FC_XONXOFF} \<Longrightarrow> \<exists>e. set_flowcntrl_tio v t = Inl e" by (cases v) auto
qed (auto simp: set_get_flow params_of_flow)

text \<open>
  The baud rate: the standard speeds, and with custom baud rates any positive \<^verbatim>\<open>int\<close>.
\<close>

definition baud_valid :: "build \<Rightarrow> int \<Rightarrow> bool" where
  "baud_valid b v \<longleftrightarrow> v \<in> set (speeds (HIGH_BAUD b)) \<or> custom_on b \<and> 0 < v"

abbreviation c_int_type :: "int \<Rightarrow> bool" where
  "c_int_type v \<equiv> - (2 ^ 31) \<le> v \<and> v < 2 ^ 31"

lemma Bcode_low: "Bcode high s \<noteq> BNONE \<Longrightarrow> Bcode high s AND (CBAUD OR CBAUDEX) = Bcode high s"
  by (metis Bcode_BNONE Bcode_in_table speed_codes_low)

lemma Bcode_bits: "Bcode high s \<noteq> BNONE \<Longrightarrow> bit (Bcode high s) n \<Longrightarrow> n = 12 \<or> n < 4"
  using Bcode_low [of high s] by (metis bit_and_iff bit_CBAUD_or)

lemma Bcode_speed_valid: "Bcode high s \<noteq> BNONE \<Longrightarrow> speed_valid (Bcode high s)"
proof -
  assume "Bcode high s \<noteq> BNONE"
  then have "Bcode high s AND NOT CBAUD = 0"
    by (intro bit_eqI) (auto simp: flag_ops dest: Bcode_bits)
  then show ?thesis by (simp add: speed_valid_def)
qed

lemma B0_valid [simp]: "speed_valid 0" "B0 = 0"
  by (simp_all add: speed_valid_def B0_def)

text \<open>Setting the input speed to \<^verbatim>\<open>B0\<close> never fails and touches none of the settings.\<close>

definition zero_ispeed :: "build \<Rightarrow> termios \<Rightarrow> termios" where
  "zero_ispeed b t = (case cf2setispeed (custom_on b) t B0 of None \<Rightarrow> t | Some t' \<Rightarrow> t')"

lemma zero_ispeed_fields [simp]:
  "c_ospeed (zero_ispeed b t) = c_ospeed t" "c_lflag (zero_ispeed b t) = c_lflag t"
  "c_oflag (zero_ispeed b t) = c_oflag t" "c_cc (zero_ispeed b t) = c_cc t"
  "bit (c_iflag (zero_ispeed b t)) n = (bit (c_iflag t) n \<or> \<not> custom_on b \<and> n = 31)"
  by (auto simp: zero_ispeed_def cf2setispeed_def cfsetispeed_def flag_ops)

lemma zero_ispeed_cflag [simp]:
  "n < 16 \<or> 20 \<le> n \<and> n \<noteq> 28 \<Longrightarrow> bit (c_cflag (zero_ispeed b t)) n = bit (c_cflag t) n"
  by (auto simp: zero_ispeed_def cf2setispeed_def cfsetispeed_def flag_ops bit_push_bit_iff IBSHIFT_def
           dest: bit_imp_le_length)

lemma set_baudrate_eq:
  "set_baudrate_tio b v t =
     (if Bcode (HIGH_BAUD b) v \<noteq> BNONE then
        Inr (zero_ispeed b (t\<lparr>c_ospeed := Bcode (HIGH_BAUD b) v,
               c_cflag := (c_cflag t AND NOT (CBAUD OR CBAUDEX)) OR Bcode (HIGH_BAUD b) v\<rparr>))
      else if \<not> custom_on b then Inl TERM_EBAUD
      else if v \<le> 0 then Inl TERM_ESETOSPEED
      else Inr (zero_ispeed b (t\<lparr>c_cflag := (c_cflag t AND NOT (CBAUD OR CBAUDEX)) OR BOTHER,
                                 c_ospeed := word_of_int v\<rparr>)))"
  by (simp add: set_baudrate_tio_def cfsetospeed_def Bcode_speed_valid cf2setospeed_custom_def
      zero_ispeed_def Let_def)

text \<open>Both successful branches write a speed field of the form \<open>code\<close> and leave the rest alone.\<close>

lemma speed_fields_swap: "t\<lparr>c_cflag := f, c_ospeed := s\<rparr> = t\<lparr>c_ospeed := s, c_cflag := f\<rparr>" for t :: termios
  by simp

lemma set_baudrate_shape:
  assumes "set_baudrate_tio b v t = Inr t'"
  obtains code osp where
    "t' = zero_ispeed b (t\<lparr>c_ospeed := osp, c_cflag := (c_cflag t AND NOT (CBAUD OR CBAUDEX)) OR code\<rparr>)"
    "\<And>n. bit code n \<Longrightarrow> n = 12 \<or> n < 4"
    "code = Bcode (HIGH_BAUD b) v \<and> code \<noteq> BNONE \<or>
     code = BOTHER \<and> Bcode (HIGH_BAUD b) v = BNONE \<and> custom_on b \<and> 0 < v \<and> osp = word_of_int v"
  using assms
  by (auto simp: set_baudrate_eq flag_bits speed_fields_swap split: if_splits dest: Bcode_bits)

lemma cfgetospeed_code:
  assumes code: "\<And>n. bit code n \<Longrightarrow> n = 12 \<or> n < 4"
  shows "cfgetospeed (zero_ispeed b (t\<lparr>c_ospeed := osp,
           c_cflag := (c_cflag t AND NOT (CBAUD OR CBAUDEX)) OR code\<rparr>)) = code"
  unfolding cfgetospeed_def
proof (rule bit_eqI)
  fix n
  show "bit (c_cflag (zero_ispeed b (t\<lparr>c_ospeed := osp,
          c_cflag := (c_cflag t AND NOT (CBAUD OR CBAUDEX)) OR code\<rparr>)) AND (CBAUD OR CBAUDEX)) n = bit code n"
    using code [of n] by (auto simp: flag_ops)
qed

lemma set_get_baudrate:
  assumes "c_int_type v" "set_baudrate_tio b v t = Inr t'"
  shows "get_baudrate_tio b t' = v"
proof -
  obtain code osp where
    t': "t' = zero_ispeed b (t\<lparr>c_ospeed := osp, c_cflag := (c_cflag t AND NOT (CBAUD OR CBAUDEX)) OR code\<rparr>)"
    and code: "\<And>n. bit code n \<Longrightarrow> n = 12 \<or> n < 4"
    and cases: "code = Bcode (HIGH_BAUD b) v \<and> code \<noteq> BNONE \<or>
      code = BOTHER \<and> Bcode (HIGH_BAUD b) v = BNONE \<and> custom_on b \<and> 0 < v \<and> osp = word_of_int v"
    by (rule set_baudrate_shape [OF assms(2)]) blast
  have o: "cfgetospeed t' = code" "c_ospeed t' = osp"
    using cfgetospeed_code [OF code] t' by simp_all
  from cases show ?thesis
  proof
    assume std: "code = Bcode (HIGH_BAUD b) v \<and> code \<noteq> BNONE"
    then have "v \<in> set (speeds (HIGH_BAUD b))" by (metis Bcode_BNONE)
    then have "Bspeed (HIGH_BAUD b) code = v" "0 \<le> v"
      using std Bspeed_Bcode speeds_nonneg by auto
    then show ?thesis by (simp add: get_baudrate_tio_def o)
  next
    assume oth: "code = BOTHER \<and> Bcode (HIGH_BAUD b) v = BNONE \<and> custom_on b \<and> 0 < v \<and> osp = word_of_int v"
    then have "USE_CUSTOM_BAUD b" by (simp add: custom_on_def use_custom_baud_def split: if_splits)
    moreover have "sint (word_of_int v :: 32 word) = v"
      using assms(1) by (simp add: sint_sbintrunc' signed_take_bit_int_eq_self)
    ultimately show ?thesis
      using oth by (simp add: get_baudrate_tio_def o Bspeed_def BOTHER_no_code cfgetospeed_custom_def)
  qed
qed

lemma params_of_baudrate:
  assumes "c_int_type v" "set_baudrate_tio b v t = Inr t'"
  shows "params_of b t' = (params_of b t)\<lparr>pp_baud := v\<rparr>"
proof -
  obtain code osp where
    t': "t' = zero_ispeed b (t\<lparr>c_ospeed := osp, c_cflag := (c_cflag t AND NOT (CBAUD OR CBAUDEX)) OR code\<rparr>)"
    and code: "\<And>n. bit code n \<Longrightarrow> n = 12 \<or> n < 4"
    by (rule set_baudrate_shape [OF assms(2)]) blast
  have bits: "bit (c_cflag t') n = bit (c_cflag t) n" if "3 < n \<and> n < 12 \<or> n = 30 \<or> n = 31" for n
    using that code [of n] by (auto simp: t' flag_ops)
  have "c_lflag t' = c_lflag t" "c_oflag t' = c_oflag t" "c_cc t' = c_cc t"
       "\<And>n. n < 31 \<Longrightarrow> bit (c_iflag t') n = bit (c_iflag t) n"
    by (auto simp: t')
  then show ?thesis
    using set_get_baudrate [OF assms]
    by (simp add: param_bits bits Let_def)
qed

lemma set_baudrate_accept: "(\<exists>t'. set_baudrate_tio b v t = Inr t') = baud_valid b v"
  by (auto simp: set_baudrate_eq baud_valid_def Bcode_BNONE simp del: set_map)

interpretation bau: setting "set_baudrate_tio bld" "get_baudrate_tio bld" c_int_type "baud_valid bld"
  "\<lambda>v p. p\<lparr>pp_baud := v\<rparr>" bld
proof
  fix v t
  show "baud_valid bld v \<Longrightarrow> \<exists>t'. set_baudrate_tio bld v t = Inr t'"
    by (simp add: set_baudrate_accept)
  show "\<not> baud_valid bld v \<Longrightarrow> \<exists>e. set_baudrate_tio bld v t = Inl e"
    using set_baudrate_accept [of bld v t] by (cases "set_baudrate_tio bld v t") auto
qed (auto simp: set_get_baudrate params_of_baudrate)

section \<open>Properties\<close>


end
