(* ===== verification/Sysenv.thy ===== *)
theory Sysenv
  imports Settings
begin

text \<open>
  The operating system as the program sees it: the system and library calls on file
  descriptors that \<^verbatim>\<open>term.cpp\<close>, \<^verbatim>\<open>fdio.cpp\<close> and \<^verbatim>\<open>ppcom.cpp\<close> make.  A state holds the
  terminal behind every descriptor, what has been written, what the next reads will return, the
  trace of externally visible calls, and scripts of the outcomes of calls that may fail: one entry
  per call, in the order of the calls, \<open>0\<close> for success and otherwise the \<^verbatim>\<open>errno\<close>.  When a
  script is used up, calls succeed.  Every state extends \<open>os\<close>, so the calls work on the states of
  all components.  \<^verbatim>\<open>tc2setattr\<close> and \<^verbatim>\<open>tc2getattr\<close> of \<^verbatim>\<open>src/ppcom/src/termios2.cpp\<close> are here.
\<close>

section \<open>State\<close>

datatype when_e = TCSANOW | TCSADRAIN | TCSAFLUSH
datatype queue_e = TCIFLUSH | TCOFLUSH | TCIOFLUSH

datatype os_event =
    E_flush int queue_e
  | E_drain int
  | E_setattr int when_e termios
  | E_mctl int "32 word"
  | E_break int
  | E_unlock int
  | E_close int
  | E_usleep nat
  | E_stderr string
  | E_fork "string list"
  | E_exit int
  | E_kill

datatype rd = RdData "byte list" | RdErr nat

record tty_dev =
  dv_tio :: termios2
  dv_mctl :: "32 word"

record os =
  os_cfg :: build
  os_fd :: "int \<Rightarrow> nat option"
  os_dev :: "nat \<Rightarrow> tty_dev"
  os_drv :: "nat \<Rightarrow> termios2 \<Rightarrow> termios2"
  os_faults :: "nat list"
  os_wres :: "int list"
  os_in :: "int \<Rightarrow> rd list"
  os_out :: "int \<Rightarrow> byte list"
  os_evs :: "os_event list"
  os_errno :: nat
  os_strerror :: "nat \<Rightarrow> string"
  os_ttyname :: "int \<Rightarrow> string option"

definition EINTR :: nat where "EINTR = 4"
definition EAGAIN :: nat where "EAGAIN = 11"
definition ENOTTY :: nat where "ENOTTY = 25"
definition EINVAL :: nat where "EINVAL = 22"

text \<open>Bits of \<^verbatim>\<open>TIOCMGET\<close>.\<close>

definition TIOCM_DTR :: "32 word" where "TIOCM_DTR = push_bit 1 1"
definition TIOCM_RTS :: "32 word" where "TIOCM_RTS = push_bit 2 1"
definition TIOCM_CTS :: "32 word" where "TIOCM_CTS = push_bit 5 1"
definition TIOCM_CD :: "32 word" where "TIOCM_CD = push_bit 6 1"
definition TIOCM_RI :: "32 word" where "TIOCM_RI = push_bit 7 1"
definition TIOCM_DSR :: "32 word" where "TIOCM_DSR = push_bit 8 1"

section \<open>Calls\<close>

definition event :: "os_event \<Rightarrow> 'a os_scheme \<Rightarrow> 'a os_scheme" where
  "event e s = s\<lparr>os_evs := os_evs s @ [e]\<rparr>"

text \<open>A call that can fail: it does \<open>act\<close> when the script says so.\<close>

definition syscall :: "('a os_scheme \<Rightarrow> 'a os_scheme) \<Rightarrow> 'a os_scheme \<Rightarrow> bool \<times> 'a os_scheme" where
  "syscall act s =
     (case os_faults s of
        [] \<Rightarrow> (True, act s)
      | e # es \<Rightarrow>
          if e = 0 then (True, act (s\<lparr>os_faults := es\<rparr>))
          else (False, s\<lparr>os_faults := es, os_errno := e\<rparr>))"

text \<open>A call on a terminal; on any other descriptor it fails.\<close>

definition tty_call :: "int \<Rightarrow> (nat \<Rightarrow> 'a os_scheme \<Rightarrow> 'a os_scheme) \<Rightarrow> 'a os_scheme \<Rightarrow> bool \<times> 'a os_scheme" where
  "tty_call fd act s =
     (case os_fd s fd of
        None \<Rightarrow> (False, s\<lparr>os_errno := ENOTTY\<rparr>)
      | Some d \<Rightarrow> syscall (act d) s)"

definition upd_dev :: "nat \<Rightarrow> (tty_dev \<Rightarrow> tty_dev) \<Rightarrow> 'a os_scheme \<Rightarrow> 'a os_scheme" where
  "upd_dev d f s = s\<lparr>os_dev := (os_dev s)(d := f (os_dev s d))\<rparr>"

definition isatty :: "int \<Rightarrow> 'a os_scheme \<Rightarrow> bool" where
  "isatty fd s = (os_fd s fd \<noteq> None)"

text \<open>
  The driver may adjust what it is given (\<open>os_drv\<close>); the kernel keeps the adjusted structure.
  The C library's \<^verbatim>\<open>tcsetattr\<close>, used when custom rates are off, passes the same fields except the
  two numeric speeds, which are then never looked at.
\<close>

definition setattr_act :: "int \<Rightarrow> when_e \<Rightarrow> termios \<Rightarrow> nat \<Rightarrow> 'a os_scheme \<Rightarrow> 'a os_scheme" where
  "setattr_act fd when tio d s =
     event (E_setattr fd when tio)
       (upd_dev d (\<lambda>v. v\<lparr>dv_tio := os_drv s d (to_termios2 tio)\<rparr>) s)"

definition tc2setattr :: "int \<Rightarrow> when_e \<Rightarrow> termios \<Rightarrow> 'a os_scheme \<Rightarrow> bool \<times> 'a os_scheme" where
  "tc2setattr fd when tio s = tty_call fd (setattr_act fd when tio) s"

definition tc2getattr :: "int \<Rightarrow> 'a os_scheme \<Rightarrow> termios option \<times> 'a os_scheme" where
  "tc2getattr fd s =
     (case tty_call fd (\<lambda>d s. s) s of
        (False, s') \<Rightarrow> (None, s')
      | (True, s') \<Rightarrow> (Some (of_termios2 (dv_tio (os_dev s (the (os_fd s fd))))), s'))"

definition tcflush :: "int \<Rightarrow> queue_e \<Rightarrow> 'a os_scheme \<Rightarrow> bool \<times> 'a os_scheme" where
  "tcflush fd q s = tty_call fd (\<lambda>_. event (E_flush fd q)) s"

definition tcdrain :: "int \<Rightarrow> 'a os_scheme \<Rightarrow> bool \<times> 'a os_scheme" where
  "tcdrain fd s = tty_call fd (\<lambda>_. event (E_drain fd)) s"

definition tcsendbreak :: "int \<Rightarrow> 'a os_scheme \<Rightarrow> bool \<times> 'a os_scheme" where
  "tcsendbreak fd s = tty_call fd (\<lambda>_. event (E_break fd)) s"

definition ioctl_mctl :: "int \<Rightarrow> (32 word \<Rightarrow> 32 word) \<Rightarrow> 'a os_scheme \<Rightarrow> bool \<times> 'a os_scheme" where
  "ioctl_mctl fd f s =
     tty_call fd (\<lambda>d s. event (E_mctl fd (f (dv_mctl (os_dev s d))))
                        (upd_dev d (\<lambda>v. v\<lparr>dv_mctl := f (dv_mctl v)\<rparr>) s)) s"

definition TIOCMBIS :: "int \<Rightarrow> 32 word \<Rightarrow> 'a os_scheme \<Rightarrow> bool \<times> 'a os_scheme" where
  "TIOCMBIS fd pins = ioctl_mctl fd (\<lambda>w. w OR pins)"

definition TIOCMBIC :: "int \<Rightarrow> 32 word \<Rightarrow> 'a os_scheme \<Rightarrow> bool \<times> 'a os_scheme" where
  "TIOCMBIC fd pins = ioctl_mctl fd (\<lambda>w. w AND NOT pins)"

definition TIOCMGET :: "int \<Rightarrow> 'a os_scheme \<Rightarrow> 32 word option \<times> 'a os_scheme" where
  "TIOCMGET fd s =
     (case tty_call fd (\<lambda>d s. s) s of
        (False, s') \<Rightarrow> (None, s')
      | (True, s') \<Rightarrow> (Some (dv_mctl (os_dev s (the (os_fd s fd)))), s'))"

definition os_close :: "int \<Rightarrow> 'a os_scheme \<Rightarrow> 'a os_scheme" where
  "os_close fd s = event (E_close fd) (s\<lparr>os_fd := (os_fd s)(fd := None)\<rparr>)"

definition usleep :: "nat \<Rightarrow> 'a os_scheme \<Rightarrow> 'a os_scheme" where
  "usleep n s = event (E_usleep n) s"

text \<open>\<^verbatim>\<open>do { r = call; } while ( r < 0 && errno == EINTR );\<close>\<close>

function retry_eintr :: "(nat \<Rightarrow> 'a os_scheme \<Rightarrow> 'a os_scheme) \<Rightarrow> int \<Rightarrow> 'a os_scheme \<Rightarrow> bool \<times> 'a os_scheme" where
  "retry_eintr act fd s =
     (let (ok, s') = tty_call fd act s in
      if \<not> ok \<and> os_errno s' = EINTR then retry_eintr act fd s' else (ok, s'))"
  by pat_completeness auto
termination
  by (relation "measure (\<lambda>(act, fd, s). length (os_faults s))")
     (auto simp: tty_call_def syscall_def EINTR_def ENOTTY_def split: option.splits list.splits if_splits)

declare retry_eintr.simps [simp del]

text \<open>
  \<^verbatim>\<open>write\<close>: a negative entry of the script is an error, a non-negative one the most the call
  takes; with the script used up the call takes everything.  \<^verbatim>\<open>read\<close> returns at most \<open>n\<close> bytes of
  the next chunk, 0 at the end of the script.
\<close>

definition os_put :: "int \<Rightarrow> byte list \<Rightarrow> 'a os_scheme \<Rightarrow> 'a os_scheme" where
  "os_put fd bs s = s\<lparr>os_out := (os_out s)(fd := os_out s fd @ bs)\<rparr>"

definition os_write :: "int \<Rightarrow> byte list \<Rightarrow> 'a os_scheme \<Rightarrow> int \<times> 'a os_scheme" where
  "os_write fd bs s =
     (case os_wres s of
        [] \<Rightarrow> (int (length bs), os_put fd bs s)
      | w # ws \<Rightarrow>
          if w < 0 then (-1, s\<lparr>os_wres := ws, os_errno := nat (- w)\<rparr>)
          else (let k = min (nat w) (length bs) in
                (int k, os_put fd (take k bs) (s\<lparr>os_wres := ws\<rparr>))))"

definition os_read :: "int \<Rightarrow> nat \<Rightarrow> 'a os_scheme \<Rightarrow> (nat + byte list) \<times> 'a os_scheme" where
  "os_read fd n s =
     (case os_in s fd of
        [] \<Rightarrow> (Inr [], s)
      | RdErr e # r \<Rightarrow> (Inl e, s\<lparr>os_in := (os_in s)(fd := r), os_errno := e\<rparr>)
      | RdData bs # r \<Rightarrow>
          (Inr (take n bs),
           s\<lparr>os_in := (os_in s)(fd := (if length bs \<le> n then r else RdData (drop n bs) # r))\<rparr>))"

section \<open>Lemmas\<close>

named_theorems os_frame \<open>what a call keeps of the operating system state\<close>

lemma event_sel [simp]:
  "os_cfg (event e s) = os_cfg s" "os_fd (event e s) = os_fd s" "os_dev (event e s) = os_dev s"
  "os_drv (event e s) = os_drv s" "os_faults (event e s) = os_faults s" "os_wres (event e s) = os_wres s"
  "os_in (event e s) = os_in s" "os_out (event e s) = os_out s" "os_errno (event e s) = os_errno s"
  "os_evs (event e s) = os_evs s @ [e]" "os.more (event e s) = os.more s"
  by (simp_all add: event_def)

lemma upd_dev_sel [simp]:
  "os_cfg (upd_dev d f s) = os_cfg s" "os_fd (upd_dev d f s) = os_fd s"
  "os_dev (upd_dev d f s) = (os_dev s)(d := f (os_dev s d))"
  "os_drv (upd_dev d f s) = os_drv s" "os_faults (upd_dev d f s) = os_faults s"
  "os_wres (upd_dev d f s) = os_wres s" "os_in (upd_dev d f s) = os_in s"
  "os_out (upd_dev d f s) = os_out s" "os_errno (upd_dev d f s) = os_errno s"
  "os_evs (upd_dev d f s) = os_evs s" "os.more (upd_dev d f s) = os.more s"
  by (simp_all add: upd_dev_def)

lemma os_put_sel [simp]:
  "os_cfg (os_put fd bs s) = os_cfg s" "os_fd (os_put fd bs s) = os_fd s"
  "os_dev (os_put fd bs s) = os_dev s" "os_drv (os_put fd bs s) = os_drv s"
  "os_faults (os_put fd bs s) = os_faults s" "os_wres (os_put fd bs s) = os_wres s"
  "os_in (os_put fd bs s) = os_in s" "os_evs (os_put fd bs s) = os_evs s"
  "os_out (os_put fd bs s) = (os_out s)(fd := os_out s fd @ bs)" "os.more (os_put fd bs s) = os.more s"
  by (simp_all add: os_put_def)

end
