(* ===== verification/Term.thy ===== *)
theory Term
  imports Sysenv
begin

text \<open>
  The terminal library, \<^verbatim>\<open>src/ppcom/src/term.cpp\<close>: the table of managed terminals
  (\<^verbatim>\<open>struct term_s\<close>) and every \<^verbatim>\<open>term_*\<close> function on it.  A function returns its \<^verbatim>\<open>int\<close>
  (0, or \<open>-1\<close> with the error in \<open>term_errno\<close>) and the new state.
\<close>

section \<open>State\<close>

definition MAX_TERMS :: nat where "MAX_TERMS = 16"
definition DRAIN_DELAY :: nat where "DRAIN_DELAY = 200000"

record term_lib = os +
  term_init :: bool
  term_fd :: "int list"
  term_orig :: "termios list"
  term_curr :: "termios list"
  term_next :: "termios list"
  term_errno :: term_errno_e

definition set_fd :: "nat \<Rightarrow> int \<Rightarrow> 'a term_lib_scheme \<Rightarrow> 'a term_lib_scheme" where
  "set_fd i fd s = s\<lparr>term_fd := (term_fd s)[i := fd]\<rparr>"

definition set_orig :: "nat \<Rightarrow> termios \<Rightarrow> 'a term_lib_scheme \<Rightarrow> 'a term_lib_scheme" where
  "set_orig i t s = s\<lparr>term_orig := (term_orig s)[i := t]\<rparr>"

definition set_curr :: "nat \<Rightarrow> termios \<Rightarrow> 'a term_lib_scheme \<Rightarrow> 'a term_lib_scheme" where
  "set_curr i t s = s\<lparr>term_curr := (term_curr s)[i := t]\<rparr>"

definition set_next :: "nat \<Rightarrow> termios \<Rightarrow> 'a term_lib_scheme \<Rightarrow> 'a term_lib_scheme" where
  "set_next i t s = s\<lparr>term_next := (term_next s)[i := t]\<rparr>"

section \<open>Error strings\<close>

fun term_err_str :: "term_errno_e \<Rightarrow> string" where
  "term_err_str TERM_EOK = ''No error''"
| "term_err_str TERM_ENOINIT = ''Framework is uninitialized''"
| "term_err_str TERM_EFULL = ''Framework is full''"
| "term_err_str TERM_ENOTFOUND = ''Filedes not in the framework''"
| "term_err_str TERM_EEXISTS = ''Filedes already in the framework''"
| "term_err_str TERM_EATEXIT = ''Cannot install atexit handler''"
| "term_err_str TERM_EISATTY = ''Filedes is not a tty''"
| "term_err_str TERM_EFLUSH = ''Cannot flush the device''"
| "term_err_str TERM_EGETATTR = ''Cannot get the device attributes''"
| "term_err_str TERM_ESETATTR = ''Cannot set the device attributes''"
| "term_err_str TERM_EBAUD = ''Invalid baud rate''"
| "term_err_str TERM_ESETOSPEED = ''Cannot set the output speed''"
| "term_err_str TERM_ESETISPEED = ''Cannot set the input speed''"
| "term_err_str TERM_EGETSPEED = ''Cannot decode speed''"
| "term_err_str TERM_EPARITY = ''Invalid parity mode''"
| "term_err_str TERM_EDATABITS = ''Invalid number of databits''"
| "term_err_str TERM_ESTOPBITS = ''Invalid number of stopbits''"
| "term_err_str TERM_EFLOW = ''Invalid flowcontrol mode''"
| "term_err_str TERM_EDTRDOWN = ''Cannot lower DTR''"
| "term_err_str TERM_EDTRUP = ''Cannot raise DTR''"
| "term_err_str TERM_EMCTL = ''Cannot get mctl status''"
| "term_err_str TERM_EDRAIN = ''Cannot drain the device''"
| "term_err_str TERM_EBREAK = ''Cannot send break sequence''"
| "term_err_str TERM_ERTSDOWN = ''Cannot lower RTS''"
| "term_err_str TERM_ERTSUP = ''Cannot raise RTS''"

text \<open>\<open>None\<close> is the \<^verbatim>\<open>NULL\<close> of the default branch; the buffer holds 1023 characters.\<close>

definition term_strerror :: "(nat \<Rightarrow> string) \<Rightarrow> term_errno_e \<Rightarrow> nat \<Rightarrow> string option" where
  "term_strerror strerror terrnum errnum =
     (if terrnum \<in> {TERM_EFLUSH, TERM_EGETATTR, TERM_ESETATTR, TERM_ESETOSPEED, TERM_ESETISPEED,
                     TERM_EDRAIN, TERM_EBREAK} then
        Some (take 1023 (term_err_str terrnum @ '': '' @ strerror errnum))
      else if terrnum \<in> {TERM_EOK, TERM_ENOINIT, TERM_EFULL, TERM_ENOTFOUND, TERM_EEXISTS,
                     TERM_EATEXIT, TERM_EISATTY, TERM_EBAUD, TERM_EPARITY, TERM_EDATABITS,
                     TERM_ESTOPBITS, TERM_EFLOW, TERM_EDTRDOWN, TERM_EDTRUP, TERM_EMCTL,
                     TERM_ERTSDOWN, TERM_ERTSUP} then
        Some (take 1023 (term_err_str terrnum))
      else None)"

section \<open>Control flow of the functions\<close>

text \<open>\<^verbatim>\<open>term_errno = e; rval = -1; break;\<close>\<close>

definition fail :: "term_errno_e \<Rightarrow> 'a term_lib_scheme \<Rightarrow> int \<times> 'a term_lib_scheme" where
  "fail e s = (-1, s\<lparr>term_errno := e\<rparr>)"

text \<open>\<^verbatim>\<open>r = call; if ( r < 0 ) { term_errno = e; rval = -1; break; }\<close>\<close>

definition check ::
  "bool \<times> 'a term_lib_scheme \<Rightarrow> term_errno_e \<Rightarrow> ('a term_lib_scheme \<Rightarrow> int \<times> 'a term_lib_scheme)
     \<Rightarrow> int \<times> 'a term_lib_scheme" where
  "check c e k = (case c of (ok, s) \<Rightarrow> if ok then k s else fail e s)"

definition check_get ::
  "'b option \<times> 'a term_lib_scheme \<Rightarrow> term_errno_e \<Rightarrow> ('b \<Rightarrow> 'a term_lib_scheme \<Rightarrow> int \<times> 'a term_lib_scheme)
     \<Rightarrow> int \<times> 'a term_lib_scheme" where
  "check_get c e k = (case c of (None, s) \<Rightarrow> fail e s | (Some v, s) \<Rightarrow> k v s)"

section \<open>The table\<close>

fun find_fd :: "int \<Rightarrow> int list \<Rightarrow> nat option" where
  "find_fd fd [] = None"
| "find_fd fd (x # xs) = (if x = fd then Some 0 else map_option Suc (find_fd fd xs))"

definition term_find_next_free :: "'a term_lib_scheme \<Rightarrow> int \<times> 'a term_lib_scheme" where
  "term_find_next_free s =
     (if \<not> term_init s then fail TERM_ENOINIT s
      else case find_fd (-1) (term_fd s) of
             None \<Rightarrow> fail TERM_EFULL s
           | Some i \<Rightarrow> (int i, s))"

definition term_find :: "int \<Rightarrow> 'a term_lib_scheme \<Rightarrow> int \<times> 'a term_lib_scheme" where
  "term_find fd s =
     (if \<not> term_init s then fail TERM_ENOINIT s
      else case find_fd fd (term_fd s) of
             None \<Rightarrow> fail TERM_ENOTFOUND s
           | Some i \<Rightarrow> (int i, s))"

text \<open>\<^verbatim>\<open>i = term_find(fd); if ( i < 0 ) { rval = r; break; }\<close>\<close>

definition with_slot ::
  "'r \<Rightarrow> int \<Rightarrow> (nat \<Rightarrow> 'a term_lib_scheme \<Rightarrow> 'r \<times> 'a term_lib_scheme) \<Rightarrow> 'a term_lib_scheme \<Rightarrow> 'r \<times> 'a term_lib_scheme" where
  "with_slot r fd body s = (case term_find fd s of (i, s') \<Rightarrow> if i < 0 then (r, s') else body (nat i) s')"

abbreviation slot_fd :: "nat \<Rightarrow> 'a term_lib_scheme \<Rightarrow> int" where
  "slot_fd i s \<equiv> term_fd s ! i"

definition term_drain :: "int \<Rightarrow> 'a term_lib_scheme \<Rightarrow> int \<times> 'a term_lib_scheme" where
  "term_drain fd =
     with_slot (-1) fd (\<lambda>_ s.
       check (retry_eintr (\<lambda>_. event (E_drain fd)) fd s) TERM_EDRAIN (\<lambda>s.
       (0, if DRAIN_DELAY \<noteq> 0 then usleep DRAIN_DELAY s else s)))"

definition reset_failed_msg :: "string \<Rightarrow> int \<Rightarrow> string \<Rightarrow> 'a os_scheme \<Rightarrow> 'a os_scheme" where
  "reset_failed_msg func fd eol s =
     event (E_stderr (func @ '': reset failed for dev '' @
              (case os_ttyname s fd of None \<Rightarrow> ''UNKNOWN'' | Some n \<Rightarrow> n) @ '': '' @
              os_strerror s (os_errno s) @ eol)) s"

definition exit_slot :: "nat \<Rightarrow> 'a term_lib_scheme \<Rightarrow> 'a term_lib_scheme" where
  "exit_slot i s0 =
     (let fd = slot_fd i s0 in
      if fd = -1 then s0 else
      (let s1 = snd (term_drain fd s0);
           s2 = snd (tcflush fd TCIFLUSH s1);
           (ok, s3) = retry_eintr (setattr_act fd TCSANOW (term_orig s2 ! i)) fd s2;
           s4 = (if ok then s3 else reset_failed_msg ''term_exitfunc'' fd crlf s3);
           s5 = (if USE_FLOCK (os_cfg s4) then event (E_unlock fd) s4 else s4);
           s6 = os_close fd s5
       in set_fd i (-1) s6))"

definition term_exitfunc :: "'a term_lib_scheme \<Rightarrow> 'a term_lib_scheme" where
  "term_exitfunc s = (if \<not> term_init s then s else fold exit_slot [0..<MAX_TERMS] s)"

definition reinit_slot :: "nat \<Rightarrow> 'a term_lib_scheme \<Rightarrow> 'a term_lib_scheme" where
  "reinit_slot i s0 =
     (let fd = slot_fd i s0 in
      if fd = -1 then s0 else
      (let s1 = snd (tcflush fd TCIOFLUSH s0);
           (ok, s2) = retry_eintr (setattr_act fd TCSANOW (term_orig s1 ! i)) fd s1;
           s3 = (if ok then s2 else reset_failed_msg ''term_lib_init'' fd [LF] s2)
       in set_fd i (-1) s3))"

definition term_lib_init :: "'a term_lib_scheme \<Rightarrow> int \<times> 'a term_lib_scheme" where
  "term_lib_init s =
     (if term_init s then (0, fold reinit_slot [0..<MAX_TERMS] s)
      else check (syscall (\<lambda>s. s) (s\<lparr>term_fd := replicate MAX_TERMS (-1)\<rparr>)) TERM_EATEXIT
             (\<lambda>s. (0, s\<lparr>term_init := True\<rparr>)))"

definition term_add :: "int \<Rightarrow> 'a term_lib_scheme \<Rightarrow> int \<times> 'a term_lib_scheme" where
  "term_add fd s0 =
     (case term_find fd s0 of (i, s) \<Rightarrow>
      if i \<ge> 0 then fail TERM_EEXISTS s
      else if \<not> isatty fd s then fail TERM_EISATTY s
      else case term_find_next_free s of (i, s) \<Rightarrow>
        if i < 0 then (-1, s)
        else check_get (tc2getattr fd s) TERM_EGETATTR (\<lambda>tio s.
          (0, set_fd (nat i) fd (set_next (nat i) tio (set_curr (nat i) tio (set_orig (nat i) tio s))))))"

definition term_remove :: "int \<Rightarrow> 'a term_lib_scheme \<Rightarrow> int \<times> 'a term_lib_scheme" where
  "term_remove fd =
     with_slot (-1) fd (\<lambda>i s.
       case (check (tcflush (slot_fd i s) TCIOFLUSH s) TERM_EFLUSH (\<lambda>s.
             check (tc2setattr (slot_fd i s) TCSANOW (term_orig s ! i) s) TERM_ESETATTR (\<lambda>s.
             (0, s)))) of
         (rval, s) \<Rightarrow> (rval, set_fd i (-1) s))"

definition term_erase :: "int \<Rightarrow> 'a term_lib_scheme \<Rightarrow> int \<times> 'a term_lib_scheme" where
  "term_erase fd = with_slot (-1) fd (\<lambda>i s. (0, set_fd i (-1) s))"

definition term_replace :: "int \<Rightarrow> int \<Rightarrow> 'a term_lib_scheme \<Rightarrow> int \<times> 'a term_lib_scheme" where
  "term_replace oldfd newfd =
     with_slot (-1) oldfd (\<lambda>i s.
       check (tc2setattr newfd TCSANOW (term_curr s ! i) s) TERM_ESETATTR (\<lambda>s.
       check_get (tc2getattr newfd s) TERM_EGETATTR (\<lambda>tio s.
       (0, set_fd i newfd (set_curr i tio s)))))"

definition term_reset :: "int \<Rightarrow> 'a term_lib_scheme \<Rightarrow> int \<times> 'a term_lib_scheme" where
  "term_reset fd =
     with_slot (-1) fd (\<lambda>i s.
       check (tcflush (slot_fd i s) TCIOFLUSH s) TERM_EFLUSH (\<lambda>s.
       check (tc2setattr (slot_fd i s) TCSANOW (term_orig s ! i) s) TERM_ESETATTR (\<lambda>s.
       check_get (tc2getattr (slot_fd i s) s) TERM_EGETATTR (\<lambda>tio s.
       (0, set_next i tio (set_curr i tio s))))))"

definition term_revert :: "int \<Rightarrow> 'a term_lib_scheme \<Rightarrow> int \<times> 'a term_lib_scheme" where
  "term_revert fd = with_slot (-1) fd (\<lambda>i s. (0, set_next i (term_curr s ! i) s))"

definition term_refresh :: "int \<Rightarrow> 'a term_lib_scheme \<Rightarrow> int \<times> 'a term_lib_scheme" where
  "term_refresh fd =
     with_slot (-1) fd (\<lambda>i s.
       check_get (tc2getattr fd s) TERM_EGETATTR (\<lambda>tio s. (0, set_curr i tio s)))"

text \<open>The end of \<^verbatim>\<open>term_apply\<close>: \<^verbatim>\<open>HUPCL\<close> of the current settings goes to the original ones.\<close>

definition copy_hupcl :: "termios \<Rightarrow> termios \<Rightarrow> termios" where
  "copy_hupcl cur = upd_cflag (\<lambda>f. if (c_cflag cur AND HUPCL) \<noteq> 0 then f OR HUPCL else f AND NOT HUPCL)"

definition term_apply :: "int \<Rightarrow> bool \<Rightarrow> 'a term_lib_scheme \<Rightarrow> int \<times> 'a term_lib_scheme" where
  "term_apply fd now =
     (let when = (if now then TCSANOW else TCSAFLUSH) in
      with_slot (-1) fd (\<lambda>i s.
        check (tc2setattr (slot_fd i s) when (term_next s ! i) s) TERM_ESETATTR (\<lambda>s.
        check_get (tc2getattr (slot_fd i s) s) TERM_EGETATTR (\<lambda>tio s.
        (let s' = set_curr i tio (set_next i tio s) in
         (0, set_orig i (copy_hupcl (term_curr s' ! i) (term_orig s' ! i)) s'))))))"

section \<open>Settings\<close>

text \<open>A setter edits the next settings of the slot, or reports why it cannot.\<close>

definition edit_next ::
  "int \<Rightarrow> ('a term_lib_scheme \<Rightarrow> termios \<Rightarrow> term_errno_e + termios) \<Rightarrow> 'a term_lib_scheme \<Rightarrow> int \<times> 'a term_lib_scheme" where
  "edit_next fd f =
     with_slot (-1) fd (\<lambda>i s.
       case f s (term_next s ! i) of Inl e \<Rightarrow> fail e s | Inr tio \<Rightarrow> (0, set_next i tio s))"

definition term_set_raw :: "int \<Rightarrow> 'a term_lib_scheme \<Rightarrow> int \<times> 'a term_lib_scheme" where
  "term_set_raw fd = edit_next fd (\<lambda>_. set_raw_tio)"

definition term_set_baudrate :: "int \<Rightarrow> int \<Rightarrow> 'a term_lib_scheme \<Rightarrow> int \<times> 'a term_lib_scheme" where
  "term_set_baudrate fd baudrate = edit_next fd (\<lambda>s. set_baudrate_tio (os_cfg s) baudrate)"

definition term_set_parity :: "int \<Rightarrow> parity_e \<Rightarrow> 'a term_lib_scheme \<Rightarrow> int \<times> 'a term_lib_scheme" where
  "term_set_parity fd parity = edit_next fd (\<lambda>_. set_parity_tio parity)"

definition term_set_databits :: "int \<Rightarrow> int \<Rightarrow> 'a term_lib_scheme \<Rightarrow> int \<times> 'a term_lib_scheme" where
  "term_set_databits fd databits = edit_next fd (\<lambda>_. set_databits_tio databits)"

definition term_set_stopbits :: "int \<Rightarrow> int \<Rightarrow> 'a term_lib_scheme \<Rightarrow> int \<times> 'a term_lib_scheme" where
  "term_set_stopbits fd stopbits = edit_next fd (\<lambda>_. set_stopbits_tio stopbits)"

definition term_set_flowcntrl :: "int \<Rightarrow> flowcntrl_e \<Rightarrow> 'a term_lib_scheme \<Rightarrow> int \<times> 'a term_lib_scheme" where
  "term_set_flowcntrl fd flowcntl = edit_next fd (\<lambda>_. set_flowcntrl_tio flowcntl)"

definition term_set_local :: "int \<Rightarrow> bool \<Rightarrow> 'a term_lib_scheme \<Rightarrow> int \<times> 'a term_lib_scheme" where
  "term_set_local fd lcl = edit_next fd (\<lambda>_. set_local_tio lcl)"

definition term_set_hupcl :: "int \<Rightarrow> bool \<Rightarrow> 'a term_lib_scheme \<Rightarrow> int \<times> 'a term_lib_scheme" where
  "term_set_hupcl fd on = edit_next fd (\<lambda>_. set_hupcl_tio on)"

definition term_get_baudrate :: "int \<Rightarrow> bool \<Rightarrow> 'a term_lib_scheme \<Rightarrow> (int \<times> int option) \<times> 'a term_lib_scheme" where
  "term_get_baudrate fd want_ispeed =
     with_slot (-1, None) fd (\<lambda>i s.
       (let tio = term_curr s ! i;
            isp = (if want_ispeed then Some (get_ispeed_tio (os_cfg s) tio) else None);
            ospeed = get_baudrate_tio (os_cfg s) tio
        in ((ospeed, isp), if ospeed < 0 then s\<lparr>term_errno := TERM_EGETSPEED\<rparr> else s)))"

definition term_get_parity :: "int \<Rightarrow> 'a term_lib_scheme \<Rightarrow> parity_e \<times> 'a term_lib_scheme" where
  "term_get_parity fd = with_slot P_ERROR fd (\<lambda>i s. (get_parity_tio (term_curr s ! i), s))"

definition term_get_databits :: "int \<Rightarrow> 'a term_lib_scheme \<Rightarrow> int \<times> 'a term_lib_scheme" where
  "term_get_databits fd = with_slot (-1) fd (\<lambda>i s. (get_databits_tio (term_curr s ! i), s))"

definition term_get_stopbits :: "int \<Rightarrow> 'a term_lib_scheme \<Rightarrow> int \<times> 'a term_lib_scheme" where
  "term_get_stopbits fd = with_slot (-1) fd (\<lambda>i s. (get_stopbits_tio (term_curr s ! i), s))"

definition term_get_flowcntrl :: "int \<Rightarrow> 'a term_lib_scheme \<Rightarrow> flowcntrl_e \<times> 'a term_lib_scheme" where
  "term_get_flowcntrl fd = with_slot FC_ERROR fd (\<lambda>i s. (get_flowcntrl_tio (term_curr s ! i), s))"

text \<open>
  \<^verbatim>\<open>term_set\<close>: all settings at once.  Note \<^verbatim>\<open>ni = term_add(fd)\<close>: what \<open>term_add\<close> returns is
  used as the slot.
\<close>

definition term_set_seq ::
  "int \<Rightarrow> bool \<Rightarrow> int \<Rightarrow> parity_e \<Rightarrow> int \<Rightarrow> int \<Rightarrow> flowcntrl_e \<Rightarrow> bool \<Rightarrow> bool
     \<Rightarrow> ('a term_lib_scheme \<Rightarrow> int \<times> 'a term_lib_scheme) list" where
  "term_set_seq fd raw baud parity databits stopbits fc lcl hup_close =
     (if raw then [term_set_raw fd] else []) @
     [term_set_baudrate fd baud, term_set_parity fd parity, term_set_databits fd databits,
      term_set_stopbits fd stopbits, term_set_flowcntrl fd fc, term_set_local fd lcl,
      term_set_hupcl fd hup_close]"

fun run_seq :: "('s \<Rightarrow> int \<times> 's) list \<Rightarrow> 's \<Rightarrow> int \<times> 's" where
  "run_seq [] s = (0, s)"
| "run_seq (f # fs) s = (case f s of (r, s') \<Rightarrow> if r < 0 then (-1, s') else run_seq fs s')"

definition term_set ::
  "int \<Rightarrow> bool \<Rightarrow> int \<Rightarrow> parity_e \<Rightarrow> int \<Rightarrow> int \<Rightarrow> flowcntrl_e \<Rightarrow> bool \<Rightarrow> bool
     \<Rightarrow> 'a term_lib_scheme \<Rightarrow> int \<times> 'a term_lib_scheme" where
  "term_set fd raw baud parity databits stopbits fc lcl hup_close s0 =
     (case term_find fd s0 of (i, s) \<Rightarrow>
      case (if i < 0 then term_add fd s else (i, s)) of (ni, s) \<Rightarrow>
      if i < 0 \<and> ni < 0 then (-1, s)
      else
        (let tio = term_next s ! nat ni in
         case run_seq (term_set_seq fd raw baud parity databits stopbits fc lcl hup_close) s of
           (rval, s) \<Rightarrow>
             (rval, if rval < 0 then
                      (if i < 0 then set_fd (nat ni) (-1) s else set_next (nat ni) tio s)
                    else s)))"

section \<open>Modem control lines and other operations\<close>

definition MCTL_UNAVAIL :: "32 word" where "MCTL_UNAVAIL = push_bit 0 1"
definition MCTL_DTR :: "32 word" where "MCTL_DTR = push_bit 1 1"
definition MCTL_DSR :: "32 word" where "MCTL_DSR = push_bit 2 1"
definition MCTL_DCD :: "32 word" where "MCTL_DCD = push_bit 3 1"
definition MCTL_RTS :: "32 word" where "MCTL_RTS = push_bit 4 1"
definition MCTL_CTS :: "32 word" where "MCTL_CTS = push_bit 5 1"
definition MCTL_RI :: "32 word" where "MCTL_RI = push_bit 6 1"

definition term_pulse_dtr :: "int \<Rightarrow> 'a term_lib_scheme \<Rightarrow> int \<times> 'a term_lib_scheme" where
  "term_pulse_dtr fd =
     with_slot (-1) fd (\<lambda>_ s.
       check (TIOCMBIC fd TIOCM_DTR s) TERM_EDTRDOWN (\<lambda>s.
       check (TIOCMBIS fd TIOCM_DTR (usleep 1000000 s)) TERM_EDTRUP (\<lambda>s. (0, s))))"

definition term_raise_dtr :: "int \<Rightarrow> 'a term_lib_scheme \<Rightarrow> int \<times> 'a term_lib_scheme" where
  "term_raise_dtr fd =
     with_slot (-1) fd (\<lambda>_ s. check (TIOCMBIS fd TIOCM_DTR s) TERM_EDTRUP (\<lambda>s. (0, s)))"

definition term_lower_dtr :: "int \<Rightarrow> 'a term_lib_scheme \<Rightarrow> int \<times> 'a term_lib_scheme" where
  "term_lower_dtr fd =
     with_slot (-1) fd (\<lambda>_ s. check (TIOCMBIC fd TIOCM_DTR s) TERM_EDTRDOWN (\<lambda>s. (0, s)))"

definition term_raise_rts :: "int \<Rightarrow> 'a term_lib_scheme \<Rightarrow> int \<times> 'a term_lib_scheme" where
  "term_raise_rts fd =
     with_slot (-1) fd (\<lambda>_ s. check (TIOCMBIS fd TIOCM_RTS s) TERM_ERTSUP (\<lambda>s. (0, s)))"

definition term_lower_rts :: "int \<Rightarrow> 'a term_lib_scheme \<Rightarrow> int \<times> 'a term_lib_scheme" where
  "term_lower_rts fd =
     with_slot (-1) fd (\<lambda>_ s. check (TIOCMBIC fd TIOCM_RTS s) TERM_ERTSDOWN (\<lambda>s. (0, s)))"

definition mctl_of :: "32 word \<Rightarrow> 32 word" where
  "mctl_of pmctl =
     (if (pmctl AND TIOCM_DTR) \<noteq> 0 then MCTL_DTR else 0) OR
     (if (pmctl AND TIOCM_DSR) \<noteq> 0 then MCTL_DSR else 0) OR
     (if (pmctl AND TIOCM_CD) \<noteq> 0 then MCTL_DCD else 0) OR
     (if (pmctl AND TIOCM_RTS) \<noteq> 0 then MCTL_RTS else 0) OR
     (if (pmctl AND TIOCM_CTS) \<noteq> 0 then MCTL_CTS else 0) OR
     (if (pmctl AND TIOCM_RI) \<noteq> 0 then MCTL_RI else 0)"

text \<open>\<open>None\<close> is the return value \<open>-1\<close>.\<close>

definition term_get_mctl :: "int \<Rightarrow> 'a term_lib_scheme \<Rightarrow> 32 word option \<times> 'a term_lib_scheme" where
  "term_get_mctl fd =
     with_slot None fd (\<lambda>_ s.
       case TIOCMGET fd s of
         (None, s) \<Rightarrow> (None, s)
       | (Some pmctl, s) \<Rightarrow> (Some (mctl_of pmctl), s))"

definition no_flow :: "termios \<Rightarrow> termios" where
  "no_flow t = upd_iflag (\<lambda>f. f AND NOT (IXON OR IXOFF OR IXANY)) (upd_cflag (\<lambda>f. f AND NOT CRTSCTS) t)"

definition term_fake_flush :: "int \<Rightarrow> 'a term_lib_scheme \<Rightarrow> int \<times> 'a term_lib_scheme" where
  "term_fake_flush fd =
     with_slot (-1) fd (\<lambda>i s.
       check_get (tc2getattr fd s) TERM_EGETATTR (\<lambda>tio s.
       check (tc2setattr fd TCSANOW (no_flow tio) (set_curr i tio s)) TERM_ESETATTR (\<lambda>s.
       check (tcdrain fd s) TERM_EDRAIN (\<lambda>s.
       check (tc2setattr fd TCSANOW (term_curr s ! i)
                (if DRAIN_DELAY \<noteq> 0 then usleep DRAIN_DELAY s else s)) TERM_ESETATTR (\<lambda>s.
       (0, s))))))"

definition term_flush :: "int \<Rightarrow> 'a term_lib_scheme \<Rightarrow> int \<times> 'a term_lib_scheme" where
  "term_flush fd =
     with_slot (-1) fd (\<lambda>_ s. check (tcflush fd TCIOFLUSH s) TERM_EFLUSH (\<lambda>s. (0, s)))"

definition term_break :: "int \<Rightarrow> 'a term_lib_scheme \<Rightarrow> int \<times> 'a term_lib_scheme" where
  "term_break fd =
     with_slot (-1) fd (\<lambda>_ s. check (tcsendbreak fd s) TERM_EBREAK (\<lambda>s. (0, s)))"

definition term_perror :: "string \<Rightarrow> 'a term_lib_scheme \<Rightarrow> 'a term_lib_scheme" where
  "term_perror pfx s =
     event (E_stderr (pfx @ '' '' @
              (case term_strerror (os_strerror s) (term_errno s) (os_errno s) of
                 None \<Rightarrow> ''(null)'' | Some m \<Rightarrow> m) @ [LF])) s"

end
