(* ===== verification/Term_Lemmas.thy ===== *)
theory Term_Lemmas
  imports Term
begin

text \<open>
  Library of the terminal table: what the system calls keep of it (the locale \<open>keeps_table\<close>), the
  table as a map from descriptors to their original, current and next settings (\<open>amap\<close>), its
  well-formedness (\<open>table_ok\<close>), and the effect of every operation on the map.
\<close>

section \<open>System calls and the table\<close>

definition tbl :: "'a term_lib_scheme \<Rightarrow> bool \<times> int list \<times> termios list \<times> termios list \<times> termios list" where
  "tbl s = (term_init s, term_fd s, term_orig s, term_curr s, term_next s)"

definition env :: "'a os_scheme \<Rightarrow> build \<times> (nat \<Rightarrow> termios2 \<Rightarrow> termios2) \<times> (nat \<Rightarrow> string) \<times> (int \<Rightarrow> string option)" where
  "env s = (os_cfg s, os_drv s, os_strerror s, os_ttyname s)"

lemma tbl_eqD:
  assumes "tbl s = tbl s'"
  shows "term_init s = term_init s'" "term_fd s = term_fd s'" "term_orig s = term_orig s'"
    "term_curr s = term_curr s'" "term_next s = term_next s'"
  using assms by (simp_all add: tbl_def)

lemma env_eqD:
  assumes "env s = env s'"
  shows "os_cfg s = os_cfg s'" "os_drv s = os_drv s'" "os_strerror s = os_strerror s'"
    "os_ttyname s = os_ttyname s'"
  using assms by (simp_all add: env_def)

text \<open>
  The contract of a call of the operating system towards the terminal library: the table, the
  configuration and the open descriptors are untouched.
\<close>

locale keeps_table =
  fixes call :: "'a term_lib_scheme \<Rightarrow> 'r \<times> 'a term_lib_scheme"
  assumes keeps_tbl: "tbl (snd (call s)) = tbl s"
    and keeps_env: "env (snd (call s)) = env s"
    and keeps_fds: "os_fd (snd (call s)) = os_fd s"
begin

lemmas keeps = tbl_eqD [OF keeps_tbl] env_eqD [OF keeps_env] keeps_fds

end

lemma tty_call_keeps:
  assumes "\<And>d s. tbl (act d s) = tbl s" "\<And>d s. env (act d s) = env s" "\<And>d s. os_fd (act d s) = os_fd s"
  shows "keeps_table (\<lambda>s. tty_call fd act s)"
  using assms
  by unfold_locales
     (auto simp: tty_call_def syscall_def tbl_def env_def split: option.splits list.splits)

text \<open>What every single call keeps, the retried call keeps.\<close>

lemma retry_eintr_induct:
  assumes "\<And>s. g (snd (tty_call fd act s)) = g s"
  shows "g (snd (retry_eintr act fd s)) = g s"
  using assms
proof (induction act fd s rule: retry_eintr.induct)
  case (1 act fd s)
  obtain ok s1 where c: "tty_call fd act s = (ok, s1)" by fastforce
  have "g s1 = g s" using 1(2) [of s] c by simp
  then show ?case
    using 1(1) [OF c [symmetric] refl _ 1(2)] by (subst retry_eintr.simps) (simp add: c)
qed

lemma retry_eintr_keeps:
  assumes "\<And>d s. tbl (act d s) = tbl s" "\<And>d s. env (act d s) = env s" "\<And>d s. os_fd (act d s) = os_fd s"
  shows "keeps_table (\<lambda>s. retry_eintr act fd s)"
proof
  note t = keeps_table.keeps_tbl [OF tty_call_keeps [OF assms]]
    keeps_table.keeps_env [OF tty_call_keeps [OF assms]] keeps_table.keeps_fds [OF tty_call_keeps [OF assms]]
  fix s
  show "tbl (snd (retry_eintr act fd s)) = tbl s" by (rule retry_eintr_induct) (rule t)
  show "env (snd (retry_eintr act fd s)) = env s" by (rule retry_eintr_induct) (rule t)
  show "os_fd (snd (retry_eintr act fd s)) = os_fd s" by (rule retry_eintr_induct) (rule t)
qed

lemma acts_keep [simp]:
  "tbl (event e s) = tbl s" "env (event e s) = env s"
  "tbl (usleep n s) = tbl s" "env (usleep n s) = env s" "os_fd (usleep n s) = os_fd s"
  "tbl (upd_dev d f s) = tbl s" "env (upd_dev d f s) = env s"
  "tbl (setattr_act fd when t d s) = tbl s" "env (setattr_act fd when t d s) = env s"
  "os_fd (setattr_act fd when t d s) = os_fd s"
  "tbl (s\<lparr>term_errno := e'\<rparr>) = tbl s" "env (s\<lparr>term_errno := e'\<rparr>) = env s"
  by (simp_all add: tbl_def env_def event_def upd_dev_def setattr_act_def usleep_def)

interpretation flush_call: keeps_table "tcflush fd q"
  unfolding tcflush_def by (rule tty_call_keeps) simp_all

interpretation drain_call: keeps_table "tcdrain fd"
  unfolding tcdrain_def by (rule tty_call_keeps) simp_all

interpretation break_call: keeps_table "tcsendbreak fd"
  unfolding tcsendbreak_def by (rule tty_call_keeps) simp_all

interpretation setattr_call: keeps_table "tc2setattr fd when t"
  unfolding tc2setattr_def by (rule tty_call_keeps) simp_all

interpretation setattr_retry: keeps_table "retry_eintr (setattr_act fd when t) fd"
  by (rule retry_eintr_keeps) simp_all

interpretation drain_retry: keeps_table "retry_eintr (\<lambda>_. event (E_drain fd)) fd"
  by (rule retry_eintr_keeps) simp_all

interpretation mbis_call: keeps_table "TIOCMBIS fd w"
  unfolding TIOCMBIS_def ioctl_mctl_def by (rule tty_call_keeps) simp_all

interpretation mbic_call: keeps_table "TIOCMBIC fd w"
  unfolding TIOCMBIC_def ioctl_mctl_def by (rule tty_call_keeps) simp_all

lemma snd_getattr: "snd (tc2getattr fd s) = snd (tty_call fd (\<lambda>d s. s) s)"
  "snd (TIOCMGET fd s) = snd (tty_call fd (\<lambda>d s. s) s)"
  by (simp_all add: tc2getattr_def TIOCMGET_def split: prod.split bool.split)

interpretation idle_call: keeps_table "tty_call fd (\<lambda>d s. s)"
  by (rule tty_call_keeps) simp_all

interpretation getattr_call: keeps_table "tc2getattr fd"
  by unfold_locales (simp_all add: snd_getattr idle_call.keeps_tbl idle_call.keeps_env idle_call.keeps_fds)

interpretation mget_call: keeps_table "TIOCMGET fd"
  by unfold_locales (simp_all add: snd_getattr idle_call.keeps_tbl idle_call.keeps_env idle_call.keeps_fds)

lemmas calls_keep [simp] =
  flush_call.keeps drain_call.keeps break_call.keeps setattr_call.keeps setattr_retry.keeps
  drain_retry.keeps mbis_call.keeps mbic_call.keeps getattr_call.keeps mget_call.keeps

lemmas calls_keep_tbl [simp] =
  flush_call.keeps_tbl drain_call.keeps_tbl break_call.keeps_tbl setattr_call.keeps_tbl
  setattr_retry.keeps_tbl drain_retry.keeps_tbl mbis_call.keeps_tbl mbic_call.keeps_tbl
  getattr_call.keeps_tbl mget_call.keeps_tbl

lemmas calls_keep_env [simp] =
  flush_call.keeps_env drain_call.keeps_env break_call.keeps_env setattr_call.keeps_env
  setattr_retry.keeps_env drain_retry.keeps_env mbis_call.keeps_env mbic_call.keeps_env
  getattr_call.keeps_env mget_call.keeps_env

section \<open>Branching\<close>

lemma check_fst: "check c e k = (if fst c then k (snd c) else fail e (snd c))"
  by (simp add: check_def split: prod.split)

lemma check_get_fst: "check_get c e k = (case fst c of None \<Rightarrow> fail e (snd c) | Some v \<Rightarrow> k v (snd c))"
  by (simp add: check_get_def split: prod.split option.split)

text \<open>The slot a descriptor is found in.\<close>

definition slot_of :: "int \<Rightarrow> 'a term_lib_scheme \<Rightarrow> nat option" where
  "slot_of fd s = (if term_init s then find_fd fd (term_fd s) else None)"

definition find_err :: "'a term_lib_scheme \<Rightarrow> term_errno_e" where
  "find_err s = (if term_init s then TERM_ENOTFOUND else TERM_ENOINIT)"

lemma with_slot_eq:
  "with_slot r fd body s =
     (case slot_of fd s of None \<Rightarrow> (r, s\<lparr>term_errno := find_err s\<rparr>) | Some i \<Rightarrow> body i s)"
  by (simp add: with_slot_def term_find_def slot_of_def find_err_def fail_def split: option.split)

lemma find_fd_Some: "find_fd fd xs = Some i \<longleftrightarrow> i < length xs \<and> xs ! i = fd \<and> (\<forall>j<i. xs ! j \<noteq> fd)"
proof (induction xs arbitrary: i)
  case (Cons x xs)
  show ?case
  proof (cases i)
    case 0
    then show ?thesis using Cons by (auto split: option.splits)
  next
    case (Suc k)
    have "(\<forall>j<Suc k. (x # xs) ! j \<noteq> fd) \<longleftrightarrow> x \<noteq> fd \<and> (\<forall>j<k. xs ! j \<noteq> fd)"
      by (auto simp: less_Suc_eq_0_disj)
    then show ?thesis using Cons Suc by auto
  qed
qed simp

lemma find_fd_None: "find_fd fd xs = None \<longleftrightarrow> fd \<notin> set xs"
  by (induction xs) auto

section \<open>The table as a map\<close>

definition managed_distinct :: "int list \<Rightarrow> bool" where
  "managed_distinct xs = distinct (filter (\<lambda>fd. fd \<noteq> -1) xs)"

definition table_ok :: "'a term_lib_scheme \<Rightarrow> bool" where
  "table_ok s \<longleftrightarrow>
     length (term_fd s) = MAX_TERMS \<and> length (term_orig s) = MAX_TERMS \<and>
     length (term_curr s) = MAX_TERMS \<and> length (term_next s) = MAX_TERMS \<and>
     managed_distinct (term_fd s)"

type_synonym slot = "termios \<times> termios \<times> termios"

definition slot_at :: "'a term_lib_scheme \<Rightarrow> nat \<Rightarrow> slot" where
  "slot_at s i = (term_orig s ! i, term_curr s ! i, term_next s ! i)"

text \<open>A managed descriptor's original, current and next settings.\<close>

definition amap :: "'a term_lib_scheme \<Rightarrow> int \<Rightarrow> slot option" where
  "amap s fd = (if fd = -1 then None else map_option (slot_at s) (slot_of fd s))"

lemma tbl_amap: "tbl s = tbl s' \<Longrightarrow> amap s = amap s'"
proof -
  assume t: "tbl s = tbl s'"
  then have "slot_at s = slot_at s'" by (intro ext) (simp add: tbl_def slot_at_def)
  with t show ?thesis by (intro ext) (simp add: amap_def slot_of_def tbl_def)
qed

lemma tbl_table_ok: "tbl s = tbl s' \<Longrightarrow> table_ok s = table_ok s'"
  by (auto simp: tbl_def table_ok_def)

lemma managed_distinct_nth:
  "managed_distinct xs \<longleftrightarrow>
     (\<forall>i<length xs. \<forall>j<length xs. xs ! i = xs ! j \<longrightarrow> xs ! i = -1 \<or> i = j)"
proof (induction xs)
  case (Cons x xs)
  have "managed_distinct (x # xs) \<longleftrightarrow> (x = -1 \<or> x \<notin> set xs) \<and> managed_distinct xs"
    by (auto simp: managed_distinct_def)
  also have "\<dots> \<longleftrightarrow> (x = -1 \<or> (\<forall>j<length xs. xs ! j \<noteq> x)) \<and>
     (\<forall>i<length xs. \<forall>j<length xs. xs ! i = xs ! j \<longrightarrow> xs ! i = -1 \<or> i = j)"
    using Cons by (auto simp: in_set_conv_nth)
  also have "\<dots> \<longleftrightarrow> (\<forall>i<length (x # xs). \<forall>j<length (x # xs).
     (x # xs) ! i = (x # xs) ! j \<longrightarrow> (x # xs) ! i = -1 \<or> i = j)"
    by (auto simp: All_less_Suc2 simp del: nth_Cons_Suc simp add: nth_Cons_Suc)
  finally show ?case .
qed (simp add: managed_distinct_def)

lemma find_fd_managed:
  "managed_distinct xs \<Longrightarrow> fd \<noteq> -1 \<Longrightarrow> find_fd fd xs = Some i \<longleftrightarrow> i < length xs \<and> xs ! i = fd"
  unfolding managed_distinct_nth find_fd_Some by (metis less_trans order_less_irrefl)

lemma option_Some_eqI: "(\<And>j. a = Some j \<longleftrightarrow> b = Some j) \<Longrightarrow> a = b"
  by (cases a; cases b) auto

lemma find_fd_update_free:
  assumes "managed_distinct xs" "i < length xs" "xs ! i = fd" "fd \<noteq> -1" "g \<noteq> -1"
  shows "find_fd g (xs[i := -1]) = (if g = fd then None else find_fd g xs)"
proof (rule option.expand [OF _ ], goal_cases)
  case 1
  then show ?case
    using assms by (auto simp: find_fd_None in_set_conv_nth managed_distinct_nth nth_list_update)
next
  case 2
  then obtain j where j: "find_fd g (xs[i := -1]) = Some j" by auto
  have "managed_distinct (xs[i := -1])"
    using assms(1,2) by (auto simp: managed_distinct_nth nth_list_update)
  then have "j < length xs" "xs[i := -1] ! j = g"
    using j find_fd_managed assms(5) by fastforce+
  with assms have "xs ! j = g" "j \<noteq> i" by (auto simp: nth_list_update split: if_splits)
  then have "g \<noteq> fd" "find_fd g xs = Some j"
    using assms \<open>j < length xs\<close> by (auto simp: find_fd_managed managed_distinct_nth)
  then show ?case using j by simp
qed

lemma find_fd_update_new:
  assumes "managed_distinct xs" "i < length xs" "xs ! i = -1 \<or> xs ! i = old" "fd \<notin> set xs" "fd \<noteq> -1"
    "g \<noteq> -1" "old \<noteq> -1"
  shows "find_fd g (xs[i := fd]) = (if g = fd then Some i else if g = xs ! i then None else find_fd g xs)"
    and "managed_distinct (xs[i := fd])"
proof -
  show d: "managed_distinct (xs[i := fd])"
    using assms(1,2,4) by (auto simp: managed_distinct_nth nth_list_update in_set_conv_nth)
  have eq: "find_fd g (xs[i := fd]) = Some j \<longleftrightarrow> (if g = fd then j = i else g \<noteq> xs ! i \<and> find_fd g xs = Some j)" for j
    using assms d
    by (auto simp: find_fd_managed nth_list_update in_set_conv_nth managed_distinct_nth)
  show "find_fd g (xs[i := fd]) = (if g = fd then Some i else if g = xs ! i then None else find_fd g xs)"
    by (rule option_Some_eqI) (auto simp: eq)
qed

section \<open>Effect of the primitive updates\<close>

lemma slot_ofD:
  "slot_of fd s = Some i \<Longrightarrow> term_init s \<and> i < length (term_fd s) \<and> term_fd s ! i = fd"
  by (auto simp: slot_of_def find_fd_Some split: if_splits)

lemma set_sel [simp]:
  "term_fd (set_fd i fd s) = (term_fd s)[i := fd]" "term_init (set_fd i fd s) = term_init s"
  "term_orig (set_fd i fd s) = term_orig s" "term_curr (set_fd i fd s) = term_curr s"
  "term_next (set_fd i fd s) = term_next s"
  "term_fd (set_orig i t s) = term_fd s" "term_init (set_orig i t s) = term_init s"
  "term_orig (set_orig i t s) = (term_orig s)[i := t]" "term_curr (set_orig i t s) = term_curr s"
  "term_next (set_orig i t s) = term_next s"
  "term_fd (set_curr i t s) = term_fd s" "term_init (set_curr i t s) = term_init s"
  "term_orig (set_curr i t s) = term_orig s" "term_curr (set_curr i t s) = (term_curr s)[i := t]"
  "term_next (set_curr i t s) = term_next s"
  "term_fd (set_next i t s) = term_fd s" "term_init (set_next i t s) = term_init s"
  "term_orig (set_next i t s) = term_orig s" "term_curr (set_next i t s) = term_curr s"
  "term_next (set_next i t s) = (term_next s)[i := t]"
  by (simp_all add: set_fd_def set_orig_def set_curr_def set_next_def)

lemma set_env [simp]:
  "env (set_fd i fd s) = env s" "env (set_orig i t s) = env s" "env (set_curr i t s) = env s"
  "env (set_next i t s) = env s" "os_cfg (set_fd i fd s) = os_cfg s" "os_cfg (set_orig i t s) = os_cfg s"
  "os_cfg (set_curr i t s) = os_cfg s" "os_cfg (set_next i t s) = os_cfg s"
  "os_fd (set_fd i fd s) = os_fd s" "os_fd (set_orig i t s) = os_fd s" "os_fd (set_curr i t s) = os_fd s"
  "os_fd (set_next i t s) = os_fd s" "os_dev (set_fd i fd s) = os_dev s" "os_dev (set_orig i t s) = os_dev s"
  "os_dev (set_curr i t s) = os_dev s" "os_dev (set_next i t s) = os_dev s"
  by (simp_all add: env_def set_fd_def set_orig_def set_curr_def set_next_def)

lemma table_ok_set [simp]:
  "table_ok s \<Longrightarrow> table_ok (set_orig i t s)" "table_ok s \<Longrightarrow> table_ok (set_curr i t s)"
  "table_ok s \<Longrightarrow> table_ok (set_next i t s)"
  by (simp_all add: table_ok_def)

lemma table_ok_clear [simp]: "table_ok s \<Longrightarrow> table_ok (set_fd i (-1) s)"
  by (cases "i < length (term_fd s)")
     (auto simp: table_ok_def managed_distinct_nth nth_list_update list_update_beyond)

lemma slot_of_set [simp]:
  "slot_of fd (set_orig i t s) = slot_of fd s" "slot_of fd (set_curr i t s) = slot_of fd s"
  "slot_of fd (set_next i t s) = slot_of fd s"
  by (simp_all add: slot_of_def)

definition upd_orig :: "termios \<Rightarrow> slot \<Rightarrow> slot" where "upd_orig t = (\<lambda>(o', c, n). (t, c, n))"
definition upd_curr :: "termios \<Rightarrow> slot \<Rightarrow> slot" where "upd_curr t = (\<lambda>(o', c, n). (o', t, n))"
definition upd_next :: "termios \<Rightarrow> slot \<Rightarrow> slot" where "upd_next t = (\<lambda>(o', c, n). (o', c, t))"

lemma slot_at_set [simp]:
  "table_ok s \<Longrightarrow> i < MAX_TERMS \<Longrightarrow> slot_at (set_orig i t s) i = upd_orig t (slot_at s i)"
  "table_ok s \<Longrightarrow> i < MAX_TERMS \<Longrightarrow> slot_at (set_curr i t s) i = upd_curr t (slot_at s i)"
  "table_ok s \<Longrightarrow> i < MAX_TERMS \<Longrightarrow> slot_at (set_next i t s) i = upd_next t (slot_at s i)"
  "i \<noteq> j \<Longrightarrow> slot_at (set_orig i t s) j = slot_at s j"
  "i \<noteq> j \<Longrightarrow> slot_at (set_curr i t s) j = slot_at s j"
  "i \<noteq> j \<Longrightarrow> slot_at (set_next i t s) j = slot_at s j"
  "slot_at (set_fd i fd s) = slot_at s"
  by (simp_all add: slot_at_def table_ok_def upd_orig_def upd_curr_def upd_next_def fun_eq_iff)

lemma slot_of_managed:
  "table_ok s \<Longrightarrow> fd \<noteq> -1 \<Longrightarrow> slot_of fd s = Some i \<longleftrightarrow> term_init s \<and> i < MAX_TERMS \<and> term_fd s ! i = fd"
  by (simp add: slot_of_def table_ok_def find_fd_managed)

text \<open>An update of slot \<open>i\<close> is an update of the map at the descriptor of the slot.\<close>

lemma amap_upd_slot:
  assumes ok: "table_ok s" and i: "slot_of fd s = Some i"
    and same: "\<And>g. slot_of g s' = slot_of g s" "\<And>j. j \<noteq> i \<Longrightarrow> slot_at s' j = slot_at s j"
      "slot_at s' i = f (slot_at s i)"
  shows "amap s' = (if fd = -1 then amap s else (amap s)(fd := map_option f (amap s fd)))"
proof (rule ext)
  fix g
  have "slot_of g s = Some i \<Longrightarrow> g = fd" using i by (auto dest!: slot_ofD)
  then show "amap s' g = (if fd = -1 then amap s else (amap s)(fd := map_option f (amap s fd))) g"
    using i same by (cases "slot_of g s") (auto simp: amap_def)
qed

lemma slot_of_less: "table_ok s \<Longrightarrow> slot_of fd s = Some i \<Longrightarrow> i < MAX_TERMS"
  by (auto simp: table_ok_def dest: slot_ofD)

lemma amap_set_orig:
  "table_ok s \<Longrightarrow> slot_of fd s = Some i \<Longrightarrow>
     amap (set_orig i t s) = (if fd = -1 then amap s else (amap s)(fd := map_option (upd_orig t) (amap s fd)))"
  by (frule (1) slot_of_less, rule amap_upd_slot) auto

lemma amap_set_curr:
  "table_ok s \<Longrightarrow> slot_of fd s = Some i \<Longrightarrow>
     amap (set_curr i t s) = (if fd = -1 then amap s else (amap s)(fd := map_option (upd_curr t) (amap s fd)))"
  by (frule (1) slot_of_less, rule amap_upd_slot) auto

lemma amap_set_next:
  "table_ok s \<Longrightarrow> slot_of fd s = Some i \<Longrightarrow>
     amap (set_next i t s) = (if fd = -1 then amap s else (amap s)(fd := map_option (upd_next t) (amap s fd)))"
  by (frule (1) slot_of_less, rule amap_upd_slot) auto

lemma amap_clear:
  assumes ok: "table_ok s" and i: "slot_of fd s = Some i"
  shows "amap (set_fd i (-1) s) = (if fd = -1 then amap s else (amap s)(fd := None))"
proof (cases "fd = -1")
  case True
  then have "(term_fd s)[i := -1] = term_fd s" using i by (auto dest: slot_ofD intro: list_update_same_conv [THEN iffD2])
  then show ?thesis using True by (intro ext) (simp add: amap_def slot_of_def)
next
  case False
  have "find_fd g ((term_fd s)[i := -1]) = (if g = fd then None else find_fd g (term_fd s))" if "g \<noteq> -1" for g
    using ok i False that by (intro find_fd_update_free) (auto simp: table_ok_def dest: slot_ofD)
  then show ?thesis using False by (intro ext) (auto simp: amap_def slot_of_def)
qed

text \<open>A new terminal in a free slot.\<close>

lemma amap_new:
  assumes ok: "table_ok s" and i: "slot_of (-1) s = Some i" and fd: "fd \<noteq> -1" "fd \<notin> set (term_fd s)"
  shows "amap (set_fd i fd s) = (amap s)(fd \<mapsto> slot_at s i)" and "table_ok (set_fd i fd s)"
proof -
  have upd: "find_fd g ((term_fd s)[i := fd]) = (if g = fd then Some i else find_fd g (term_fd s))"
    "managed_distinct ((term_fd s)[i := fd])" if "g \<noteq> -1" for g
    using find_fd_update_new [of "term_fd s" i 0 fd g] ok i fd that
    by (auto simp: table_ok_def dest!: slot_ofD)
  show "amap (set_fd i fd s) = (amap s)(fd \<mapsto> slot_at s i)"
    using fd upd i by (intro ext) (auto simp: amap_def slot_of_def split: if_splits)
  show "table_ok (set_fd i fd s)"
    using ok upd(2) [of 0] by (simp add: table_ok_def)
qed

lemma slot_of_notin: "slot_of fd s = None \<Longrightarrow> term_init s \<Longrightarrow> fd \<notin> set (term_fd s)"
  by (simp add: slot_of_def find_fd_None)

text \<open>Another descriptor takes over a slot.\<close>

lemma amap_move:
  assumes ok: "table_ok s" and i: "slot_of old s = Some i" and fd: "fd \<noteq> -1" "fd \<notin> set (term_fd s)" "old \<noteq> -1"
  shows "amap (set_fd i fd s) = (amap s)(old := None, fd := amap s old)" and "table_ok (set_fd i fd s)"
proof -
  have upd: "find_fd g ((term_fd s)[i := fd]) =
      (if g = fd then Some i else if g = old then None else find_fd g (term_fd s))"
    "managed_distinct ((term_fd s)[i := fd])" if "g \<noteq> -1" for g
    using find_fd_update_new [of "term_fd s" i old fd g] ok i fd that
    by (auto simp: table_ok_def dest!: slot_ofD)
  show "amap (set_fd i fd s) = (amap s)(old := None, fd := amap s old)"
    using fd upd i by (intro ext) (auto simp: amap_def slot_of_def split: if_splits)
  show "table_ok (set_fd i fd s)"
    using ok upd(2) [of 0] by (simp add: table_ok_def)
qed

text \<open>The table under a call: its parts are those before the call.\<close>

lemma tbl_slot_of: "tbl s = tbl s' \<Longrightarrow> slot_of fd s = slot_of fd s'"
  by (auto simp: slot_of_def tbl_def)

lemma tbl_slot_at: "tbl s = tbl s' \<Longrightarrow> slot_at s = slot_at s'"
  by (intro ext) (simp add: tbl_def slot_at_def)

context keeps_table
begin

lemma keeps_view:
  "amap (snd (call s)) = amap s" "table_ok (snd (call s)) = table_ok s"
  "slot_of fd (snd (call s)) = slot_of fd s" "slot_at (snd (call s)) = slot_at s"
  using keeps_tbl [of s] by (rule tbl_amap tbl_table_ok tbl_slot_of tbl_slot_at)+

end

lemmas calls_keep_view [simp] =
  flush_call.keeps_view drain_call.keeps_view break_call.keeps_view setattr_call.keeps_view
  setattr_retry.keeps_view drain_retry.keeps_view mbis_call.keeps_view mbic_call.keeps_view
  getattr_call.keeps_view mget_call.keeps_view

lemma acts_keep_view [simp]:
  "amap (event e s) = amap s" "table_ok (event e s) = table_ok s" "slot_of fd (event e s) = slot_of fd s"
  "slot_at (event e s) = slot_at s"
  "amap (usleep n s) = amap s" "table_ok (usleep n s) = table_ok s" "slot_of fd (usleep n s) = slot_of fd s"
  "slot_at (usleep n s) = slot_at s"
  "amap (s\<lparr>term_errno := e'\<rparr>) = amap s" "table_ok (s\<lparr>term_errno := e'\<rparr>) = table_ok s"
  "slot_of fd (s\<lparr>term_errno := e'\<rparr>) = slot_of fd s" "slot_at (s\<lparr>term_errno := e'\<rparr>) = slot_at s"
  "amap (snd (fail e' s)) = amap s" "table_ok (snd (fail e' s)) = table_ok s"
  by (rule tbl_amap tbl_table_ok tbl_slot_of tbl_slot_at; simp add: fail_def)+

lemma fail_sel [simp]: "fst (fail e s) = -1" "tbl (snd (fail e s)) = tbl s" "env (snd (fail e s)) = env s"
  "os_fd (snd (fail e s)) = os_fd s" "os_dev (snd (fail e s)) = os_dev s"
  by (simp_all add: fail_def)

section \<open>Operations on the map\<close>

text \<open>
  A function of the library refines a change \<open>upd\<close> of the map: on failure the map is unchanged (or,
  for the functions that give a terminal up, changed by \<open>upd\<close>), the table stays well formed.
\<close>

lemma edit_next_keeps [simp]:
  "term_fd (snd (edit_next fd f s)) = term_fd s" "term_init (snd (edit_next fd f s)) = term_init s"
  "env (snd (edit_next fd f s)) = env s" "os_cfg (snd (edit_next fd f s)) = os_cfg s"
  "os_fd (snd (edit_next fd f s)) = os_fd s" "os_dev (snd (edit_next fd f s)) = os_dev s"
  by (simp_all add: edit_next_def with_slot_eq fail_def env_def set_next_def split: option.split sum.split)

lemma edit_next_cases:
  assumes "table_ok s" "fd \<noteq> -1"
  shows "case amap s fd of
     None \<Rightarrow> edit_next fd f s = (-1, s\<lparr>term_errno := find_err s\<rparr>)
   | Some (o', c, n) \<Rightarrow>
       (case f s n of
          Inl e \<Rightarrow> edit_next fd f s = fail e s
        | Inr n' \<Rightarrow> fst (edit_next fd f s) = 0 \<and>
                    amap (snd (edit_next fd f s)) = (amap s)(fd \<mapsto> (o', c, n')) \<and>
                    table_ok (snd (edit_next fd f s)))"
proof (cases "slot_of fd s")
  case None
  then show ?thesis using assms by (simp add: amap_def edit_next_def with_slot_eq)
next
  case (Some i)
  then have "amap s fd = Some (slot_at s i)" using assms by (simp add: amap_def)
  then show ?thesis using Some assms amap_set_next [OF assms(1) Some]
    by (auto simp: edit_next_def with_slot_eq slot_at_def upd_next_def split: sum.split)
qed

end
