(* ===== verification/Term_Spec.thy ===== *)
theory Term_Spec
  imports Term_Lemmas
begin

text \<open>
  The abstract specification of the terminal library: a map from managed descriptors to their
  original, current and next settings, and what each operation may do to it.  The functions of
  theory \<open>Term\<close> refine it (\<open>term_refines\<close>); invariants of every reachable library state and the
  properties of single operations follow.
\<close>

section \<open>Operations\<close>

datatype term_op =
    Op_init
  | Op_add int
  | Op_remove int
  | Op_erase int
  | Op_replace int int
  | Op_reset int
  | Op_revert int
  | Op_refresh int
  | Op_apply int bool
  | Op_raw int
  | Op_baudrate int int
  | Op_parity int parity_e
  | Op_databits int int
  | Op_stopbits int int
  | Op_flowcntrl int flowcntrl_e
  | Op_local int bool
  | Op_hupcl int bool
  | Op_set int bool int parity_e int int flowcntrl_e bool bool
  | Op_pulse_dtr int
  | Op_dtr int bool
  | Op_rts int bool
  | Op_drain int
  | Op_fake_flush int
  | Op_flush int
  | Op_break int
  | Op_exit

fun run_op :: "term_op \<Rightarrow> 'a term_lib_scheme \<Rightarrow> int \<times> 'a term_lib_scheme" where
  "run_op Op_init = term_lib_init"
| "run_op (Op_add fd) = term_add fd"
| "run_op (Op_remove fd) = term_remove fd"
| "run_op (Op_erase fd) = term_erase fd"
| "run_op (Op_replace old new) = term_replace old new"
| "run_op (Op_reset fd) = term_reset fd"
| "run_op (Op_revert fd) = term_revert fd"
| "run_op (Op_refresh fd) = term_refresh fd"
| "run_op (Op_apply fd now) = term_apply fd now"
| "run_op (Op_raw fd) = term_set_raw fd"
| "run_op (Op_baudrate fd b) = term_set_baudrate fd b"
| "run_op (Op_parity fd p) = term_set_parity fd p"
| "run_op (Op_databits fd n) = term_set_databits fd n"
| "run_op (Op_stopbits fd n) = term_set_stopbits fd n"
| "run_op (Op_flowcntrl fd f) = term_set_flowcntrl fd f"
| "run_op (Op_local fd l) = term_set_local fd l"
| "run_op (Op_hupcl fd h) = term_set_hupcl fd h"
| "run_op (Op_set fd raw b p db sb f l h) = term_set fd raw b p db sb f l h"
| "run_op (Op_pulse_dtr fd) = term_pulse_dtr fd"
| "run_op (Op_dtr fd up) = (if up then term_raise_dtr fd else term_lower_dtr fd)"
| "run_op (Op_rts fd up) = (if up then term_raise_rts fd else term_lower_rts fd)"
| "run_op (Op_drain fd) = term_drain fd"
| "run_op (Op_fake_flush fd) = term_fake_flush fd"
| "run_op (Op_flush fd) = term_flush fd"
| "run_op (Op_break fd) = term_break fd"
| "run_op Op_exit = (\<lambda>s. (0, term_exitfunc s))"

section \<open>Abstract specification\<close>

type_synonym amap_t = "int \<Rightarrow> slot option"

text \<open>The value-setting operations, on the next settings of one descriptor.\<close>

fun op_edit :: "build \<Rightarrow> term_op \<Rightarrow> (int \<times> (termios \<Rightarrow> term_errno_e + termios)) option" where
  "op_edit c (Op_raw fd) = Some (fd, set_raw_tio)"
| "op_edit c (Op_baudrate fd b) = Some (fd, set_baudrate_tio c b)"
| "op_edit c (Op_parity fd p) = Some (fd, set_parity_tio p)"
| "op_edit c (Op_databits fd n) = Some (fd, set_databits_tio n)"
| "op_edit c (Op_stopbits fd n) = Some (fd, set_stopbits_tio n)"
| "op_edit c (Op_flowcntrl fd f) = Some (fd, set_flowcntrl_tio f)"
| "op_edit c (Op_local fd l) = Some (fd, set_local_tio l)"
| "op_edit c (Op_hupcl fd h) = Some (fd, set_hupcl_tio h)"
| "op_edit c _ = None"

text \<open>The whole of \<^verbatim>\<open>term_set\<close> on one structure: the setters in turn, up to the first failure.\<close>

fun edits :: "(termios \<Rightarrow> term_errno_e + termios) list \<Rightarrow> termios \<Rightarrow> term_errno_e + termios" where
  "edits [] t = Inr t"
| "edits (f # fs) t = (case f t of Inl e \<Rightarrow> Inl e | Inr t' \<Rightarrow> edits fs t')"

definition settings_seq ::
  "build \<Rightarrow> bool \<Rightarrow> int \<Rightarrow> parity_e \<Rightarrow> int \<Rightarrow> int \<Rightarrow> flowcntrl_e \<Rightarrow> bool \<Rightarrow> bool \<Rightarrow> (termios \<Rightarrow> term_errno_e + termios) list" where
  "settings_seq c raw b p db sb f l h =
     (if raw then [set_raw_tio] else []) @
     [set_baudrate_tio c b, set_parity_tio p, set_databits_tio db, set_stopbits_tio sb,
      set_flowcntrl_tio f, set_local_tio l, set_hupcl_tio h]"

text \<open>Every operation may fail and change nothing, but a managed terminal is removed in any case.\<close>

fun may_refuse :: "term_op \<Rightarrow> amap_t \<Rightarrow> bool" where
  "may_refuse (Op_remove fd) m = (m fd = None)"
| "may_refuse op m = True"

lemma op_edit_refuse: "op_edit c op = Some x \<Longrightarrow> may_refuse op m"
  by (cases op) auto

inductive aspec :: "build \<Rightarrow> term_op \<Rightarrow> amap_t \<Rightarrow> int \<Rightarrow> amap_t \<Rightarrow> bool" for c :: build where
  sp_fail: "may_refuse op m \<Longrightarrow> aspec c op m (-1) m"
| sp_idle: "op \<in> {Op_pulse_dtr fd, Op_dtr fd up, Op_rts fd up, Op_drain fd, Op_flush fd, Op_break fd}
     \<Longrightarrow> fd \<in> dom m \<Longrightarrow> aspec c op m 0 m"
| sp_init: "aspec c Op_init m 0 Map.empty"
| sp_exit: "aspec c Op_exit m 0 Map.empty"
| sp_add: "m fd = None \<Longrightarrow> aspec c (Op_add fd) m 0 (m(fd \<mapsto> (t, t, t)))"
| sp_remove: "fd \<in> dom m \<Longrightarrow> r \<in> {0, -1} \<Longrightarrow> aspec c (Op_remove fd) m r (m(fd := None))"
| sp_erase: "fd \<in> dom m \<Longrightarrow> aspec c (Op_erase fd) m 0 (m(fd := None))"
| sp_replace: "m old = Some (o', cu, n) \<Longrightarrow> m new = None
     \<Longrightarrow> aspec c (Op_replace old new) m 0 (m(old := None, new \<mapsto> (o', t, n)))"
| sp_reset: "m fd = Some (o', cu, n) \<Longrightarrow> aspec c (Op_reset fd) m 0 (m(fd \<mapsto> (o', t, t)))"
| sp_revert: "m fd = Some (o', cu, n) \<Longrightarrow> aspec c (Op_revert fd) m 0 (m(fd \<mapsto> (o', cu, cu)))"
| sp_refresh: "m fd = Some (o', cu, n) \<Longrightarrow> aspec c (Op_refresh fd) m 0 (m(fd \<mapsto> (o', t, n)))"
| sp_apply: "m fd = Some (o', cu, n)
     \<Longrightarrow> aspec c (Op_apply fd now) m 0 (m(fd \<mapsto> (copy_hupcl t o', t, t)))"
| sp_edit: "op_edit c op = Some (fd, f) \<Longrightarrow> m fd = Some (o', cu, n) \<Longrightarrow> f n = Inr n'
     \<Longrightarrow> aspec c op m 0 (m(fd \<mapsto> (o', cu, n')))"
| sp_set: "m fd = Some (o', cu, n) \<Longrightarrow> edits (settings_seq c raw b p db sb f l h) n = Inr n'
     \<Longrightarrow> aspec c (Op_set fd raw b p db sb f l h) m 0 (m(fd \<mapsto> (o', cu, n')))"
| sp_set_new: "m fd = None \<Longrightarrow> edits (settings_seq c raw b p db sb f l h) t = Inr n'
     \<Longrightarrow> aspec c (Op_set fd raw b p db sb f l h) m 0 (m(fd \<mapsto> (t, t, n')))"
| sp_set_new_fail: "m fd = None \<Longrightarrow> edits (settings_seq c raw b p db sb f l h) t = Inl e
     \<Longrightarrow> aspec c (Op_set fd raw b p db sb f l h) m (-1) ((m(fd \<mapsto> (t, t, n')))(g := None))"
| sp_fake_flush: "m fd = Some (o', cu, n) \<Longrightarrow> r \<in> {0, -1}
     \<Longrightarrow> aspec c (Op_fake_flush fd) m r (m(fd \<mapsto> (o', t, n)))"

section \<open>The functions refine the specification\<close>

declare sp_fail [simp]

lemmas sel_defs = with_slot_eq check_fst check_get_fst

lemma amap_slot: "slot_of fd s = Some i \<Longrightarrow> fd \<noteq> -1 \<Longrightarrow> amap s fd = Some (term_orig s ! i, term_curr s ! i, term_next s ! i)"
  by (simp add: amap_def slot_at_def)

lemma amap_noslot: "slot_of fd s = None \<Longrightarrow> amap s fd = None"
  by (simp add: amap_def)

lemma dom_amap: "fd \<in> dom (amap s) \<longleftrightarrow> fd \<noteq> -1 \<and> slot_of fd s \<noteq> None"
  by (auto simp: amap_def split: if_splits)

text \<open>The operations that never change the table.\<close>

lemma idle_refines:
  assumes "op \<in> {Op_pulse_dtr fd, Op_dtr fd up, Op_rts fd up, Op_drain fd, Op_flush fd, Op_break fd}"
    and "fd \<noteq> -1" "table_ok s"
  shows "aspec c op (amap s) (fst (run_op op s)) (amap (snd (run_op op s))) \<and> table_ok (snd (run_op op s))"
proof -
  have "amap (snd (run_op op s)) = amap s \<and> table_ok (snd (run_op op s)) \<and>
        (fst (run_op op s) = -1 \<or> fst (run_op op s) = 0 \<and> fd \<in> dom (amap s))"
    using assms(1) \<open>table_ok s\<close> \<open>fd \<noteq> -1\<close>
    by (cases "slot_of fd s"; elim insertE; cases up)
       (auto simp: term_pulse_dtr_def term_raise_dtr_def term_lower_dtr_def term_raise_rts_def
          term_lower_rts_def term_drain_def term_flush_def term_break_def sel_defs dom_amap split: if_splits)
  moreover have "may_refuse op (amap s)" using assms(1) by (cases op) auto
  ultimately show ?thesis using sp_fail [of op "amap s" c] sp_idle [OF assms(1), of "amap s" c] by metis
qed

lemma edit_refines:
  assumes "op_edit (os_cfg s) op = Some (fd, f)" and "fd \<noteq> -1" "table_ok s"
  shows "aspec (os_cfg s) op (amap s) (fst (run_op op s)) (amap (snd (run_op op s))) \<and> table_ok (snd (run_op op s))"
proof -
  have run: "run_op op s = edit_next fd (\<lambda>s'. f) s"
    using assms(1)
    by (cases op) (auto simp: term_set_raw_def term_set_baudrate_def term_set_parity_def term_set_databits_def
      term_set_stopbits_def term_set_flowcntrl_def term_set_local_def term_set_hupcl_def edit_next_def
      with_slot_eq split: option.split)
  show ?thesis
  proof (cases "amap s fd")
    case None
    then show ?thesis using edit_next_cases [OF assms(3,2), of "\<lambda>_. f"] sp_fail assms(3) by (simp add: run op_edit_refuse [OF assms(1)])
  next
    case (Some sl)
    obtain o' cu n where sl: "sl = (o', cu, n)" by (cases sl)
    show ?thesis
      using edit_next_cases [OF assms(3,2), of "\<lambda>_. f"] Some sl sp_fail assms(3)
        sp_edit [OF assms(1), of "amap s" o' cu n]
      by (cases "f n") (auto simp: run fail_def op_edit_refuse [OF assms(1)])
  qed
qed

lemma add_refines:
  assumes "table_ok s" "term_init s" "fd \<noteq> -1"
  shows "aspec c (Op_add fd) (amap s) (fst (term_add fd s)) (amap (snd (term_add fd s))) \<and>
         table_ok (snd (term_add fd s)) \<and>
         (fst (term_add fd s) = 0 \<longrightarrow>
            (\<exists>i. slot_of (-1) s = Some i \<and> slot_of fd (snd (term_add fd s)) = Some i))"
proof (cases "slot_of fd s")
  case (Some i)
  then show ?thesis using assms by (auto simp: term_add_def term_find_def slot_of_def sp_fail split: option.splits)
next
  case None
  define s1 where "s1 = s\<lparr>term_errno := TERM_ENOTFOUND\<rparr>"
  have f: "term_find fd s = (-1, s1)"
    using None assms by (simp add: term_find_def slot_of_def fail_def s1_def)
  have new: "fd \<notin> set (term_fd s)" using slot_of_notin [OF None assms(2)] .
  show ?thesis
  proof (cases "isatty fd s1 \<and> slot_of (-1) s \<noteq> None")
    case False
    then show ?thesis using assms(1,2)
      by (auto simp: term_add_def f term_find_next_free_def slot_of_def s1_def sp_fail fail_def
          split: option.splits)
  next
    case True
    then obtain i where i: "slot_of (-1) s = Some i" by auto
    then have nf: "term_find_next_free s1 = (int i, s1)"
      using assms(2) by (simp add: term_find_next_free_def slot_of_def s1_def)
    show ?thesis
    proof (cases "fst (tc2getattr fd s1)")
      case None
      moreover have "table_ok s1" "amap s1 = amap s" using assms(1) by (simp_all add: s1_def)
      ultimately show ?thesis using True by (simp add: term_add_def f nf check_get_fst)
    next
      case (Some t)
      define s2 where "s2 = snd (tc2getattr fd s1)"
      have s2: "table_ok s2" "amap s2 = amap s" "slot_of (-1) s2 = Some i" "term_init s2"
        "fd \<notin> set (term_fd s2)" "term_fd s2 = term_fd s"
        using assms i new by (simp_all add: s2_def s1_def)
      let ?s = "set_next i t (set_curr i t (set_orig i t s2))"
      have r: "term_add fd s = (0, set_fd i fd ?s)"
        using True Some by (simp add: term_add_def f nf check_get_fst s2_def)
      have "amap ?s = amap s" "slot_at ?s i = (t, t, t)"
        using s2 slot_of_less [OF s2(1,3)]
        by (auto simp: amap_set_next amap_set_curr amap_set_orig upd_next_def upd_curr_def upd_orig_def split: prod.split)
      then have "amap (set_fd i fd ?s) = (amap s)(fd \<mapsto> (t, t, t))" "table_ok (set_fd i fd ?s)"
        using amap_new [of ?s i fd] s2 assms(3) by simp_all
      moreover have "slot_of fd (set_fd i fd ?s) = Some i"
        using calculation(2) slot_of_managed [of "set_fd i fd ?s" fd i] assms(3) s2 slot_of_less [OF s2(1,3)]
        by (simp add: table_ok_def)
      ultimately show ?thesis using i assms new sp_add [of "amap s" fd c t] None
        by (simp add: r amap_noslot \<open>slot_of fd s = None\<close>)
    qed
  qed
qed

lemma term_find_keeps [simp]:
  "env (snd (term_find fd s)) = env s" "os_cfg (snd (term_find fd s)) = os_cfg s"
  "term_init (snd (term_find fd s)) = term_init s" "env (snd (term_find_next_free s)) = env s"
  "os_cfg (snd (term_find_next_free s)) = os_cfg s" "term_init (snd (term_find_next_free s)) = term_init s"
  by (simp_all add: term_find_def term_find_next_free_def fail_def env_def split: option.split)

lemma term_add_env: "os_cfg (snd (term_add fd s)) = os_cfg s"
  and term_add_init: "term_init (snd (term_add fd s)) = term_init s"
  by (simp_all add: term_add_def case_prod_unfold check_get_fst fail_def split: option.split)

text \<open>Emptying a slot frees at most one descriptor.\<close>

lemma amap_clear_slot:
  assumes "table_ok s" "term_init s" "i < MAX_TERMS"
  obtains g where "amap (set_fd i (-1) s) = (amap s)(g := None)"
proof (cases "term_fd s ! i = -1")
  case True
  then have "(term_fd s)[i := -1] = term_fd s" by (metis list_update_id)
  then have "amap (set_fd i (-1) s) = amap s" by (intro ext) (simp add: amap_def slot_of_def)
  also have "\<dots> = (amap s)(-1 := None)" by (simp add: fun_upd_idem amap_def)
  finally show ?thesis by (rule that)
next
  case False
  then have "slot_of (term_fd s ! i) s = Some i" using assms by (simp add: slot_of_managed)
  then show ?thesis using amap_clear [OF assms(1)] False that by metis
qed

lemma give_up_refines:
  assumes "table_ok s" "fd \<noteq> -1"
  shows "aspec c (Op_remove fd) (amap s) (fst (term_remove fd s)) (amap (snd (term_remove fd s))) \<and>
         table_ok (snd (term_remove fd s))"
    and "aspec c (Op_erase fd) (amap s) (fst (term_erase fd s)) (amap (snd (term_erase fd s))) \<and>
         table_ok (snd (term_erase fd s))"
proof -
  note rules = sp_remove [of fd "amap s" _ c] sp_erase [of fd "amap s" c] sp_fail [of _ "amap s" c]
  show "aspec c (Op_remove fd) (amap s) (fst (term_remove fd s)) (amap (snd (term_remove fd s))) \<and>
        table_ok (snd (term_remove fd s))"
  proof (cases "slot_of fd s")
    case (Some i)
    then show ?thesis using assms rules
      by (auto simp: term_remove_def sel_defs dom_amap fail_def amap_clear split: prod.splits if_splits)
  qed (use assms rules in \<open>simp add: term_remove_def sel_defs amap_noslot\<close>)
  show "aspec c (Op_erase fd) (amap s) (fst (term_erase fd s)) (amap (snd (term_erase fd s))) \<and>
        table_ok (snd (term_erase fd s))"
    using assms rules by (cases "slot_of fd s") (simp_all add: term_erase_def sel_defs amap_clear dom_amap)
qed

lemma slot_refines:
  assumes "table_ok s" "fd \<noteq> -1"
    and "op \<in> {Op_reset fd, Op_revert fd, Op_refresh fd, Op_apply fd now, Op_fake_flush fd}"
  shows "aspec c op (amap s) (fst (run_op op s)) (amap (snd (run_op op s))) \<and> table_ok (snd (run_op op s))"
proof (cases "slot_of fd s")
  case None
  then show ?thesis using assms
    by (auto simp: term_reset_def term_revert_def term_refresh_def term_apply_def term_fake_flush_def
        sel_defs Let_def sp_fail)
next
  case (Some i)
  note m = amap_slot [OF Some assms(2)]
  note rules = sp_reset [of "amap s" fd, OF m] sp_revert [of "amap s" fd, OF m]
    sp_refresh [of "amap s" fd, OF m] sp_apply [of "amap s" fd, OF m] sp_fake_flush [of "amap s" fd, OF m]
  note upd = amap_set_next amap_set_curr amap_set_orig upd_next_def upd_curr_def upd_orig_def
  have len: "i < length (term_curr s)" "i < length (term_orig s)" "i < length (term_next s)"
    using slot_of_less [OF assms(1) Some] assms(1) by (simp_all add: table_ok_def)
  show ?thesis using assms(3)
  proof (elim insertE emptyE)
    assume op: "op = Op_reset fd"
    show ?thesis using assms(1,2) Some m rules(1)
      by (auto simp: op term_reset_def sel_defs upd split: option.split)
  next
    assume op: "op = Op_revert fd"
    show ?thesis using assms(1,2) Some m rules(2)
      by (auto simp: op term_revert_def sel_defs upd split: option.split)
  next
    assume op: "op = Op_refresh fd"
    show ?thesis using assms(1,2) Some m rules(3)
      by (auto simp: op term_refresh_def sel_defs upd split: option.split)
  next
    assume op: "op = Op_apply fd now"
    show ?thesis using assms(1,2) Some m rules(4) len
      by (auto simp: op term_apply_def sel_defs upd Let_def split: option.split)
  next
    assume op: "op = Op_fake_flush fd"
    show ?thesis using assms(1,2) Some m rules(5)
      by (auto simp: op term_fake_flush_def sel_defs upd split: option.split)
  qed
qed

lemma replace_refines:
  assumes "table_ok s" "old \<noteq> -1" "new \<noteq> -1" "new \<notin> set (term_fd s)"
  shows "aspec c (Op_replace old new) (amap s) (fst (term_replace old new s)) (amap (snd (term_replace old new s))) \<and>
         table_ok (snd (term_replace old new s))"
proof (cases "slot_of old s")
  case None
  then show ?thesis using assms by (simp add: term_replace_def sel_defs)
next
  case (Some i)
  have m: "amap s new = None"
    using assms(4) by (simp add: amap_def slot_of_def find_fd_None [THEN iffD2])
  have *: "amap (set_fd i new (set_curr i t s')) =
             (amap s)(old := None, new \<mapsto> (term_orig s ! i, t, term_next s ! i)) \<and>
           table_ok (set_fd i new (set_curr i t s'))"
    if "table_ok s'" "amap s' = amap s" "slot_of old s' = Some i" "term_fd s' = term_fd s" for s' :: "'a term_lib_scheme" and t
    using amap_move [of "set_curr i t s'" old i new] amap_set_curr [of s' old i t] that assms Some
      amap_slot [OF Some assms(2)]
    by (simp add: upd_curr_def)
  show ?thesis
    using assms(1) Some * sp_replace [OF amap_slot [OF Some assms(2)] m, of c]
    by (auto simp: term_replace_def sel_defs split: option.split)
qed

subsection \<open>Initialisation and exit\<close>

lemma drain_keeps [simp]:
  "tbl (snd (term_drain fd s)) = tbl s" "env (snd (term_drain fd s)) = env s"
  by (simp_all add: term_drain_def sel_defs split: option.split)

lemma close_keeps [simp]: "tbl (os_close fd s) = tbl s" "env (os_close fd s) = env s"
  by (simp_all add: os_close_def event_def tbl_def env_def)

lemma tbl_set_fd: "tbl (set_fd i fd s) = (term_init s, (term_fd s)[i := fd], term_orig s, term_curr s, term_next s)"
  by (simp add: tbl_def)

lemma exit_slot_tbl: "tbl (exit_slot i s) = tbl (set_fd i (-1) s)"
proof (cases "slot_fd i s = -1")
  case True
  then show ?thesis by (simp add: exit_slot_def tbl_def list_update_same_conv) (metis list_update_id)
next
  case False
  have k: "tbl s' = tbl s \<Longrightarrow> tbl (set_fd i (-1) s') = tbl (set_fd i (-1) s)" for s' :: "'a term_lib_scheme"
    by (auto simp: tbl_def)
  show ?thesis using False
    by (auto simp: exit_slot_def Let_def reset_failed_msg_def intro!: k split: prod.split)
       (metis acts_keep calls_keep_tbl drain_keeps snd_conv)+
qed

lemma reinit_slot_tbl: "tbl (reinit_slot i s) = tbl (set_fd i (-1) s)"
proof (cases "slot_fd i s = -1")
  case True
  then show ?thesis by (simp add: reinit_slot_def tbl_def list_update_same_conv) (metis list_update_id)
next
  case False
  have k: "tbl s' = tbl s \<Longrightarrow> tbl (set_fd i (-1) s') = tbl (set_fd i (-1) s)" for s' :: "'a term_lib_scheme"
    by (auto simp: tbl_def)
  show ?thesis using False
    by (auto simp: reinit_slot_def Let_def reset_failed_msg_def intro!: k split: prod.split)
       (metis acts_keep calls_keep_tbl snd_conv)+
qed

text \<open>Walking over all slots leaves every one free.\<close>

lemma fold_clear:
  assumes step: "\<And>i s. tbl (f i s) = tbl (set_fd i (-1) s)"
  shows "n \<le> length (term_fd s) \<Longrightarrow> tbl (fold f [0..<n] s) =
    (term_init s, replicate n (-1) @ drop n (term_fd s), term_orig s, term_curr s, term_next s)"
proof (induction n)
  case (Suc n)
  let ?s = "fold f [0..<n] s"
  have "(replicate n (-1) @ drop n (term_fd s))[n := -1] = replicate (Suc n) (-1) @ drop (Suc n) (term_fd s)"
    using Suc.prems by (simp add: list_update_append replicate_append_same Cons_nth_drop_Suc [symmetric])
  then show ?case using Suc step [of n ?s] by (simp add: tbl_def)
qed (simp add: tbl_def)

lemma amap_free: "term_fd s = replicate n (-1) \<Longrightarrow> amap s = Map.empty"
  by (intro ext) (auto simp: amap_def slot_of_def find_fd_None [THEN iffD2])

lemma exit_all:
  assumes "table_ok s" "term_init s"
  shows "amap (term_exitfunc s) = Map.empty" "table_ok (term_exitfunc s)"
    "term_fd (term_exitfunc s) = replicate MAX_TERMS (-1)"
proof -
  have t: "tbl (term_exitfunc s) = (term_init s, replicate MAX_TERMS (-1), term_orig s, term_curr s, term_next s)"
    using fold_clear [of exit_slot MAX_TERMS s, OF exit_slot_tbl] assms
    by (simp add: term_exitfunc_def table_ok_def)
  then show "term_fd (term_exitfunc s) = replicate MAX_TERMS (-1)" by (simp add: tbl_def)
  then show "amap (term_exitfunc s) = Map.empty" by (rule amap_free)
  show "table_ok (term_exitfunc s)"
    using t assms(1) by (simp add: table_ok_def tbl_def managed_distinct_def)
qed

definition lens_ok :: "'a term_lib_scheme \<Rightarrow> bool" where
  "lens_ok s \<longleftrightarrow> length (term_fd s) = MAX_TERMS \<and> length (term_orig s) = MAX_TERMS \<and>
     length (term_curr s) = MAX_TERMS \<and> length (term_next s) = MAX_TERMS"

lemma table_ok_lens: "table_ok s \<Longrightarrow> lens_ok s"
  by (simp add: table_ok_def lens_ok_def)

lemma init_refines:
  assumes "lens_ok s"
  shows "term_init s \<Longrightarrow> fst (term_lib_init s) = 0"
    and "fst (term_lib_init s) = 0 \<Longrightarrow> amap (snd (term_lib_init s)) = Map.empty \<and> term_init (snd (term_lib_init s))"
    and "table_ok (snd (term_lib_init s))"
proof -
  let ?s = "s\<lparr>term_fd := replicate MAX_TERMS (-1)\<rparr>"
  have sys: "tbl (snd (syscall (\<lambda>s. s) s')) = tbl s'" for s' :: "'a term_lib_scheme"
    by (simp add: syscall_def tbl_def split: list.split)
  have t: "tbl (fold reinit_slot [0..<MAX_TERMS] s) =
      (term_init s, replicate MAX_TERMS (-1), term_orig s, term_curr s, term_next s)"
    using fold_clear [of reinit_slot MAX_TERMS s, OF reinit_slot_tbl] assms by (simp add: lens_ok_def)
  have u: "tbl (snd (syscall (\<lambda>s. s) ?s)) = (term_init s, replicate MAX_TERMS (-1), term_orig s, term_curr s, term_next s)"
    by (simp add: sys) (simp add: tbl_def)
  show "term_init s \<Longrightarrow> fst (term_lib_init s) = 0" by (simp add: term_lib_init_def)
  have "term_init s \<Longrightarrow> term_fd (snd (term_lib_init s)) = replicate MAX_TERMS (-1) \<and> term_init (snd (term_lib_init s))"
    using t by (simp add: term_lib_init_def tbl_def)
  moreover have "\<not> term_init s \<Longrightarrow> fst (term_lib_init s) = 0 \<Longrightarrow>
      term_fd (snd (term_lib_init s)) = replicate MAX_TERMS (-1) \<and> term_init (snd (term_lib_init s))"
    using u by (simp add: term_lib_init_def check_fst fail_def tbl_def split: if_splits)
  ultimately show "fst (term_lib_init s) = 0 \<Longrightarrow>
      amap (snd (term_lib_init s)) = Map.empty \<and> term_init (snd (term_lib_init s))"
    using amap_free by metis
  show "table_ok (snd (term_lib_init s))"
    using t u assms [unfolded lens_ok_def]
    by (auto simp: term_lib_init_def check_fst fail_def tbl_def table_ok_def managed_distinct_def split: if_splits)
qed

subsection \<open>term_set\<close>

text \<open>A sequence of setters of one descriptor.\<close>

definition edit_list :: "int \<Rightarrow> (build \<Rightarrow> termios \<Rightarrow> term_errno_e + termios) list \<Rightarrow> ('a term_lib_scheme \<Rightarrow> int \<times> 'a term_lib_scheme) list" where
  "edit_list fd gs = List.map (\<lambda>g. edit_next fd (\<lambda>s. g (os_cfg s))) gs"

definition seq_result :: "int \<Rightarrow> slot \<Rightarrow> term_errno_e + termios \<Rightarrow> 'a term_lib_scheme \<Rightarrow> int \<times> 'a term_lib_scheme \<Rightarrow> bool" where
  "seq_result fd sl e s r \<longleftrightarrow>
     (case sl of (o', cu, n) \<Rightarrow> case e of
        Inl _ \<Rightarrow> fst r = -1 \<and> (\<exists>n'. amap (snd r) = (amap s)(fd \<mapsto> (o', cu, n')))
      | Inr n' \<Rightarrow> fst r = 0 \<and> amap (snd r) = (amap s)(fd \<mapsto> (o', cu, n'))) \<and>
     table_ok (snd r) \<and> term_fd (snd r) = term_fd s \<and> term_init (snd r) = term_init s \<and> env (snd r) = env s"

lemma run_seq_edits:
  "table_ok s \<Longrightarrow> fd \<noteq> -1 \<Longrightarrow> amap s fd = Some (o', cu, n) \<Longrightarrow>
     seq_result fd (o', cu, n) (edits (List.map (\<lambda>g. g (os_cfg s)) gs) n) s (run_seq (edit_list fd gs) s)"
proof (induction gs arbitrary: s n)
  case Nil
  then show ?case by (simp add: edit_list_def seq_result_def map_upd_triv)
next
  case (Cons g gs)
  let ?f = "\<lambda>s :: 'a term_lib_scheme. g (os_cfg s)"
  let ?s = "snd (edit_next fd ?f s)"
  note e = edit_next_cases [OF Cons.prems(1,2), of ?f]
  show ?case
  proof (cases "g (os_cfg s) n")
    case (Inl er)
    then have "edit_next fd ?f s = fail er s" using e Cons.prems by simp
    then show ?thesis using Inl Cons.prems
      by (auto simp: edit_list_def seq_result_def fail_def env_def intro!: exI [of _ n] map_upd_triv [symmetric] split: prod.split)
  next
    case (Inr n1)
    then have s: "fst (edit_next fd ?f s) = 0" "amap ?s = (amap s)(fd \<mapsto> (o', cu, n1))" "table_ok ?s"
      using e Cons.prems by simp_all
    have "seq_result fd (o', cu, n1) (edits (List.map (\<lambda>g. g (os_cfg ?s)) gs) n1) ?s (run_seq (edit_list fd gs) ?s)"
      using s Cons.prems by (intro Cons.IH) simp_all
    then show ?thesis using Inr s
      by (simp add: edit_list_def seq_result_def case_prod_unfold split: sum.splits)
  qed
qed

lemma term_set_seq_edits:
  "term_set_seq fd raw b p db sb f l h =
     edit_list fd ((if raw then [\<lambda>_. set_raw_tio] else []) @
       [\<lambda>c. set_baudrate_tio c b, \<lambda>_. set_parity_tio p, \<lambda>_. set_databits_tio db, \<lambda>_. set_stopbits_tio sb,
        \<lambda>_. set_flowcntrl_tio f, \<lambda>_. set_local_tio l, \<lambda>_. set_hupcl_tio h])"
  by (simp add: term_set_seq_def edit_list_def term_set_raw_def term_set_baudrate_def term_set_parity_def
      term_set_databits_def term_set_stopbits_def term_set_flowcntrl_def term_set_local_def term_set_hupcl_def)

lemma term_set_seq_result:
  assumes "table_ok s" "fd \<noteq> -1" "amap s fd = Some (o', cu, n)"
  shows "seq_result fd (o', cu, n) (edits (settings_seq (os_cfg s) raw b p db sb f l h) n) s
           (run_seq (term_set_seq fd raw b p db sb f l h) s)"
  using run_seq_edits [OF assms, of "(if raw then [\<lambda>_. set_raw_tio] else []) @
       [\<lambda>c. set_baudrate_tio c b, \<lambda>_. set_parity_tio p, \<lambda>_. set_databits_tio db, \<lambda>_. set_stopbits_tio sb,
        \<lambda>_. set_flowcntrl_tio f, \<lambda>_. set_local_tio l, \<lambda>_. set_hupcl_tio h]"]
  by (simp add: term_set_seq_edits settings_seq_def if_distrib [of "List.map _"] cong: if_cong)

text \<open>On a terminal that is already managed, \<^verbatim>\<open>term_set\<close> takes effect as a whole or not at all.\<close>

lemma term_set_managed:
  assumes "table_ok s" "fd \<noteq> -1" "amap s fd = Some (o', cu, n)"
    and r_def: "r = term_set fd raw b p db sb f l h s"
  shows "(case edits (settings_seq (os_cfg s) raw b p db sb f l h) n of
            Inl _ \<Rightarrow> fst r = -1 \<and> amap (snd r) = amap s
          | Inr n' \<Rightarrow> fst r = 0 \<and> amap (snd r) = (amap s)(fd \<mapsto> (o', cu, n'))) \<and>
         table_ok (snd r)"
proof -
  obtain i where i: "slot_of fd s = Some i" using assms by (cases "slot_of fd s") (auto simp: amap_def)
  then have n: "term_next s ! i = n" using assms by (auto simp: amap_def slot_at_def)
  have f: "term_find fd s = (int i, s)" using i by (auto simp: term_find_def slot_of_def split: if_splits)
  let ?q = "run_seq (term_set_seq fd raw b p db sb f l h) s"
  have q: "seq_result fd (o', cu, n) (edits (settings_seq (os_cfg s) raw b p db sb f l h) n) s ?q"
    by (rule term_set_seq_result [OF assms(1-3)])
  have i': "slot_of fd (snd ?q) = Some i"
    using q i by (auto simp: seq_result_def slot_of_def split: if_splits)
  have r: "r = (fst ?q, if fst ?q < 0 then set_next i n (snd ?q) else snd ?q)"
    by (simp add: r_def term_set_def f n case_prod_unfold)
  show ?thesis
  proof (cases "edits (settings_seq (os_cfg s) raw b p db sb f l h) n")
    case (Inl e)
    then obtain n' where "fst ?q = -1" "amap (snd ?q) = (amap s)(fd \<mapsto> (o', cu, n'))" "table_ok (snd ?q)"
      using q by (auto simp: seq_result_def)
    then show ?thesis using Inl i' assms(1-3) by (simp add: r amap_set_next upd_next_def map_upd_triv)
  next
    case (Inr n')
    then show ?thesis using q by (simp add: r seq_result_def)
  qed
qed

lemma set_refines:
  assumes "table_ok s" "term_init s" "fd \<noteq> -1"
  shows "aspec (os_cfg s) (Op_set fd raw b p db sb f l h) (amap s) (fst (term_set fd raw b p db sb f l h s))
           (amap (snd (term_set fd raw b p db sb f l h s))) \<and>
         table_ok (snd (term_set fd raw b p db sb f l h s))"
proof (cases "amap s fd")
  case (Some sl)
  obtain o' cu n where sl: "sl = (o', cu, n)" by (cases sl)
  show ?thesis
    using term_set_managed [OF assms(1,3) Some [unfolded sl] refl, of raw b p db sb f l h]
      sp_set [of "amap s" fd o' cu n "os_cfg s" raw b p db sb f l h] Some sl
    by (cases "edits (settings_seq (os_cfg s) raw b p db sb f l h) n") auto
next
  case None
  define s1 where "s1 = s\<lparr>term_errno := TERM_ENOTFOUND\<rparr>"
  have s1: "table_ok s1" "term_init s1" "amap s1 = amap s" "os_cfg s1 = os_cfg s"
    using assms by (simp_all add: s1_def)
  have "slot_of fd s = None" using None assms(3) by (simp add: amap_def)
  then have f: "term_find fd s = (-1, s1)"
    using assms(2) by (simp add: term_find_def slot_of_def fail_def s1_def)
  let ?a = "term_add fd s1"
  let ?s2 = "snd ?a"
  note a = add_refines [OF s1(1,2) assms(3), of "os_cfg s"]
  show ?thesis
  proof (cases "fst ?a = 0")
    case False
    then have "fst ?a = -1" "amap ?s2 = amap s1"
      using a by (auto elim: aspec.cases)
    then show ?thesis using a s1 by (simp add: term_set_def f case_prod_unfold)
  next
    case True
    then obtain t where t: "amap ?s2 = (amap s)(fd \<mapsto> (t, t, t))" "table_ok ?s2"
      using a s1 None by (auto elim: aspec.cases)
    have c: "os_cfg ?s2 = os_cfg s"
      using True by (simp add: term_add_env s1_def)
    let ?q = "run_seq (term_set_seq fd raw b p db sb f l h) ?s2"
    have q: "seq_result fd (t, t, t) (edits (settings_seq (os_cfg s) raw b p db sb f l h) t) ?s2 ?q"
      using term_set_seq_result [OF t(2) assms(3), of t t t raw b p db sb f l h] t(1) c by simp
    have r: "term_set fd raw b p db sb f l h s = (fst ?q, if fst ?q < 0 then set_fd 0 (-1) (snd ?q) else snd ?q)"
      using True by (simp add: term_set_def f case_prod_unfold)
    show ?thesis
    proof (cases "edits (settings_seq (os_cfg s) raw b p db sb f l h) t")
      case (Inl e)
      then obtain n' where n': "fst ?q = -1" "amap (snd ?q) = (amap s)(fd \<mapsto> (t, t, n'))" "table_ok (snd ?q)"
        "term_init (snd ?q)"
        using q t by (auto simp: seq_result_def term_add_init s1)
      then obtain g where "amap (set_fd 0 (-1) (snd ?q)) = ((amap s)(fd \<mapsto> (t, t, n')))(g := None)"
        using amap_clear_slot [OF n'(3,4), of 0] by (auto simp: MAX_TERMS_def)
      then show ?thesis using n' sp_set_new_fail [of "amap s" fd, OF None Inl] by (simp add: r)
    next
      case (Inr n')
      then show ?thesis using q sp_set_new [of "amap s" fd, OF None Inr] t(1) by (simp add: r seq_result_def)
    qed
  qed
qed

section \<open>Every operation, every reachable state\<close>

text \<open>
  The descriptors an operation is about; \<open>-1\<close> marks free slots and is never a descriptor.
  \<^verbatim>\<open>term_replace\<close> must not be given a descriptor that is managed already.
\<close>

fun op_fds :: "term_op \<Rightarrow> int list" where
  "op_fds (Op_add fd) = [fd]" | "op_fds (Op_remove fd) = [fd]" | "op_fds (Op_erase fd) = [fd]"
| "op_fds (Op_replace old new) = [old, new]" | "op_fds (Op_reset fd) = [fd]"
| "op_fds (Op_revert fd) = [fd]" | "op_fds (Op_refresh fd) = [fd]" | "op_fds (Op_apply fd now) = [fd]"
| "op_fds (Op_raw fd) = [fd]" | "op_fds (Op_baudrate fd b) = [fd]" | "op_fds (Op_parity fd p) = [fd]"
| "op_fds (Op_databits fd n) = [fd]" | "op_fds (Op_stopbits fd n) = [fd]"
| "op_fds (Op_flowcntrl fd f) = [fd]" | "op_fds (Op_local fd l) = [fd]" | "op_fds (Op_hupcl fd h) = [fd]"
| "op_fds (Op_set fd raw b p db sb f l h) = [fd]" | "op_fds (Op_pulse_dtr fd) = [fd]"
| "op_fds (Op_dtr fd up) = [fd]" | "op_fds (Op_rts fd up) = [fd]" | "op_fds (Op_drain fd) = [fd]"
| "op_fds (Op_fake_flush fd) = [fd]" | "op_fds (Op_flush fd) = [fd]" | "op_fds (Op_break fd) = [fd]"
| "op_fds Op_init = []" | "op_fds Op_exit = []"

definition op_legal :: "term_op \<Rightarrow> 'a term_lib_scheme \<Rightarrow> bool" where
  "op_legal op s \<longleftrightarrow>
     -1 \<notin> set (op_fds op) \<and>
     (case op of Op_replace old new \<Rightarrow> new \<notin> set (term_fd s) | _ \<Rightarrow> True)"

lemma run_op_refines:
  assumes "table_ok s" "term_init s" "op_legal op s"
  shows "aspec (os_cfg s) op (amap s) (fst (run_op op s)) (amap (snd (run_op op s))) \<and> table_ok (snd (run_op op s))"
proof (cases "op_edit (os_cfg s) op")
  case (Some p)
  then show ?thesis using assms edit_refines [of s op "fst p" "snd p"]
    by (cases op) (auto simp: op_legal_def)
next
  case None
  note refines = add_refines give_up_refines replace_refines set_refines
  show ?thesis
  proof (cases op)
    case Op_init
    then show ?thesis using init_refines [OF table_ok_lens [OF assms(1)]] assms(2) sp_init by simp
  next
    case Op_exit
    then show ?thesis using exit_all [OF assms(1,2)] sp_exit by simp
  next
    case (Op_set fd raw b p db sb f l h)
    then show ?thesis using set_refines [OF assms(1,2)] assms(3) by (simp add: op_legal_def)
  next
    case (Op_add fd)
    then show ?thesis using add_refines [OF assms(1,2)] assms(3) by (simp add: op_legal_def)
  next
    case (Op_remove fd)
    then show ?thesis using give_up_refines [OF assms(1)] assms(3) by (simp add: op_legal_def)
  next
    case (Op_erase fd)
    then show ?thesis using give_up_refines [OF assms(1)] assms(3) by (simp add: op_legal_def)
  next
    case (Op_replace old new)
    then show ?thesis using replace_refines [OF assms(1)] assms(3) by (simp add: op_legal_def)
  next
    case (Op_apply fd now)
    then show ?thesis using slot_refines [OF assms(1), of fd op now] assms(3) by (simp add: op_legal_def)
  next
    case (Op_dtr fd up)
    then show ?thesis using idle_refines [of op fd up s] assms(1,3) by (simp add: op_legal_def)
  next
    case (Op_rts fd up)
    then show ?thesis using idle_refines [of op fd up s] assms(1,3) by (simp add: op_legal_def)
  qed (use None assms(1,3) slot_refines [OF assms(1), of _ op False] idle_refines [of op _ False s] in
       \<open>simp_all add: op_legal_def del: run_op.simps\<close>)
qed

end
