(* ===== verification/Term_Props.thy ===== *)
theory Term_Props
  imports Term_Spec
begin

text \<open>
  Properties of the terminal library: refinement and the invariant of reachable states, what is
  restored in the end, the contract of \<^verbatim>\<open>term_set\<close> and \<^verbatim>\<open>term_apply\<close>, exit, the fake flush and the
  modem control lines.
\<close>

section \<open>Reachable states\<close>

text \<open>
  From a successful \<^verbatim>\<open>term_lib_init\<close>: operations, and anything the rest of the program and of the
  machine does without touching the table.
\<close>

inductive term_reach :: "'a term_lib_scheme \<Rightarrow> bool" where
  tr_start: "lens_ok s \<Longrightarrow> fst (term_lib_init s) = 0 \<Longrightarrow> term_reach (snd (term_lib_init s))"
| tr_op: "term_reach s \<Longrightarrow> op_legal op s \<Longrightarrow> term_reach (snd (run_op op s))"
| tr_env: "term_reach s \<Longrightarrow> tbl s' = tbl s \<Longrightarrow> term_reach s'"

lemma run_seq_init:
  "(\<And>f s. f \<in> set fs \<Longrightarrow> term_init (snd (f s)) = term_init s) \<Longrightarrow>
     term_init (snd (run_seq fs s)) = term_init (s :: 'a term_lib_scheme)"
  by (induction fs arbitrary: s) (auto simp: case_prod_unfold)

lemma term_set_init: "term_init (snd (term_set fd raw b p db sb f l h s)) = term_init s"
proof -
  have "term_init (snd (run_seq (term_set_seq fd raw b p db sb f l h) s')) = term_init s'" for s' :: "'a term_lib_scheme"
    by (rule run_seq_init) (auto simp: term_set_seq_edits edit_list_def split: if_splits)
  then show ?thesis by (simp add: term_set_def case_prod_unfold term_add_init)
qed

lemma op_keeps_init: "term_init s \<Longrightarrow> term_init (snd (run_op op s))" if "table_ok s"
proof (cases op)
  case Op_init
  then show "term_init s \<Longrightarrow> ?thesis" using init_refines [OF table_ok_lens [OF that]] by simp
next
  case Op_exit
  have "tbl (fold exit_slot [0..<MAX_TERMS] s) = (term_init s, replicate MAX_TERMS (-1), term_orig s, term_curr s, term_next s)"
    using fold_clear [of exit_slot MAX_TERMS s, OF exit_slot_tbl] that by (simp add: table_ok_def)
  then show "term_init s \<Longrightarrow> ?thesis" using Op_exit by (simp add: term_exitfunc_def tbl_def)
next
  case (Op_set fd raw b p db sb f l h)
  then show "term_init s \<Longrightarrow> ?thesis" by (simp add: term_set_init)
next
  case (Op_remove fd)
  then show "term_init s \<Longrightarrow> ?thesis"
    by (simp add: term_remove_def sel_defs fail_def case_prod_unfold split: option.split)
qed (auto simp: term_add_init term_erase_def term_replace_def term_reset_def term_revert_def term_refresh_def
      term_apply_def term_set_raw_def term_set_baudrate_def term_set_parity_def term_set_databits_def
      term_set_stopbits_def term_set_flowcntrl_def term_set_local_def term_set_hupcl_def term_pulse_dtr_def
      term_raise_dtr_def term_lower_dtr_def term_raise_rts_def term_lower_rts_def term_drain_def
      term_fake_flush_def term_flush_def term_break_def sel_defs fail_def Let_def usleep_def event_def split: option.split)

lemma reach_ok: "term_reach s \<Longrightarrow> table_ok s \<and> term_init s"
proof (induction rule: term_reach.induct)
  case (tr_start s)
  then show ?case using init_refines(2,3) [OF tr_start(1)] by simp
next
  case (tr_op s op)
  then show ?case using run_op_refines [of s op] op_keeps_init [of s op] by simp
next
  case (tr_env s s')
  then show ?case using tbl_table_ok [of s' s] by (simp add: tbl_def)
qed

section \<open>What setters make of the settings\<close>

definition raw_line :: "termios \<Rightarrow> flags \<times> flags \<times> 8 word list" where
  "raw_line t = (c_lflag t AND NOT (ECHO OR ECHONL OR ICANON OR ISIG OR IEXTEN), c_oflag t AND NOT OPOST,
                 (c_cc t)[VMIN := 1, VTIME := 0])"

definition all_valid :: "build \<Rightarrow> int \<Rightarrow> parity_e \<Rightarrow> int \<Rightarrow> int \<Rightarrow> flowcntrl_e \<Rightarrow> bool" where
  "all_valid c b p db sb f \<longleftrightarrow>
     baud_valid c b \<and> p \<noteq> P_ERROR \<and> db \<in> {5, 6, 7, 8} \<and> sb \<in> {1, 2} \<and> f \<in> {FC_NONE, FC_RTSCTS, FC_XONXOFF}"

definition requested ::
  "int \<Rightarrow> parity_e \<Rightarrow> int \<Rightarrow> int \<Rightarrow> flowcntrl_e \<Rightarrow> bool \<Rightarrow> bool \<Rightarrow> flags \<times> flags \<times> 8 word list \<Rightarrow> port_params" where
  "requested b p db sb f l h line =
     \<lparr>pp_baud = b, pp_parity = p, pp_databits = db, pp_stopbits = sb, pp_flow = f, pp_local = l,
      pp_hupcl = h, pp_line = line\<rparr>"

lemma raw_cc: "xs[VMIN := 1, VTIME := 0, VMIN := 1, VTIME := 0] = xs[VMIN := 1, VTIME := 0]"
  by (simp add: VMIN_def VTIME_def list_update_swap [of 6 5])

lemma set_raw_line: "set_raw_tio t = Inr t' \<Longrightarrow> pp_line (params_of c t') = raw_line t"
  by (auto simp: set_raw_tio_def cfmakeraw_def params_of_def raw_line_def Let_def raw_cc)

lemma set_flags_Inr: "\<exists>t'. set_local_tio l t = Inr t'" "\<exists>t'. set_hupcl_tio h t = Inr t'" "\<exists>t'. set_raw_tio t = Inr t'"
  by (auto simp: set_local_tio_def set_hupcl_tio_def set_raw_tio_def Let_def)

lemma edits_Inr:
  "edits (f # fs) t = Inr t' \<longleftrightarrow> (\<exists>t1. f t = Inr t1 \<and> edits fs t1 = Inr t')"
  "edits [] t = Inr t' \<longleftrightarrow> t = t'"
  by (auto split: sum.split)

lemma settings_Inr_iff:
  "(\<exists>t'. edits (settings_seq c False b p db sb f l h) t = Inr t') \<longleftrightarrow> all_valid c b p db sb f"
proof
  assume "\<exists>t'. edits (settings_seq c False b p db sb f l h) t = Inr t'"
  then show "all_valid c b p db sb f"
    unfolding settings_seq_def all_valid_def if_False append_Nil edits_Inr
    using set_baudrate_accept par.accepted_iff dat.accepted_iff stp.accepted_iff flw.accepted_iff by metis
next
  assume v: "all_valid c b p db sb f"
  obtain t1 where 1: "set_baudrate_tio c b t = Inr t1" using v set_baudrate_accept all_valid_def by metis
  obtain t2 where 2: "set_parity_tio p t1 = Inr t2" using v par.set_valid all_valid_def by metis
  obtain t3 where 3: "set_databits_tio db t2 = Inr t3" using v dat.set_valid all_valid_def by metis
  obtain t4 where 4: "set_stopbits_tio sb t3 = Inr t4" using v stp.set_valid all_valid_def by metis
  obtain t5 where 5: "set_flowcntrl_tio f t4 = Inr t5" using v flw.set_valid all_valid_def by metis
  obtain t6 where 6: "set_local_tio l t5 = Inr t6" using set_flags_Inr by metis
  obtain t7 where 7: "set_hupcl_tio h t6 = Inr t7" using set_flags_Inr by metis
  show "\<exists>t'. edits (settings_seq c False b p db sb f l h) t = Inr t'"
    by (simp add: settings_seq_def 1 2 3 4 5 6 7)
qed

lemma settings_params:
  assumes "c_int_type b" "edits (settings_seq c False b p db sb f l h) t = Inr t7"
  shows "params_of c t7 = requested b p db sb f l h (pp_line (params_of c t))"
proof -
  obtain t1 t2 t3 t4 t5 t6 where
    1: "set_baudrate_tio c b t = Inr t1" and 2: "set_parity_tio p t1 = Inr t2" and
    3: "set_databits_tio db t2 = Inr t3" and 4: "set_stopbits_tio sb t3 = Inr t4" and
    5: "set_flowcntrl_tio f t4 = Inr t5" and 6: "set_local_tio l t5 = Inr t6" and
    7: "set_hupcl_tio h t6 = Inr t7"
    using assms(2) unfolding settings_seq_def if_False append_Nil edits_Inr by metis
  show ?thesis
    unfolding params_of_hupcl [OF 7] params_of_local [OF 6] params_of_flow [OF 5] params_of_stopbits [OF 4]
      params_of_databits [OF 3] params_of_parity [OF 2] params_of_baudrate [OF assms(1) 1]
    by (simp add: requested_def)
qed

lemma settings_raw: "\<exists>t0. edits (settings_seq c raw b p db sb f l h) t = edits (settings_seq c False b p db sb f l h) t0 \<and>
    pp_line (params_of c t0) = (if raw then raw_line t else pp_line (params_of c t))"
proof (cases raw)
  case True
  obtain t0 where "set_raw_tio t = Inr t0" using set_flags_Inr by metis
  then show ?thesis using True set_raw_line [of t t0 c] by (intro exI [of _ t0]) (simp add: settings_seq_def)
qed auto

lemma edits_settings:
  assumes "c_int_type b"
  shows "case edits (settings_seq c raw b p db sb f l h) t of
           Inl _ \<Rightarrow> \<not> all_valid c b p db sb f
         | Inr t' \<Rightarrow> all_valid c b p db sb f \<and>
             params_of c t' = requested b p db sb f l h (if raw then raw_line t else pp_line (params_of c t))"
proof -
  obtain t0 where e: "edits (settings_seq c raw b p db sb f l h) t = edits (settings_seq c False b p db sb f l h) t0"
    and line: "pp_line (params_of c t0) = (if raw then raw_line t else pp_line (params_of c t))"
    using settings_raw by blast
  show ?thesis
    unfolding e line [symmetric]
    using settings_Inr_iff [of c b p db sb f l h t0] settings_params [OF assms, of c p db sb f l h t0]
    by (cases "edits (settings_seq c False b p db sb f l h) t0") auto
qed

section \<open>Events and devices\<close>

text \<open>With the script of outcomes used up, a call on a terminal succeeds.\<close>

lemma tty_call_ok: "os_fd s fd = Some d \<Longrightarrow> os_faults s = [] \<Longrightarrow> tty_call fd act s = (True, act d s)"
  by (simp add: tty_call_def syscall_def)

lemma retry_ok: "os_fd s fd = Some d \<Longrightarrow> os_faults s = [] \<Longrightarrow> retry_eintr act fd s = (True, act d s)"
  by (subst retry_eintr.simps) (simp add: tty_call_ok)

lemma calls_ok:
  assumes "os_fd s fd = Some d" "os_faults s = []"
  shows "tc2setattr fd when t s = (True, setattr_act fd when t d s)"
    "tc2getattr fd s = (Some (of_termios2 (dv_tio (os_dev s d))), s)"
    "tcflush fd q s = (True, event (E_flush fd q) s)" "tcdrain fd s = (True, event (E_drain fd) s)"
    "TIOCMBIS fd w s = (True, event (E_mctl fd (dv_mctl (os_dev s d) OR w))
       (upd_dev d (\<lambda>v. v\<lparr>dv_mctl := dv_mctl v OR w\<rparr>) s))"
    "TIOCMBIC fd w s = (True, event (E_mctl fd (dv_mctl (os_dev s d) AND NOT w))
       (upd_dev d (\<lambda>v. v\<lparr>dv_mctl := dv_mctl v AND NOT w\<rparr>) s))"
    "TIOCMGET fd s = (Some (dv_mctl (os_dev s d)), s)"
  using assms
  by (simp_all add: tc2setattr_def tc2getattr_def tcflush_def tcdrain_def TIOCMBIS_def TIOCMBIC_def
      ioctl_mctl_def TIOCMGET_def tty_call_ok)

lemma usleep_sel [simp]:
  "os_fd (usleep n s) = os_fd s" "os_faults (usleep n s) = os_faults s" "os_dev (usleep n s) = os_dev s"
  "os_evs (usleep n s) = os_evs s @ [E_usleep n]" "os_drv (usleep n s) = os_drv s" "os_cfg (usleep n s) = os_cfg s"
  by (simp_all add: usleep_def)

lemma setattr_act_sel [simp]:
  "os_fd (setattr_act fd when t d s) = os_fd s" "os_faults (setattr_act fd when t d s) = os_faults s"
  "os_evs (setattr_act fd when t d s) = os_evs s @ [E_setattr fd when t]"
  "os_dev (setattr_act fd when t d s) = (os_dev s)(d := (os_dev s d)\<lparr>dv_tio := os_drv s d (to_termios2 t)\<rparr>)"
  "os_drv (setattr_act fd when t d s) = os_drv s" "os_cfg (setattr_act fd when t d s) = os_cfg s"
  by (simp_all add: setattr_act_def)

lemma acts_keep_tbl [simp]:
  "term_init (event e s) = term_init s" "term_fd (event e s) = term_fd s" "term_orig (event e s) = term_orig s"
  "term_curr (event e s) = term_curr s" "term_next (event e s) = term_next s"
  "term_init (usleep n s) = term_init s" "term_fd (usleep n s) = term_fd s" "term_orig (usleep n s) = term_orig s"
  "term_curr (usleep n s) = term_curr s" "term_next (usleep n s) = term_next s"
  "term_init (setattr_act fd when t d s) = term_init s" "term_fd (setattr_act fd when t d s) = term_fd s"
  "term_orig (setattr_act fd when t d s) = term_orig s" "term_curr (setattr_act fd when t d s) = term_curr s"
  "term_next (setattr_act fd when t d s) = term_next s"
  by (simp_all add: event_def usleep_def setattr_act_def upd_dev_def)

lemma setattr_act_view [simp]:
  "amap (setattr_act fd when t d s) = amap s" "table_ok (setattr_act fd when t d s) = table_ok s"
  "slot_of fd' (setattr_act fd when t d s) = slot_of fd' s" "slot_at (setattr_act fd when t d s) = slot_at s"
  by (rule tbl_amap tbl_table_ok tbl_slot_of tbl_slot_at; simp)+

lemma set_os [simp]:
  "os_faults (set_fd i fd s) = os_faults s" "os_faults (set_orig i t s) = os_faults s"
  "os_faults (set_curr i t s) = os_faults s" "os_faults (set_next i t s) = os_faults s"
  "os_evs (set_fd i fd s) = os_evs s" "os_evs (set_orig i t s) = os_evs s"
  "os_evs (set_curr i t s) = os_evs s" "os_evs (set_next i t s) = os_evs s"
  "os_drv (set_fd i fd s) = os_drv s" "os_drv (set_orig i t s) = os_drv s"
  "os_drv (set_curr i t s) = os_drv s" "os_drv (set_next i t s) = os_drv s"
  by (simp_all add: set_fd_def set_orig_def set_curr_def set_next_def)

lemma amap_Some:
  "amap s fd = Some (o', cu, n) \<longleftrightarrow>
     fd \<noteq> -1 \<and> (\<exists>i. slot_of fd s = Some i \<and> o' = term_orig s ! i \<and> cu = term_curr s ! i \<and> n = term_next s ! i)"
  by (auto simp: amap_def slot_at_def)

text \<open>The exact effect of \<^verbatim>\<open>term_apply\<close> when no call fails.\<close>

lemma term_apply_ok:
  assumes "table_ok s" "amap s fd = Some (o', cu, n)" "os_fd s fd = Some d" "os_faults s = []"
    and t_def: "t = of_termios2 (os_drv s d (to_termios2 n))" and s'_def: "s' = snd (term_apply fd now s)"
  shows "fst (term_apply fd now s) = 0" "amap s' = (amap s)(fd \<mapsto> (copy_hupcl t o', t, t))" "table_ok s'"
    "dv_tio (os_dev s' d) = os_drv s d (to_termios2 n)" "os_cfg s' = os_cfg s" "term_init s' = term_init s"
    "os_fd s' = os_fd s" "os_faults s' = []" "os_evs s' = os_evs s @ [E_setattr fd (if now then TCSANOW else TCSAFLUSH) n]"
proof -
  obtain i where i: "slot_of fd s = Some i" "n = term_next s ! i" "o' = term_orig s ! i" "fd \<noteq> -1"
    using assms(2) by (auto simp: amap_Some)
  have len: "i < length (term_curr s)" "i < length (term_orig s)" "i < length (term_next s)"
    using slot_of_less [OF assms(1) i(1)] assms(1) by (simp_all add: table_ok_def)
  have fd: "slot_fd i s = fd" using slot_ofD [OF i(1)] by simp
  let ?when = "if now then TCSANOW else TCSAFLUSH"
  let ?s1 = "setattr_act fd ?when n d s"
  have r: "term_apply fd now s =
      (0, set_orig i (copy_hupcl t o') (set_curr i t (set_next i t ?s1)))"
    using assms(3,4) len
    by (cases now) (simp_all add: term_apply_def with_slot_eq i(1) check_def check_get_def fd calls_ok
        i(2,3) [symmetric] t_def Let_def)
  show "fst (term_apply fd now s) = 0" by (simp add: r)
  show "amap s' = (amap s)(fd \<mapsto> (copy_hupcl t o', t, t))" "table_ok s'"
    using assms(1,2) i(1,4)
    by (simp_all add: s'_def r amap_set_orig amap_set_curr amap_set_next upd_orig_def upd_curr_def upd_next_def)
  show "dv_tio (os_dev s' d) = os_drv s d (to_termios2 n)" "os_cfg s' = os_cfg s" "term_init s' = term_init s"
    by (simp_all add: s'_def r)
  show "os_fd s' = os_fd s" "os_faults s' = []" "os_evs s' = os_evs s @ [E_setattr fd (if now then TCSANOW else TCSAFLUSH) n]"
    using assms(4) by (simp_all add: s'_def r setattr_act_def)
qed

lemma getters_curr:
  assumes "amap s fd = Some (o', cu, n)"
  shows "fst (fst (term_get_baudrate fd b s)) = get_baudrate_tio (os_cfg s) cu"
    "fst (term_get_parity fd s) = get_parity_tio cu" "fst (term_get_databits fd s) = get_databits_tio cu"
    "fst (term_get_stopbits fd s) = get_stopbits_tio cu" "fst (term_get_flowcntrl fd s) = get_flowcntrl_tio cu"
  using assms
  by (auto simp: amap_Some term_get_baudrate_def term_get_parity_def term_get_databits_def
      term_get_stopbits_def term_get_flowcntrl_def with_slot_eq Let_def)

text \<open>The setters touch nothing but the table.\<close>

definition hw :: "'a os_scheme \<Rightarrow> nat list \<times> (int \<Rightarrow> nat option) \<times> (nat \<Rightarrow> tty_dev) \<times> os_event list \<times> build \<times> (nat \<Rightarrow> termios2 \<Rightarrow> termios2)" where
  "hw s = (os_faults s, os_fd s, os_dev s, os_evs s, os_cfg s, os_drv s)"

lemma edit_next_hw: "hw (snd (edit_next fd f s)) = hw s"
  by (simp add: edit_next_def with_slot_eq fail_def hw_def set_next_def split: option.split sum.split)

lemma run_seq_hw: "(\<And>f s. f \<in> set fs \<Longrightarrow> hw (snd (f s)) = hw s) \<Longrightarrow> hw (snd (run_seq fs s)) = hw (s :: 'a term_lib_scheme)"
  by (induction fs arbitrary: s) (auto simp: case_prod_unfold)

lemma term_set_hw:
  assumes "table_ok s" "amap s fd = Some (o', cu, n)"
  shows "hw (snd (term_set fd raw b p db sb f l h s)) = hw s" "term_init (snd (term_set fd raw b p db sb f l h s)) = term_init s"
proof -
  obtain i where i: "slot_of fd s = Some i" using assms(2) by (auto simp: amap_Some)
  then have "term_find fd s = (int i, s)" by (auto simp: term_find_def slot_of_def split: if_splits)
  moreover have "hw (snd (run_seq (term_set_seq fd raw b p db sb f l h) s)) = hw s"
    by (rule run_seq_hw) (auto simp: term_set_seq_edits edit_list_def edit_next_hw split: if_splits)
  moreover have "hw (set_next i t s') = hw s'" for t and s' :: "'a term_lib_scheme" by (simp add: hw_def)
  ultimately show "hw (snd (term_set fd raw b p db sb f l h s)) = hw s"
    by (simp add: term_set_def case_prod_unfold)
qed (rule term_set_init)

subsection \<open>Exit\<close>

lemma retry_setattr:
  "if fst (retry_eintr (setattr_act fd when t) fd s)
   then os_evs (snd (retry_eintr (setattr_act fd when t) fd s)) = os_evs s @ [E_setattr fd when t]
   else os_evs (snd (retry_eintr (setattr_act fd when t) fd s)) = os_evs s"
proof (induction "setattr_act fd when t :: nat \<Rightarrow> 'a os_scheme \<Rightarrow> 'a os_scheme" fd s rule: retry_eintr.induct)
  case (1 fd s)
  obtain ok s1 where c: "tty_call fd (setattr_act fd when t) s = (ok, s1)" by fastforce
  have e: "os_evs s1 = (if ok then os_evs s @ [E_setattr fd when t] else os_evs s)"
    using c by (auto simp: tty_call_def syscall_def split: option.splits list.splits if_splits)
  show ?case
    using 1 [OF c [symmetric] refl] e by (subst (1 2 3) retry_eintr.simps) (auto simp: c)
qed

lemma retry_evs:
  "(\<And>s. \<exists>es. os_evs (snd (tty_call fd act s)) = os_evs s @ es) \<Longrightarrow>
     \<exists>es. os_evs (snd (retry_eintr act fd s)) = os_evs s @ es"
proof (induction act fd s rule: retry_eintr.induct)
  case (1 act fd s)
  obtain ok s1 where c: "tty_call fd act s = (ok, s1)" by fastforce
  obtain e where e: "os_evs s1 = os_evs s @ e" using 1(2) [of s] c by auto
  show ?case
    using 1(1) [OF c [symmetric] refl _ 1(2)] e by (subst retry_eintr.simps) (auto simp: c)
qed

lemma drain_evs: "\<exists>es. os_evs (snd (term_drain fd s)) = os_evs s @ es"
proof -
  have "\<exists>es. os_evs (snd (retry_eintr (\<lambda>_. event (E_drain fd)) fd s)) = os_evs s @ es"
    by (rule retry_evs) (simp add: tty_call_def syscall_def split: option.split list.split)
  then show ?thesis
    by (auto simp: term_drain_def sel_defs fail_def split: option.split)
qed

lemma flush_evs: "\<exists>es. os_evs (snd (tcflush fd q s)) = os_evs s @ es"
  by (simp add: tcflush_def tty_call_def syscall_def split: option.split list.split)

text \<open>What happens to one descriptor on exit.\<close>

definition put_back :: "int \<Rightarrow> termios \<Rightarrow> os_event list \<Rightarrow> bool" where
  "put_back fd t es \<longleftrightarrow> (E_setattr fd TCSANOW t \<in> set es \<or> (\<exists>m. E_stderr m \<in> set es)) \<and> E_close fd \<in> set es"

lemma exit_slot_evs:
  assumes "slot_fd i s \<noteq> -1"
  shows "\<exists>es. os_evs (exit_slot i s) = os_evs s @ es \<and> put_back (slot_fd i s) (term_orig s ! i) es"
proof -
  let ?fd = "slot_fd i s"
  define s1 where "s1 = snd (term_drain ?fd s)"
  define s2 where "s2 = snd (tcflush ?fd TCIFLUSH s1)"
  define s3 where "s3 = snd (retry_eintr (setattr_act ?fd TCSANOW (term_orig s ! i)) ?fd s2)"
  define ok where "ok = fst (retry_eintr (setattr_act ?fd TCSANOW (term_orig s ! i)) ?fd s2)"
  obtain a b where ab: "os_evs s1 = os_evs s @ a" "os_evs s2 = os_evs s1 @ b"
    using drain_evs flush_evs s1_def s2_def by metis
  have o: "term_orig (snd (term_drain ?fd s)) = term_orig s" using tbl_eqD(3) [OF drain_keeps(1)] .
  have s3: "os_evs s3 = os_evs s2 @ (if ok then [E_setattr ?fd TCSANOW (term_orig s ! i)] else [])"
    using retry_setattr [of ?fd TCSANOW "term_orig s ! i" s2] by (simp add: s3_def ok_def split: if_splits)
  define s4 where "s4 = (if ok then s3 else reset_failed_msg ''term_exitfunc'' ?fd crlf s3)"
  define s5 where "s5 = (if USE_FLOCK (os_cfg s4) then event (E_unlock ?fd) s4 else s4)"
  have "exit_slot i s = set_fd i (-1) (os_close ?fd s5)"
    using assms by (simp add: exit_slot_def Let_def case_prod_unfold s5_def s4_def s3_def ok_def s2_def s1_def o)
  moreover obtain c where "os_evs s4 = os_evs s3 @ c" "\<not> ok \<Longrightarrow> (\<exists>m. E_stderr m \<in> set c)"
    by (cases ok) (auto simp: s4_def reset_failed_msg_def)
  moreover obtain e where "os_evs s5 = os_evs s4 @ e" by (cases "USE_FLOCK (os_cfg s4)") (auto simp: s5_def)
  ultimately show ?thesis
    using ab s3 by (auto simp: os_close_def put_back_def)
qed

lemma exit_fold_evs:
  "n \<le> length (term_fd s) \<Longrightarrow>
     (\<exists>es. os_evs (fold exit_slot [0..<n] s) = os_evs s @ es \<and>
           (\<forall>i<n. term_fd s ! i \<noteq> -1 \<longrightarrow> put_back (term_fd s ! i) (term_orig s ! i) es))"
proof (induction n)
  case (Suc n)
  let ?s = "fold exit_slot [0..<n] s"
  obtain es where es: "os_evs ?s = os_evs s @ es"
    "\<forall>i<n. term_fd s ! i \<noteq> -1 \<longrightarrow> put_back (term_fd s ! i) (term_orig s ! i) es"
    using Suc by auto
  have "tbl ?s = (term_init s, replicate n (-1) @ drop n (term_fd s), term_orig s, term_curr s, term_next s)"
    using Suc.prems by (intro fold_clear [of exit_slot, OF exit_slot_tbl]) simp
  then have n: "term_fd ?s ! n = term_fd s ! n" "term_orig ?s = term_orig s"
    using Suc.prems by (simp_all add: tbl_def nth_append)
  show ?case
  proof (cases "term_fd s ! n = -1")
    case True
    then have "exit_slot n ?s = ?s" using n by (simp add: exit_slot_def)
    then show ?thesis using es True by (auto simp: less_Suc_eq)
  next
    case False
    then obtain e2 where e2: "os_evs (exit_slot n ?s) = os_evs ?s @ e2" "put_back (term_fd s ! n) (term_orig s ! n) e2"
      using exit_slot_evs [where i = n and s = ?s] n by auto
    then show ?thesis using es
      by (intro exI [of _ "es @ e2"]) (auto simp: put_back_def less_Suc_eq)
  qed
qed simp

section \<open>A concrete library state\<close>

text \<open>
  Standard input (descriptor 0) and a serial port (descriptor 3), both managed: used to show that
  the hypotheses of the properties can be met.
\<close>

definition sample_tio :: termios2 where
  "sample_tio =
     \<lparr>k_iflag = 0x100, k_oflag = 5, k_cflag = 0xCBD, k_lflag = 0x8A3B, k_line = 0,
      k_cc = replicate 19 0, k_ispeed = 13, k_ospeed = 13\<rparr>"

definition sample_cfg :: build where
  "sample_cfg = \<lparr>USE_CUSTOM_BAUD = True, NO_CUSTOM_BAUD = False, HIGH_BAUD = False, USE_FLOCK = True,
     NDEBUG = False, TTY_Q_SZ = 32768\<rparr>"

definition sample :: term_lib where
  "sample =
     \<lparr>os_cfg = sample_cfg, os_fd = [0 \<mapsto> 0, 3 \<mapsto> 1], os_dev = (\<lambda>_. \<lparr>dv_tio = sample_tio, dv_mctl = 6\<rparr>),
      os_drv = (\<lambda>_ k. k), os_faults = [], os_wres = [], os_in = (\<lambda>_. []), os_out = (\<lambda>_. []),
      os_evs = [], os_errno = 0, os_strerror = (\<lambda>_. ''error''), os_ttyname = (\<lambda>_. None),
      term_init = True, term_fd = 0 # 3 # replicate 14 (-1),
      term_orig = replicate 16 (of_termios2 sample_tio), term_curr = replicate 16 (of_termios2 sample_tio),
      term_next = replicate 16 (of_termios2 sample_tio), term_errno = TERM_EOK\<rparr>"

lemma sample_ok: "table_ok sample" "term_init sample" "os_faults sample = []" "os_cfg sample = sample_cfg"
  "os_fd sample 3 = Some 1" "os_drv sample d k = k"
  by (simp_all add: table_ok_def sample_def MAX_TERMS_def managed_distinct_def)

lemma sample_amap:
  "amap sample 3 = Some (of_termios2 sample_tio, of_termios2 sample_tio, of_termios2 sample_tio)"
  "amap sample 0 = Some (of_termios2 sample_tio, of_termios2 sample_tio, of_termios2 sample_tio)"
  by (simp_all add: amap_def slot_of_def slot_at_def sample_def)

section \<open>Properties\<close>





text \<open>A run of the library during which a descriptor is managed all the time.\<close>

inductive managed_run :: "int \<Rightarrow> 'a term_lib_scheme \<Rightarrow> 'a term_lib_scheme \<Rightarrow> bool" for fd s where
  mr_refl: "managed_run fd s s"
| mr_op: "managed_run fd s s1 \<Longrightarrow> op_legal op s1 \<Longrightarrow> amap (snd (run_op op s1)) fd \<noteq> None
     \<Longrightarrow> managed_run fd s (snd (run_op op s1))"
| mr_env: "managed_run fd s s1 \<Longrightarrow> tbl s2 = tbl s1 \<Longrightarrow> managed_run fd s s2"

definition but_hupcl :: "termios \<Rightarrow> termios" where
  "but_hupcl = upd_cflag (\<lambda>f. f AND NOT HUPCL)"

lemma but_hupcl_copy [simp]: "but_hupcl (copy_hupcl t o') = but_hupcl o'"
proof -
  have "(f AND NOT HUPCL) AND NOT HUPCL = f AND NOT HUPCL" "(f OR HUPCL) AND NOT HUPCL = f AND NOT HUPCL" for f
    by (rule bit_eqI; auto simp: flag_ops)+
  then show ?thesis by (simp add: but_hupcl_def copy_hupcl_def upd_cflag_def)
qed

text \<open>One step of the specification keeps the original settings of what stays managed.\<close>

lemma aspec_orig:
  "aspec c op m r m' \<Longrightarrow> m fd = Some (o1, c1, n1) \<Longrightarrow> m' fd = Some (o2, c2, n2) \<Longrightarrow> but_hupcl o2 = but_hupcl o1"
  by (induction rule: aspec.induct) (auto split: if_splits)

text \<open>
  The settings a terminal had when it was added are kept for the final restore through any run
  of operations during which it stays managed, whatever the outcome of system calls; only their
  \<^verbatim>\<open>HUPCL\<close> flag can change.
\<close>

theorem term_original_kept:
  assumes "managed_run fd s s'" "table_ok s" "term_init s" "amap s fd = Some (o1, c1, n1)"
  shows "\<exists>o2 c2 n2. amap s' fd = Some (o2, c2, n2) \<and> but_hupcl o2 = but_hupcl o1 \<and> table_ok s' \<and> term_init s'"
  using assms
proof (induction rule: managed_run.induct)
  case (mr_op s1 op)
  then obtain o2 c2 n2 where 2: "amap s1 fd = Some (o2, c2, n2)" "but_hupcl o2 = but_hupcl o1" "table_ok s1" "term_init s1"
    by blast
  note r = run_op_refines [OF 2(3,4) mr_op(2)]
  obtain o3 c3 n3 where 3: "amap (snd (run_op op s1)) fd = Some (o3, c3, n3)" using mr_op(3) by auto
  then show ?case using aspec_orig [OF r [THEN conjunct1] 2(1) 3] 2 r op_keeps_init [OF 2(3,4)] by auto
next
  case (mr_env s1 s2)
  then show ?case using tbl_amap [of s2 s1] tbl_table_ok [of s2 s1] by (auto simp: tbl_def)
qed auto

lemma term_original_kept_witness:
  "\<exists>o2 c2 n2. amap (snd (run_op (Op_apply 3 True) sample)) 3 = Some (o2, c2, n2) \<and>
     but_hupcl o2 = but_hupcl (of_termios2 sample_tio) \<and>
     table_ok (snd (run_op (Op_apply 3 True) sample)) \<and> term_init (snd (run_op (Op_apply 3 True) sample))"
proof (rule term_original_kept [OF _ sample_ok(1,2) sample_amap(1)])
  show "managed_run 3 sample (snd (run_op (Op_apply 3 True) sample))"
    using term_apply_ok(2) [OF sample_ok(1) sample_amap(1) sample_ok(5,3) refl refl, of True]
    by (intro mr_op mr_refl) (simp_all add: op_legal_def)
qed

text \<open>What \<^verbatim>\<open>term_set\<close> does to a managed terminal.\<close>

lemma term_set_result:
  assumes "table_ok s" "amap s fd = Some (o', cu, n)"
  shows "let (r, s') = term_set fd raw (c_int b) p db sb f l h s in
         if all_valid (os_cfg s) (c_int b) p db sb f
         then r = 0 \<and>
              (\<exists>n'. amap s' = (amap s)(fd \<mapsto> (o', cu, n')) \<and>
                    params_of (os_cfg s) n' =
                      requested (c_int b) p db sb f l h
                        (if raw then raw_line n else pp_line (params_of (os_cfg s) n)))
         else r = -1 \<and> amap s' = amap s"
proof -
  have fd: "fd \<noteq> -1" using assms(2) by (auto simp: amap_Some)
  have e: "c_int_type (c_int b)" using c_int_range .
  show ?thesis
    using term_set_managed [OF assms(1) fd assms(2) refl, of raw "c_int b" p db sb f l h]
      edits_settings [OF e, where c = "os_cfg s" and raw = raw and p = p and db = db and sb = sb and f = f
        and l = l and h = h and t = n]
    by (cases "edits (settings_seq (os_cfg s) raw (c_int b) p db sb f l h) n")
       (auto simp: case_prod_unfold Let_def)
qed

text \<open>
  C21: \<^verbatim>\<open>term_set\<close> on a managed terminal takes effect as a whole or not at all: it succeeds exactly
  when every argument is legal, and then the next settings are exactly the requested ones (with raw
  mode, or with the line discipline flags as they were); otherwise it reports failure and the
  table is as before.
\<close>

theorem term_set_all_or_nothing:
  assumes "table_ok s" "amap s fd = Some (o', cu, n)"
  shows "let (r, s') = term_set fd raw (c_int b) p db sb f l h s in
         if all_valid (os_cfg s) (c_int b) p db sb f
         then r = 0 \<and>
              (\<exists>n'. amap s' = (amap s)(fd \<mapsto> (o', cu, n')) \<and>
                    params_of (os_cfg s) n' =
                      requested (c_int b) p db sb f l h
                        (if raw then raw_line n else pp_line (params_of (os_cfg s) n)))
         else r = -1 \<and> amap s' = amap s"
  by (rule term_set_result [OF assms])

lemma term_set_all_or_nothing_witness:
  "fst (term_set 3 True (c_int 9600) P_EVEN 9 1 FC_NONE False True sample) = -1 \<and>
   amap (snd (term_set 3 True (c_int 9600) P_EVEN 9 1 FC_NONE False True sample)) = amap sample"
  using term_set_all_or_nothing [OF sample_ok(1) sample_amap(1), of True 9600 P_EVEN 9 1 FC_NONE False True]
  by (simp add: all_valid_def case_prod_unfold Let_def)


lemma baud_valid_9600: "baud_valid c (c_int 9600)"
  by (cases "HIGH_BAUD c") (simp_all add: baud_valid_def c_int_id baud_table_def baud_table_std_def)


text \<open>
  After a successful \<^verbatim>\<open>term_apply\<close> the library's picture of the terminal is the truth: the
  current and the next settings are what the driver made of the request, and so is what the terminal
  holds; the settings to restore differ from before only in \<^verbatim>\<open>HUPCL\<close>, which is as just applied.
\<close>

theorem term_apply_in_sync:
  assumes "table_ok s" "amap s fd = Some (o', cu, n)" "os_fd s fd = Some d" "os_faults s = []"
  shows "let s' = snd (term_apply fd now s); t = of_termios2 (dv_tio (os_dev s' d)) in
         dv_tio (os_dev s' d) = os_drv s d (to_termios2 n) \<and>
         amap s' = (amap s)(fd \<mapsto> (copy_hupcl t o', t, t)) \<and>
         but_hupcl (copy_hupcl t o') = but_hupcl o' \<and>
         bit (c_cflag (copy_hupcl t o')) 10 = bit (c_cflag t) 10"
proof -
  have "bit (c_cflag (copy_hupcl t o')) 10 = bit (c_cflag t) 10" for t
    by (simp add: copy_hupcl_def flag_ops)
  then show ?thesis using term_apply_ok [OF assms refl refl, of now] by (simp add: Let_def)
qed

lemma term_apply_in_sync_witness:
  "dv_tio (os_dev (snd (term_apply 3 True sample)) 1) = to_termios2 (of_termios2 sample_tio)"
  using term_apply_in_sync [OF sample_ok(1) sample_amap(1) sample_ok(5,3), of True]
  by (simp add: Let_def sample_ok)



text \<open>
  A call retried while it fails with \<^verbatim>\<open>EINTR\<close> returns, and it succeeds exactly when the first
  outcome other than \<^verbatim>\<open>EINTR\<close> is a success.
\<close>

theorem retry_succeeds:
  "fst (retry_eintr act fd s) =
     (os_fd s fd \<noteq> None \<and>
      (case dropWhile (\<lambda>e. e = EINTR) (os_faults s) of [] \<Rightarrow> True | e # _ \<Rightarrow> e = 0))"
proof (induction act fd s rule: retry_eintr.induct)
  case (1 act fd s)
  obtain ok s1 where c: "tty_call fd act s = (ok, s1)" by fastforce
  show ?case
    using 1 [OF c [symmetric] refl] c
    by (subst retry_eintr.simps)
       (auto simp: c tty_call_def syscall_def EINTR_def ENOTTY_def split: option.splits list.splits if_splits
         simp del: dropWhile_eq_Nil_conv)
qed

text \<open>
  The fake flush, which stands in for discarding output stuck behind flow control: when no call
  fails, the output is drained with all flow control off, and the terminal ends up with the settings
  it had before; the library's current settings are these, its next settings are not touched.
\<close>

theorem fake_flush_restores:
  assumes "table_ok s" "amap s fd = Some (o', cu, n)" "os_fd s fd = Some d" "os_faults s = []"
    and "t = of_termios2 (dv_tio (os_dev s d))" and "s' = snd (term_fake_flush fd s)"
  shows "fst (term_fake_flush fd s) = 0 \<and>
         os_evs s' = os_evs s @ [E_setattr fd TCSANOW (no_flow t), E_drain fd, E_usleep DRAIN_DELAY, E_setattr fd TCSANOW t] \<and>
         get_flowcntrl_tio (no_flow t) = FC_NONE \<and>
         dv_tio (os_dev s' d) = os_drv s d (to_termios2 t) \<and>
         amap s' = (amap s)(fd \<mapsto> (o', t, n))"
proof -
  obtain i where i: "slot_of fd s = Some i" "o' = term_orig s ! i" "cu = term_curr s ! i" "n = term_next s ! i" "fd \<noteq> -1"
    using assms(2) by (auto simp: amap_Some)
  have len: "i < length (term_curr s)"
    using slot_of_less [OF assms(1) i(1)] assms(1) by (simp add: table_ok_def)
  let ?s1 = "setattr_act fd TCSANOW (no_flow t) d (set_curr i t s)"
  let ?s3 = "setattr_act fd TCSANOW t d (usleep DRAIN_DELAY (event (E_drain fd) ?s1))"
  have r: "term_fake_flush fd s = (0, ?s3)"
    using assms(3,4) len
    by (simp add: term_fake_flush_def with_slot_eq i(1) check_def check_get_def calls_ok assms(5) DRAIN_DELAY_def)
  have "get_flowcntrl_tio (no_flow t) = FC_NONE"
    by (simp add: get_flow_bits no_flow_def flag_ops)
  then show ?thesis using assms(1,2) i(1,5) by (simp add: assms(6) r amap_set_curr upd_curr_def)
qed

lemma fake_flush_restores_witness:
  "fst (term_fake_flush 3 sample) = 0 \<and>
   amap (snd (term_fake_flush 3 sample)) = (amap sample)(3 \<mapsto> (of_termios2 sample_tio, of_termios2 sample_tio, of_termios2 sample_tio))"
  using fake_flush_restores [OF sample_ok(1) sample_amap(1) sample_ok(5,3) refl refl]
  by (simp add: sample_def)

text \<open>
  The modem control operations act on their own line only: raising or lowering DTR or RTS on a
  managed terminal sets or clears that line and leaves the others, a DTR pulse ends with DTR raised,
  and the status read afterwards reports every line under its own flag.
\<close>

theorem modem_lines:
  assumes "amap s fd = Some sl" "os_fd s fd = Some d" "os_faults s = []"
    and "\<And>op. line op = dv_mctl (os_dev (snd (run_op op s)) d)" and "w = dv_mctl (os_dev s d)"
  shows "bit (line (Op_dtr fd up)) k = (if k = 1 then up else bit w k) \<and>
         bit (line (Op_rts fd up)) k = (if k = 2 then up else bit w k) \<and>
         bit (line (Op_pulse_dtr fd)) k = (if k = 1 then True else bit w k) \<and>
         (\<exists>m. fst (term_get_mctl fd s) = Some m \<and>
              [bit m 1, bit m 2, bit m 3, bit m 4, bit m 5, bit m 6] =
              [bit w 1, bit w 8, bit w 6, bit w 2, bit w 5, bit w 7])"
proof -
  obtain i where i: "slot_of fd s = Some i" "fd \<noteq> -1" using assms(1) by (auto simp: amap_def split: if_splits)
  have dtr: "dv_mctl (os_dev (snd (run_op (Op_dtr fd up) s)) d) = (if up then w OR TIOCM_DTR else w AND NOT TIOCM_DTR)"
    using assms(2,3) i by (simp add: term_raise_dtr_def term_lower_dtr_def with_slot_eq check_def calls_ok assms(5))
  have rts: "dv_mctl (os_dev (snd (run_op (Op_rts fd up) s)) d) = (if up then w OR TIOCM_RTS else w AND NOT TIOCM_RTS)"
    using assms(2,3) i by (simp add: term_raise_rts_def term_lower_rts_def with_slot_eq check_def calls_ok assms(5))
  have pulse: "dv_mctl (os_dev (snd (run_op (Op_pulse_dtr fd) s)) d) = (w AND NOT TIOCM_DTR) OR TIOCM_DTR"
    using assms(2,3) i by (simp add: term_pulse_dtr_def with_slot_eq check_def calls_ok assms(5))
  have get: "fst (term_get_mctl fd s) = Some (mctl_of w)"
    using assms(2,3) i by (simp add: term_get_mctl_def with_slot_eq calls_ok assms(5))
  have bits: "bit TIOCM_DTR k \<longleftrightarrow> k = 1" "bit TIOCM_RTS k \<longleftrightarrow> k = 2" for k
    by (simp_all only: TIOCM_DTR_def TIOCM_RTS_def bit_single_bit) auto
  have m: "[bit (mctl_of w) 1, bit (mctl_of w) 2, bit (mctl_of w) 3, bit (mctl_of w) 4, bit (mctl_of w) 5, bit (mctl_of w) 6] =
      [bit w 1, bit w 8, bit w 6, bit w 2, bit w 5, bit w 7]"
    unfolding mctl_of_def TIOCM_DTR_def TIOCM_DSR_def TIOCM_CD_def TIOCM_RTS_def TIOCM_CTS_def TIOCM_RI_def
      MCTL_DTR_def MCTL_DSR_def MCTL_DCD_def MCTL_RTS_def MCTL_CTS_def MCTL_RI_def and_single_bit_eq_0
    by (simp add: bit_or_iff bit_single_bit if_distrib [of "\<lambda>x. bit x _"])
  have or: "bit (w OR TIOCM_DTR) k = (if k = 1 then True else bit w k)"
    "bit (w OR TIOCM_RTS) k = (if k = 2 then True else bit w k)" for k
    by (auto simp: bit_or_iff bits)
  have nand: "bit (w AND NOT TIOCM_DTR) k = (if k = 1 then False else bit w k)"
    "bit (w AND NOT TIOCM_RTS) k = (if k = 2 then False else bit w k)" for k
    by (auto simp: bit_and_iff flag_not_bit bits dest: bit_imp_le_length)
  have pd: "bit ((w AND NOT TIOCM_DTR) OR TIOCM_DTR) k = (if k = 1 then True else bit w k)" for k
    unfolding bit_or_iff nand bits by simp
  show ?thesis
    unfolding assms(4) dtr rts pulse get if_distrib [of "\<lambda>x. bit x k"] or nand pd using m by auto
qed

lemma modem_lines_witness:
  "bit (dv_mctl (os_dev (snd (run_op (Op_dtr 3 False) sample)) 1)) 1 = False"
  using modem_lines [OF sample_amap(1) sample_ok(5,3) refl refl, of False 1] by simp

section \<open>Deviations\<close>

text \<open>
  \<^verbatim>\<open>term_strerror\<close> has no case for \<^verbatim>\<open>TERM_EGETSPEED\<close> and returns \<^verbatim>\<open>NULL\<close> for it.
\<close>

lemma term_strerror_None: "term_strerror f e n = None \<longleftrightarrow> e = TERM_EGETSPEED"
  by (cases e) (simp_all add: term_strerror_def)

lemma term_add_ok:
  assumes "term_init s" "slot_of fd s = None" "slot_of (-1) s = Some i" "os_fd s fd = Some d" "os_faults s = []"
  shows "fst (term_add fd s) = 0"
  using assms
  by (simp add: term_add_def term_find_def term_find_next_free_def slot_of_def fail_def isatty_def
      check_get_fst calls_ok)

text \<open>
  C39: on a terminal that is not managed yet, a \<^verbatim>\<open>term_set\<close> that fails does not undo the addition it
  made: \<^verbatim>\<open>term_add\<close> returns 0, not the slot, so the terminal removed is the one in slot 0.  If that
  is another one, it is no longer managed (and will not be put back on exit), and the terminal that
  could not be set up is.
\<close>

theorem term_set_rollback_wrong:
  assumes "table_ok s" "term_init s" "fd \<noteq> -1" "amap s fd = None" "os_fd s fd = Some d" "os_faults s = []"
    and "-1 \<in> set (term_fd s)" "term_fd s ! 0 = g" "g \<noteq> -1"
    and "\<not> all_valid (os_cfg s) (c_int b) p db sb f"
    and "s' = snd (term_set fd raw (c_int b) p db sb f l h s)"
  shows "fst (term_set fd raw (c_int b) p db sb f l h s) = -1 \<and>
         amap s g \<noteq> None \<and> amap s' g = None \<and> amap s' fd \<noteq> None"
proof -
  define s1 where "s1 = s\<lparr>term_errno := TERM_ENOTFOUND\<rparr>"
  have s1: "table_ok s1" "term_init s1" "amap s1 = amap s" "os_cfg s1 = os_cfg s" "term_fd s1 = term_fd s"
    "os_fd s1 = os_fd s" "os_faults s1 = []" "slot_of fd' s1 = slot_of fd' s" for fd'
    using assms(1,2,6) by (simp_all add: s1_def)
  have no: "slot_of fd s = None" using assms(3,4) by (simp add: amap_def)
  then have f: "term_find fd s = (-1, s1)"
    using assms(2) by (simp add: term_find_def slot_of_def fail_def s1_def)
  obtain i where i: "slot_of (-1) s = Some i"
    using assms(2,7) find_fd_None [of "-1" "term_fd s"] by (auto simp: slot_of_def)
  let ?s2 = "snd (term_add fd s1)"
  have a0: "fst (term_add fd s1) = 0"
    by (rule term_add_ok [where d = d]) (simp_all add: s1 no i assms)
  note a = add_refines [OF s1(1,2) assms(3), of "os_cfg s"]
  obtain t where t: "amap ?s2 = (amap s)(fd \<mapsto> (t, t, t))" "table_ok ?s2" "term_init ?s2" "os_cfg ?s2 = os_cfg s"
    using a a0 s1 assms(4) by (auto elim: aspec.cases simp: term_add_init term_add_env)
  let ?q = "run_seq (term_set_seq fd raw (c_int b) p db sb f l h) ?s2"
  have "\<exists>e. edits (settings_seq (os_cfg s) raw (c_int b) p db sb f l h) t = Inl e"
    using edits_settings [OF c_int_range [of b], where c = "os_cfg s" and raw = raw and p = p and db = db and sb = sb
        and f = f and l = l and h = h and t = t] assms(10)
    by (auto split: sum.splits)
  then obtain n' where q: "fst ?q = -1" "amap (snd ?q) = (amap s)(fd \<mapsto> (t, t, n'))" "table_ok (snd ?q)" "term_init (snd ?q)"
    using term_set_seq_result [OF t(2) assms(3), of t t t raw "c_int b" p db sb f l h] t
    by (auto simp: seq_result_def)
  have s': "fst (term_set fd raw (c_int b) p db sb f l h s) = -1" "s' = set_fd 0 (-1) (snd ?q)"
    using q(1) a0 by (simp_all add: assms(11) term_set_def f case_prod_unfold)
  have g: "slot_of g s = Some 0"
    using assms(1,2,8,9) by (simp add: slot_of_managed MAX_TERMS_def)
  then have gm: "amap s g \<noteq> None" "g \<noteq> fd" using assms(4,9) by (auto simp: amap_def)
  then have "amap (snd ?q) g \<noteq> None" using q(2) by simp
  then have "slot_of g (snd ?q) \<noteq> None" using assms(9) by (auto simp: amap_def)
  moreover have "term_fd (snd ?q) ! 0 = g"
  proof -
    have "term_fd (snd ?q) = term_fd ?s2"
      using term_set_seq_result [OF t(2) assms(3), of t t t raw "c_int b" p db sb f l h] t by (simp add: seq_result_def)
    moreover have "term_fd ?s2 = (term_fd s)[i := fd]"
      using i no assms(2,5,6) by (simp add: term_add_def term_find_def term_find_next_free_def slot_of_def
          fail_def isatty_def check_get_fst calls_ok s1_def split: if_splits)
    moreover have "i \<noteq> 0" using slot_ofD [OF i] assms(8,9) by (cases i) auto
    ultimately show ?thesis using assms(8) by simp
  qed
  ultimately have "slot_of g (snd ?q) = Some 0"
    using q(3,4) assms(9) by (simp add: slot_of_managed MAX_TERMS_def)
  then have "amap s' = (amap (snd ?q))(g := None)"
    using amap_clear [OF q(3)] s'(2) assms(9) by simp
  then show ?thesis using s'(1) gm q(2) by simp
qed

lemma term_set_rollback_wrong_witness:
  "amap (snd (term_set 3 False (c_int 9600) P_ERROR 8 1 FC_NONE False False
            (sample\<lparr>term_fd := 0 # replicate 15 (-1)\<rparr>))) 0 = None"
proof -
  let ?s = "sample\<lparr>term_fd := 0 # replicate 15 (-1)\<rparr>"
  let ?r = "term_set 3 False (c_int 9600) P_ERROR 8 1 FC_NONE False False ?s"
  have "fst ?r = -1 \<and> amap ?s 0 \<noteq> None \<and> amap (snd ?r) 0 = None \<and> amap (snd ?r) 3 \<noteq> None"
    by (rule term_set_rollback_wrong [OF _ _ _ _ _ _ _ _ _ _ refl, where d = 1])
       (simp_all add: sample_def table_ok_def MAX_TERMS_def managed_distinct_def amap_def slot_of_def
          all_valid_def find_fd_None [THEN iffD2])
  then show ?thesis by blast
qed

end
