(* ===== verification/Fdio.thy ===== *)
theory Fdio
  imports Sysenv
begin

text \<open>
  Descriptor input and output, \<^verbatim>\<open>src/ppcom/src/fdio.cpp\<close>: \<^verbatim>\<open>writen_ni\<close>, \<^verbatim>\<open>fd_vprintf\<close> and
  \<^verbatim>\<open>fd_printf\<close> (on the text the format produces), and the line editor \<^verbatim>\<open>fd_readline\<close> with its
  echo functions.
\<close>

section \<open>Writing\<close>

text \<open>\<^verbatim>\<open>do { nw = write(fd, p, nl); } while ( nw < 0 && errno == EINTR );\<close>\<close>

function write_retry :: "int \<Rightarrow> byte list \<Rightarrow> 'a os_scheme \<Rightarrow> int \<times> 'a os_scheme" where
  "write_retry fd bs s =
     (let (nw, s') = os_write fd bs s in
      if nw < 0 \<and> os_errno s' = EINTR then write_retry fd bs s' else (nw, s'))"
  by pat_completeness auto
termination
  by (relation "measure (\<lambda>(fd, bs, s). length (os_wres s))")
     (auto simp: os_write_def Let_def split: list.splits if_splits)

declare write_retry.simps [simp del]

lemma write_retry_result:
  "fst (write_retry fd bs s) \<le> int (length bs) \<and>
   os_out (snd (write_retry fd bs s)) =
     (os_out s)(fd := os_out s fd @ take (nat (fst (write_retry fd bs s))) bs) \<and>
   (\<exists>k. os_wres (snd (write_retry fd bs s)) = drop k (os_wres s))"
proof (induction fd bs s rule: write_retry.induct)
  case (1 fd bs s)
  show ?case
  proof (cases "os_wres s")
    case Nil
    then show ?thesis by (subst (1 2 3 4) write_retry.simps) (simp add: os_write_def exI [of _ 0])
  next
    case (Cons w ws)
    have k: "\<exists>k. ws = drop k (os_wres s)" using Cons by (intro exI [of _ 1]) simp
    show ?thesis
    proof (cases "w < 0 \<and> nat (- w) = EINTR")
      case True
      let ?s = "s\<lparr>os_wres := ws, os_errno := nat (- w)\<rparr>"
      have r: "write_retry fd bs s = write_retry fd bs ?s"
        using Cons True by (subst write_retry.simps) (simp add: os_write_def)
      have "os_write fd bs s = (-1, ?s)" using Cons True by (simp add: os_write_def)
      note ih = 1 [OF this [symmetric] refl]
      have ih: "fst (write_retry fd bs ?s) \<le> int (length bs) \<and>
         os_out (snd (write_retry fd bs ?s)) = (os_out s)(fd := os_out s fd @ take (nat (fst (write_retry fd bs ?s))) bs) \<and>
         (\<exists>k. os_wres (snd (write_retry fd bs ?s)) = drop k ws)"
        using ih True by (simp add: fun_upd_def)
      then obtain k where "os_wres (snd (write_retry fd bs ?s)) = drop k ws" by blast
      then have "os_wres (snd (write_retry fd bs ?s)) = drop (Suc k) (os_wres s)" using Cons by simp
      then show ?thesis using ih unfolding r by blast
    next
      case False
      then have "write_retry fd bs s = os_write fd bs s"
        using Cons by (subst write_retry.simps) (auto simp: os_write_def Let_def)
      then show ?thesis using Cons k by (auto simp: os_write_def Let_def min_def)
    qed
  qed
qed

function writen_loop :: "int \<Rightarrow> byte list \<Rightarrow> 'a os_scheme \<Rightarrow> nat \<times> 'a os_scheme" where
  "writen_loop fd p s =
     (if p = [] then (0, s)
      else
        (let (nw, s') = write_retry fd p s in
         if nw \<le> 0 then (length p, s') else writen_loop fd (drop (nat nw) p) s'))"
  by pat_completeness auto
termination
  by (relation "measure (\<lambda>(fd, p, s). length p)") auto

declare writen_loop.simps [simp del]

text \<open>The loop returns the number of bytes left, \<^verbatim>\<open>nl\<close>; the function what was written, \<^verbatim>\<open>n - nl\<close>.\<close>

definition writen_ni :: "int \<Rightarrow> byte list \<Rightarrow> 'a os_scheme \<Rightarrow> nat \<times> 'a os_scheme" where
  "writen_ni fd buff s = (case writen_loop fd buff s of (nl, s') \<Rightarrow> (length buff - nl, s'))"

text \<open>
  \<open>text\<close> is what the format and its arguments produce; \<open>stack\<close> what lies in memory behind the
  256-byte buffer.  \<^verbatim>\<open>vsnprintf\<close> stores at most 255 bytes and a NUL, and returns the full length.
\<close>

definition fd_vprintf :: "int \<Rightarrow> string \<Rightarrow> byte list \<Rightarrow> 'a os_scheme \<Rightarrow> nat \<times> 'a os_scheme" where
  "fd_vprintf fd txt stack s =
     (let len = length txt;
          buf = take 255 txt @ [EOS]
      in writen_ni fd (take len (if len \<le> 255 then txt else buf @ stack)) s)"

definition fd_printf :: "int \<Rightarrow> string \<Rightarrow> byte list \<Rightarrow> 'a os_scheme \<Rightarrow> nat \<times> 'a os_scheme" where
  "fd_printf fd txt stack s = fd_vprintf fd txt stack s"

section \<open>The line editor\<close>

definition isprint :: "byte \<Rightarrow> bool" where
  "isprint c \<longleftrightarrow> 32 \<le> byte_val c \<and> byte_val c < 127"

definition cput :: "int \<Rightarrow> byte \<Rightarrow> 'a os_scheme \<Rightarrow> 'a os_scheme" where
  "cput fd c s = snd (os_write fd [c] s)"

definition cdel :: "int \<Rightarrow> 'a os_scheme \<Rightarrow> 'a os_scheme" where
  "cdel fd s = snd (os_write fd [BSP, CHR '' '', BSP] s)"

definition xput_text :: "byte \<Rightarrow> byte list" where
  "xput_text c = [CHR 0x5C, CHR ''x'', hexd (byte_val c div 16), hexd (byte_val c mod 16)]"

definition xput :: "int \<Rightarrow> byte \<Rightarrow> 'a os_scheme \<Rightarrow> 'a os_scheme" where
  "xput fd c s = snd (os_write fd (xput_text c) s)"

definition xdel :: "int \<Rightarrow> 'a os_scheme \<Rightarrow> 'a os_scheme" where
  "xdel fd s = snd (os_write fd (replicate 4 BSP @ replicate 4 (CHR '' '') @ replicate 4 BSP) s)"

text \<open>Work left in an input script.\<close>

fun rd_size :: "rd \<Rightarrow> nat" where
  "rd_size (RdData bs) = Suc (length bs)"
| "rd_size (RdErr e) = 1"

definition in_size :: "int \<Rightarrow> 'a os_scheme \<Rightarrow> nat" where
  "in_size fd s = sum_list (map rd_size (os_in s fd))"

lemma os_read_decreases:
  "os_read fd n s = (Inr (b # bs), s') \<Longrightarrow> in_size fd s' < in_size fd s"
  by (cases n) (auto simp: os_read_def in_size_def split: list.splits rd.splits if_splits)

lemma os_write_in [simp]: "os_in (snd (os_write fd bs s)) = os_in s"
  by (simp add: os_write_def Let_def split: list.split)

lemma echo_in [simp]:
  "os_in (cput fd c s) = os_in s" "os_in (cdel fd s) = os_in s" "os_in (xput fd c s) = os_in s" "os_in (xdel fd s) = os_in s"
  by (simp_all add: cput_def cdel_def xput_def xdel_def)

text \<open>
  One round of the loop: \<open>b\<close> is the text between the start of the buffer and \<^verbatim>\<open>bp\<close>, \<open>cap\<close> is
  \<^verbatim>\<open>bsz - 1\<close>.  The result is the new text, or the return value (\<open>None\<close> for \<open>-1\<close>) and the state.
\<close>

definition readline_key :: "int \<Rightarrow> nat \<Rightarrow> byte \<Rightarrow> byte list \<Rightarrow> 'a os_scheme \<Rightarrow> (byte list + byte list option) \<times> 'a os_scheme" where
  "readline_key fdo cap c b s =
     (if c = BSP \<or> c = DEL then
        (if b \<noteq> [] then (Inl (butlast b), if isprint (last b) then cdel fdo s else xdel fdo s)
         else (Inl b, cput fdo BEL s))
      else if c = CHR 0x03 then (Inr None, s\<lparr>os_errno := EINTR\<rparr>)
      else if c = CR then (Inr (Some b), s)
      else if length b < cap then
        (Inl (b @ [c]), if isprint c then cput fdo c s else xput fdo c s)
      else (Inl b, cput fdo BEL s))"

lemma readline_key_in [simp]: "os_in (snd (readline_key fdo cap c b s)) = os_in s"
  by (simp add: readline_key_def)

lemma readline_key_decreases:
  assumes "(Inr (c # cs), s') = os_read fdi n s" "(r, s'') = readline_key fdo cap c b s'"
  shows "in_size fdi s'' < in_size fdi s"
  using os_read_decreases [of fdi n s c cs s'] readline_key_in [of fdo cap c b s'] assms
  by (metis in_size_def snd_conv)

function readline_loop :: "int \<Rightarrow> int \<Rightarrow> nat \<Rightarrow> byte list \<Rightarrow> 'a os_scheme \<Rightarrow> byte list option \<times> 'a os_scheme" where
  "readline_loop fdi fdo cap b s =
     (case os_read fdi 1 s of
        (Inl e, s') \<Rightarrow> (None, s')
      | (Inr [], s') \<Rightarrow> (None, s')
      | (Inr (c # _), s') \<Rightarrow>
          (case readline_key fdo cap c b s' of
             (Inl b', s'') \<Rightarrow> readline_loop fdi fdo cap b' s''
           | (Inr r, s'') \<Rightarrow> (r, s'')))"
  by pat_completeness auto
termination
  by (relation "measure (\<lambda>(fdi, fdo, cap, b, s). in_size fdi s)") (auto intro: readline_key_decreases)

declare readline_loop.simps [simp del]

text \<open>The return value is the length of the text, or \<open>-1\<close>.\<close>

definition fd_readline :: "int \<Rightarrow> int \<Rightarrow> nat \<Rightarrow> 'a os_scheme \<Rightarrow> byte list option \<times> 'a os_scheme" where
  "fd_readline fdi fdo bsz s = readline_loop fdi fdo (bsz - 1) [] s"

section \<open>Properties of writing\<close>

lemma writen_loop_result:
  "fst (writen_loop fd p s) \<le> length p \<and>
   os_out (snd (writen_loop fd p s)) =
     (os_out s)(fd := os_out s fd @ take (length p - fst (writen_loop fd p s)) p)"
proof (induction fd p s rule: writen_loop.induct)
  case (1 fd p s)
  obtain nw s' where w: "write_retry fd p s = (nw, s')" by fastforce
  note r = write_retry_result [of fd p s, unfolded w fst_conv snd_conv]
  show ?case
  proof (cases "p = [] \<or> nw \<le> 0")
    case True
    then show ?thesis using r by (subst (1 2 3) writen_loop.simps) (auto simp: w fun_upd_idem)
  next
    case False
    let ?q = "drop (nat nw) p"
    have e: "writen_loop fd p s = writen_loop fd ?q s'" using False by (subst writen_loop.simps) (simp add: w)
    have ih: "fst (writen_loop fd ?q s') \<le> length ?q"
      "os_out (snd (writen_loop fd ?q s')) = (os_out s')(fd := os_out s' fd @ take (length ?q - fst (writen_loop fd ?q s')) ?q)"
      using 1 [OF _ w [symmetric] refl] False by (simp_all add: fun_upd_def)
    have n: "nat nw \<le> length p" using r by linarith
    have "take (nat nw) p @ take (length ?q - fst (writen_loop fd ?q s')) ?q =
          take (length p - fst (writen_loop fd ?q s')) p"
      using ih(1) n take_add [of "nat nw" "length ?q - fst (writen_loop fd ?q s')" p] by simp
    then show ?thesis unfolding e using ih r n by simp
  qed
qed

lemma write_retry_good:
  "list_all (\<lambda>w. 0 < w \<or> w = - int EINTR) (os_wres s) \<Longrightarrow> p \<noteq> [] \<Longrightarrow>
     0 < fst (write_retry fd p s) \<and> list_all (\<lambda>w. 0 < w \<or> w = - int EINTR) (os_wres (snd (write_retry fd p s)))"
proof (induction fd p s rule: write_retry.induct)
  case (1 fd p s)
  show ?case
  proof (cases "os_wres s")
    case Nil
    then show ?thesis using 1(3) by (subst (1 2) write_retry.simps) (simp add: os_write_def)
  next
    case (Cons w ws)
    show ?thesis
    proof (cases "w = - int EINTR")
      case True
      let ?s = "s\<lparr>os_wres := ws, os_errno := EINTR\<rparr>"
      have w: "os_write fd p s = (-1, ?s)" using Cons True by (simp add: os_write_def EINTR_def)
      have e: "write_retry fd p s = write_retry fd p ?s" by (subst write_retry.simps) (simp add: w)
      show ?thesis unfolding e using 1(1) [OF w [symmetric] refl] 1(2,3) Cons by simp
    next
      case False
      then show ?thesis using Cons 1(2,3) by (subst (1 2) write_retry.simps) (auto simp: os_write_def Let_def EINTR_def)
    qed
  qed
qed

lemma writen_loop_all:
  "list_all (\<lambda>w. 0 < w \<or> w = - int EINTR) (os_wres s) \<Longrightarrow> fst (writen_loop fd p s) = 0"
proof (induction fd p s rule: writen_loop.induct)
  case (1 fd p s)
  show ?case
  proof (cases "p = []")
    case False
    obtain nw s' where w: "write_retry fd p s = (nw, s')" by fastforce
    show ?thesis
      using write_retry_good [OF 1(2) False, of fd] 1(1) [OF False w [symmetric] refl] False
      by (subst writen_loop.simps) (simp add: w)
  qed (subst writen_loop.simps, simp)
qed

text \<open>
  \<^verbatim>\<open>writen_ni\<close> tells the truth: whatever partial, interrupted or failing writes the system
  makes of it, what has appeared on the descriptor is exactly the first bytes of the buffer, as many
  as the function reports.
\<close>

theorem writen_reports_written:
  "let (r, s') = writen_ni fd buff s in
   r \<le> length buff \<and> os_out s' = (os_out s)(fd := os_out s fd @ take r buff)"
  using writen_loop_result [of fd buff s] by (auto simp: writen_ni_def case_prod_unfold Let_def)

text \<open>
  Partial and interrupted writes do not lose anything: as long as no write fails for another
  reason or writes nothing, \<^verbatim>\<open>writen_ni\<close> writes the whole buffer.
\<close>

theorem writen_complete:
  assumes "list_all (\<lambda>w. 0 < w \<or> w = - int EINTR) (os_wres s)"
  shows "let (r, s') = writen_ni fd buff s in
         r = length buff \<and> os_out s' = (os_out s)(fd := os_out s fd @ buff)"
  using writen_loop_result [of fd buff s] writen_loop_all [OF assms, of fd buff]
  by (auto simp: writen_ni_def case_prod_unfold Let_def)

definition sample_os :: os where
  "sample_os =
     \<lparr>os_cfg = \<lparr>USE_CUSTOM_BAUD = True, NO_CUSTOM_BAUD = False, HIGH_BAUD = False, USE_FLOCK = True,
        NDEBUG = False, TTY_Q_SZ = 32768\<rparr>, os_fd = [0 \<mapsto> 0, 1 \<mapsto> 0],
      os_dev = (\<lambda>_. \<lparr>dv_tio = to_termios2 (of_termios2 \<lparr>k_iflag = 0, k_oflag = 0, k_cflag = 0, k_lflag = 0,
        k_line = 0, k_cc = [], k_ispeed = 0, k_ospeed = 0\<rparr>), dv_mctl = 0\<rparr>),
      os_drv = (\<lambda>_ k. k), os_faults = [], os_wres = [2, -4, 1], os_in = (\<lambda>_. [RdData ''ab'', RdData [DEL, CR]]),
      os_out = (\<lambda>_. []), os_evs = [], os_errno = 0, os_strerror = (\<lambda>_. ''error''), os_ttyname = (\<lambda>_. None)\<rparr>"

lemma writen_complete_witness:
  "fst (writen_ni 1 ''hello'' sample_os) = 5 \<and> os_out (snd (writen_ni 1 ''hello'' sample_os)) 1 = ''hello''"
  using writen_complete [of sample_os 1 "''hello''"]
  by (simp add: sample_os_def EINTR_def case_prod_unfold Let_def)


section \<open>Properties of the line editor\<close>

text \<open>What the user means: the text after the keys typed so far, \<open>None\<close> when the entry is given up.\<close>

fun typed :: "nat \<Rightarrow> byte list \<Rightarrow> byte list \<Rightarrow> byte list option" where
  "typed cap b [] = None"
| "typed cap b (c # cs) =
     (if c = BSP \<or> c = DEL then typed cap (butlast b) cs
      else if c = CHR 0x03 then None
      else if c = CR then Some b
      else typed cap (if length b < cap then b @ [c] else b) cs)"

text \<open>The bytes an input script delivers before its end or its first error.\<close>

fun script_bytes :: "rd list \<Rightarrow> byte list" where
  "script_bytes [] = []"
| "script_bytes (RdErr e # r) = []"
| "script_bytes (RdData bs # r) = (if bs = [] then [] else bs @ script_bytes r)"

lemma os_read_1:
  "(case os_read fd 1 s of
      (Inr (c # cs), s') \<Rightarrow> cs = [] \<and> script_bytes (os_in s fd) = c # script_bytes (os_in s' fd)
    | (_, s') \<Rightarrow> script_bytes (os_in s fd) = [])"
  by (auto simp: os_read_def split: list.split rd.split)

lemma readline_typed:
  "fst (readline_loop fdi fdo cap b s) = typed cap b (script_bytes (os_in s fdi))"
proof (induction fdi fdo cap b s rule: readline_loop.induct)
  case (1 fdi fdo cap b s)
  obtain r s' where rd: "os_read fdi 1 s = (r, s')" by fastforce
  note o = os_read_1 [where fd = fdi and s = s, unfolded rd]
  show ?case
  proof (cases r)
    case (Inl e)
    then show ?thesis using o by (subst readline_loop.simps) (simp add: rd del: One_nat_def)
  next
    case (Inr l)
    show ?thesis
    proof (cases l)
      case Nil
      then show ?thesis using o Inr by (subst readline_loop.simps) (simp add: rd del: One_nat_def)
    next
      case (Cons c cs)
      have b: "script_bytes (os_in s fdi) = c # script_bytes (os_in s' fdi)" using o Inr Cons by simp
      obtain k s'' where k: "readline_key fdo cap c b s' = (k, s'')" by fastforce
      have i: "os_in s'' = os_in s'" using readline_key_in [of fdo cap c b s'] by (simp add: k)
      show ?thesis
      proof (cases k)
        case (Inl b')
        have "fst (readline_loop fdi fdo cap b' s'') = typed cap b' (script_bytes (os_in s' fdi))"
          using 1 [OF rd [symmetric] Inr Cons k [symmetric] Inl] i by simp
        then show ?thesis using k Inl Inr Cons b
          by (subst readline_loop.simps) (auto simp: rd readline_key_def simp del: One_nat_def split: if_splits)
      next
        case (Inr r')
        then show ?thesis using k \<open>r = Inr l\<close> Cons b
          by (subst readline_loop.simps) (auto simp: rd readline_key_def simp del: One_nat_def split: if_splits)
      qed
    qed
  qed
qed

lemma typed_length: "typed cap b cs = Some l \<Longrightarrow> length b \<le> cap \<Longrightarrow> length l \<le> cap"
  by (induction cap b cs rule: typed.induct) (auto split: if_splits)

text \<open>
  C31: \<^verbatim>\<open>fd_readline\<close> returns the line the user meant, however the input is cut into reads:
  backspace and delete take back one character, control-C gives up, further characters are refused
  when the buffer is full; so the text and its final NUL always fit the buffer.
\<close>

theorem readline_line:
  "fst (fd_readline fdi fdo (Suc cap) s) = typed cap [] (script_bytes (os_in s fdi)) \<and>
   (case fst (fd_readline fdi fdo (Suc cap) s) of None \<Rightarrow> True | Some l \<Rightarrow> length l + 1 \<le> Suc cap)"
  using typed_length [of cap "[]" "script_bytes (os_in s fdi)"]
  by (auto simp: fd_readline_def readline_typed split: option.split)

subsection \<open>The echo\<close>

text \<open>One line of a terminal screen: the cells written so far and the cursor.\<close>

fun scr_put :: "byte \<Rightarrow> byte list \<times> nat \<Rightarrow> byte list \<times> nat" where
  "scr_put c (cells, p) =
     (if c = BSP then (cells, p - 1)
      else if c = BEL then (cells, p)
      else (if p < length cells then cells[p := c] else cells @ [c], Suc p))"

definition display :: "byte list \<Rightarrow> byte list \<times> nat \<Rightarrow> byte list \<times> nat" where
  "display out scr = fold scr_put out scr"

text \<open>How a text is shown, and a screen that shows it with the cursor behind it.\<close>

definition shown :: "byte list \<Rightarrow> byte list" where
  "shown b = concat (List.map (\<lambda>c. if isprint c then [c] else xput_text c) b)"

definition shows_line :: "byte list \<Rightarrow> byte list \<times> nat \<Rightarrow> bool" where
  "shows_line b scr \<longleftrightarrow> (\<exists>k. scr = (shown b @ replicate k (CHR '' ''), length (shown b)))"

lemma hexd_graphic: "n < 16 \<Longrightarrow> hexd n \<noteq> BSP \<and> hexd n \<noteq> BEL"
proof -
  have "list_all (\<lambda>n. hexd n \<noteq> BSP \<and> hexd n \<noteq> BEL) [0, 1, 2, 3, 4, 5, 6, 7, 8, 9, 10, 11, 12, 13, 14, 15]"
    by (simp add: hexd_def)
  moreover assume "n < 16"
  then have "n \<in> set [0, 1, 2, 3, 4, 5, 6, 7, 8, 9, 10, 11, 12, 13, 14, 15]" by simp presburger
  ultimately show ?thesis unfolding list_all_iff by blast
qed

lemma xput_graphic: "x \<in> set (xput_text c) \<Longrightarrow> x \<noteq> BSP \<and> x \<noteq> BEL"
proof -
  have "byte_val c div 16 < 16" using byte_val_less [of c] by linarith
  then show "x \<in> set (xput_text c) \<Longrightarrow> x \<noteq> BSP \<and> x \<noteq> BEL"
    using hexd_graphic by (auto simp: xput_text_def)
qed

lemma isprint_graphic: "isprint c \<Longrightarrow> c \<noteq> BSP \<and> c \<noteq> BEL"
  by (auto simp: isprint_def)

text \<open>Writing graphic characters at the end of what is shown.\<close>

lemma display_append:
  "(\<And>x. x \<in> set t \<Longrightarrow> x \<noteq> BSP \<and> x \<noteq> BEL) \<Longrightarrow>
     \<exists>k'. display t (b @ replicate k (CHR '' ''), length b) = (b @ t @ replicate k' (CHR '' ''), length (b @ t))"
proof (induction t arbitrary: b k)
  case (Cons x t)
  have "\<exists>k1. scr_put x (b @ replicate k (CHR '' ''), length b) = ((b @ [x]) @ replicate k1 (CHR '' ''), length (b @ [x]))"
  proof (cases k)
    case 0
    then show ?thesis using Cons.prems [of x] by (intro exI [of _ 0]) simp
  next
    case (Suc j)
    then show ?thesis using Cons.prems [of x] by (intro exI [of _ j]) simp
  qed
  then obtain k1 where "scr_put x (b @ replicate k (CHR '' ''), length b) = ((b @ [x]) @ replicate k1 (CHR '' ''), length (b @ [x]))"
    by blast
  then show ?case using Cons.IH [of "b @ [x]" k1] Cons.prems by (simp add: display_def)
qed (auto simp: display_def)

text \<open>Rubbing out the last character.\<close>

lemma display_rub1:
  "display [BSP, CHR '' '', BSP] ((b @ [x]) @ replicate k (CHR '' ''), length (b @ [x])) =
     (b @ replicate (Suc k) (CHR '' ''), length b)"
  by (simp add: display_def list_update_append)

lemma display_rub4:
  "display (replicate 4 BSP @ replicate 4 (CHR '' '') @ replicate 4 BSP)
     ((b @ [w, x, y, z]) @ replicate k (CHR '' ''), length (b @ [w, x, y, z])) =
     (b @ replicate (4 + k) (CHR '' ''), length b)"
  by (simp add: display_def list_update_append numeral_eq_Suc)

text \<open>What one key writes.\<close>

definition key_echo :: "nat \<Rightarrow> byte \<Rightarrow> byte list \<Rightarrow> byte list" where
  "key_echo cap c b =
     (if c = BSP \<or> c = DEL then
        (if b \<noteq> [] then
           (if isprint (last b) then [BSP, CHR '' '', BSP]
            else replicate 4 BSP @ replicate 4 (CHR '' '') @ replicate 4 BSP)
         else [BEL])
      else if c = CHR 0x03 \<or> c = CR then []
      else if length b < cap then (if isprint c then [c] else xput_text c) else [BEL])"

lemma readline_key_out:
  "os_wres s = [] \<Longrightarrow>
     os_out (snd (readline_key fdo cap c b s)) fdo = os_out s fdo @ key_echo cap c b \<and>
     os_wres (snd (readline_key fdo cap c b s)) = []"
  by (simp add: readline_key_def key_echo_def cput_def cdel_def xput_def xdel_def os_write_def)

lemma shown_snoc: "shown (b @ [c]) = shown b @ (if isprint c then [c] else xput_text c)"
  by (simp add: shown_def)

lemma key_shows:
  assumes "shows_line b scr" "fst (readline_key fdo cap c b s) = Inl b'"
  shows "shows_line b' (display (key_echo cap c b) scr)"
proof -
  obtain k where scr: "scr = (shown b @ replicate k (CHR '' ''), length (shown b))"
    using assms(1) by (auto simp: shows_line_def)
  have bel: "shows_line b (display [BEL] scr)" using assms(1) by (auto simp: scr display_def shows_line_def)
  consider (del) "c = BSP \<or> c = DEL" "b \<noteq> []" | (put) "c \<noteq> BSP" "c \<noteq> DEL" "c \<noteq> CHR 0x03" "c \<noteq> CR" "length b < cap"
    | (bel) "key_echo cap c b = [BEL]" "b' = b"
    using assms(2) by (auto simp: readline_key_def key_echo_def split: if_splits)
  then show ?thesis
  proof cases
    case del
    then have b': "b' = butlast b" using assms(2) by (auto simp: readline_key_def)
    have b: "shown b = shown b' @ (if isprint (last b) then [last b] else xput_text (last b))"
      using shown_snoc [of "butlast b" "last b"] del b' by simp
    show ?thesis
    proof (cases "isprint (last b)")
      case True
      then show ?thesis using display_rub1 [of "shown b'" "last b" k] del b
        by (auto simp: key_echo_def scr shows_line_def intro!: exI [of _ "Suc k"])
    next
      case False
      then show ?thesis using display_rub4 [of "shown b'" _ _ _ _ k] del b
        by (auto simp: key_echo_def scr shows_line_def xput_text_def)
    qed
  next
    case put
    let ?t = "if isprint c then [c] else xput_text c"
    have b': "b' = b @ [c]" and e: "key_echo cap c b = ?t"
      using assms(2) put by (auto simp: readline_key_def key_echo_def)
    have "\<exists>k'. display ?t (shown b @ replicate k (CHR '' ''), length (shown b)) =
        (shown b @ ?t @ replicate k' (CHR '' ''), length (shown b @ ?t))"
      using xput_graphic isprint_graphic by (intro display_append) (auto split: if_splits)
    then show ?thesis by (auto simp: b' e scr shows_line_def shown_snoc)
  next
    case bel
    then show ?thesis using \<open>shows_line b (display [BEL] scr)\<close> by simp
  qed
qed

lemma readline_shows:
  "os_wres s = [] \<Longrightarrow> shows_line b (display (os_out s fdo) scr) \<Longrightarrow>
   fst (readline_loop fdi fdo cap b s) = Some l \<Longrightarrow>
     shows_line l (display (os_out (snd (readline_loop fdi fdo cap b s)) fdo) scr)"
proof (induction fdi fdo cap b s rule: readline_loop.induct)
  case (1 fdi fdo cap b s)
  obtain r s' where rd: "os_read fdi 1 s = (r, s')" by fastforce
  have s': "os_out s' = os_out s" "os_wres s' = os_wres s"
    using rd by (auto simp: os_read_def split: list.splits rd.splits)
  obtain c cs where r: "r = Inr (c # cs)"
    using 1(4) by (subst (asm) readline_loop.simps) (auto simp: rd simp del: One_nat_def split: sum.splits list.splits)
  obtain k s'' where k: "readline_key fdo cap c b s' = (k, s'')" by fastforce
  have o: "os_out s'' fdo = os_out s' fdo @ key_echo cap c b" "os_wres s'' = []"
    using readline_key_out [of s' fdo cap c b] s' 1(2) by (simp_all add: k)
  show ?case
  proof (cases k)
    case (Inl b')
    have e: "readline_loop fdi fdo cap b s = readline_loop fdi fdo cap b' s''"
      by (subst readline_loop.simps) (simp add: rd r k Inl del: One_nat_def)
    have "shows_line b' (display (os_out s'' fdo) scr)"
      using key_shows [OF 1(3), of fdo cap c s' b'] o s' by (simp add: k Inl display_def)
    then show ?thesis
      using 1(1) [OF rd [symmetric] r refl k [symmetric] Inl o(2)] 1(4) by (simp add: e)
  next
    case (Inr q)
    have e: "readline_loop fdi fdo cap b s = (q, s'')"
      by (subst readline_loop.simps) (simp add: rd r k Inr del: One_nat_def)
    then have "key_echo cap c b = [] \<and> l = b"
      using 1(4) k Inr by (auto simp: readline_key_def key_echo_def split: if_splits)
    then show ?thesis using 1(3) o(1) s' by (simp add: e)
  qed
qed

text \<open>
  The echo of \<^verbatim>\<open>fd_readline\<close> keeps the screen in step with the buffer: when the line is
  entered, what stands on a line that was empty before is the text returned, unprintable bytes in
  their \<^verbatim>\<open>\xHH\<close> form, with the cursor behind it and everything rubbed out blank.
\<close>

theorem readline_echo:
  assumes "os_wres s = []" "os_out s fdo = []" "fst (fd_readline fdi fdo bsz s) = Some l"
  shows "shows_line l (display (os_out (snd (fd_readline fdi fdo bsz s)) fdo) ([], 0))"
proof -
  have "shows_line [] (display (os_out s fdo) ([], 0))"
    by (simp add: assms(2) display_def shows_line_def shown_def)
  then show ?thesis
    using readline_shows [of s "[]" fdo "([], 0)" fdi "bsz - 1" l] assms by (simp add: fd_readline_def)
qed

lemma readline_echo_witness:
  "shows_line ''a'' (display (os_out (snd (fd_readline 0 1 10 (sample_os\<lparr>os_wres := []\<rparr>))) 1) ([], 0))"
  by (rule readline_echo) (simp_all add: fd_readline_def readline_typed sample_os_def)

end
