(* ===== verification/App.thy ===== *)
theory App
  imports Term_Props Fdio Charmap Split Hexin
begin

text \<open>
  The state of the program, \<^verbatim>\<open>src/ppcom/src/ppcom.cpp\<close>: options, global variables, the ways the
  program ends (\<^verbatim>\<open>fatal\<close>, \<^verbatim>\<open>exit\<close>, a failed assertion), \<^verbatim>\<open>cleanup\<close>, and the port output queue
  (\<^verbatim>\<open>tty_q\<close>, \<^verbatim>\<open>tty_q_push\<close>, \<^verbatim>\<open>map_and_write\<close>).
\<close>

section \<open>State\<close>

record ppcom_opt =
  port :: "string option"
  baud :: int
  flow :: flowcntrl_e
  parity :: parity_e
  databits :: int
  stopbits :: int
  lecho :: bool
  noinit :: bool
  noreset :: bool
  hangup :: bool
  nolock :: bool
  escape :: byte
  noescape :: bool
  send_cmd :: string
  receive_cmd :: string
  imap :: flags
  omap :: flags
  emap :: flags
  log_filename :: "string option"
  initstring :: "string option"
  exit_after :: int
  opt_exit :: bool
  lower_rts :: bool
  lower_dtr :: bool
  raise_rts :: bool
  raise_dtr :: bool
  quiet :: bool

text \<open>The output queue: the allocated size, and the bytes in use (\<^verbatim>\<open>buff[0] .. buff[len-1]\<close>).\<close>

record ttyq =
  q_sz :: nat
  q_buff :: "byte list"

text \<open>
  How a child process ends, as \<^verbatim>\<open>waitpid\<close> reports it; \<open>W_other\<close> carries the process number
  \<^verbatim>\<open>waitpid\<close> returned.
\<close>

datatype wait_status = W_exited int | W_signaled int | W_other nat

record app = term_lib +
  opts :: ppcom_opt
  sig_exit :: bool
  tty_fd :: int
  log_fd :: int
  rts_up :: bool
  dtr_up :: bool
  tty_q :: ttyq
  tty_write_sz :: int
  msg_fd :: int
  ctl_fd :: int
  stack_mem :: "byte list"
  children :: "wait_status list"

text \<open>
  A piece of the program ends in one of four ways: it returns, or the process is gone: by
  \<^verbatim>\<open>exit\<close> (after the exit handlers), by \<^verbatim>\<open>abort\<close> (no handlers), or because the language does not
  define what happens.
\<close>

datatype halt = Exited int app | Aborted app | Undefined app

type_synonym 'r prog = "app \<Rightarrow> halt + 'r \<times> app"

definition ret :: "'r \<Rightarrow> 'r prog" where
  "ret r s = Inr (r, s)"

definition bindp :: "'r prog \<Rightarrow> ('r \<Rightarrow> 'q prog) \<Rightarrow> 'q prog" where
  "bindp m f s = (case m s of Inl h \<Rightarrow> Inl h | Inr (r, s') \<Rightarrow> f r s')"

definition upd :: "(app \<Rightarrow> app) \<Rightarrow> unit prog" where
  "upd f s = Inr ((), f s)"

text \<open>A function of the libraries, which always returns.\<close>

definition call :: "(app \<Rightarrow> 'r \<times> app) \<Rightarrow> 'r prog" where
  "call f s = Inr (f s)"

definition STI :: int where "STI = 0"
definition STO :: int where "STO = 1"
definition STE :: int where "STE = 2"

definition EXIT_SUCCESS :: int where "EXIT_SUCCESS = 0"
definition EXIT_FAILURE :: int where "EXIT_FAILURE = 1"

definition set_opts :: "(ppcom_opt \<Rightarrow> ppcom_opt) \<Rightarrow> app \<Rightarrow> app" where
  "set_opts f s = s\<lparr>opts := f (opts s)\<rparr>"

section \<open>Messages and the end of the program\<close>

definition say :: "int \<Rightarrow> string \<Rightarrow> app \<Rightarrow> app" where
  "say fd txt s = snd (fd_printf fd txt (stack_mem s) s)"

definition pinfo :: "string \<Rightarrow> app \<Rightarrow> app" where
  "pinfo txt s = (if quiet (opts s) then s else snd (fd_vprintf STO txt (stack_mem s) s))"

definition cleanup :: "bool \<Rightarrow> bool \<Rightarrow> bool \<Rightarrow> app \<Rightarrow> app" where
  "cleanup drain nrst hup s0 =
     (let s1 =
        (if tty_fd s0 \<ge> 0 then
           (let fd = tty_fd s0;
                s1 = (if drain then snd (term_drain fd s0) else s0);
                s2 = snd (term_flush fd s1);
                s3 = (if flow (opts s2) \<noteq> FC_NONE then snd (term_fake_flush fd s2) else s2);
                s4 = snd (term_set_hupcl fd (\<not> nrst \<or> hup) s3);
                s5 = snd (term_apply fd True s4)
            in
            if nrst then
              (let s6 = pinfo (''Skipping tty reset...'' @ crlf) s5;
                   s7 = snd (term_erase fd s6);
                   s8 = (if USE_FLOCK (os_cfg s7) then event (E_unlock fd) s7 else s7);
                   s9 = os_close fd s8
               in s9\<lparr>tty_fd := -1\<rparr>)
            else s5)
         else s0);
          s2 = set_opts (\<lambda>o'. o'\<lparr>initstring := None\<rparr>) s1;
          s3 = s2\<lparr>tty_q := (tty_q s2)\<lparr>q_buff := []\<rparr>\<rparr>
      in if log_filename (opts s3) \<noteq> None then os_close (log_fd s3) s3 else s3)"

text \<open>\<^verbatim>\<open>exit\<close> runs the handler the terminal library has installed.\<close>

definition exit_prog :: "int \<Rightarrow> app \<Rightarrow> halt" where
  "exit_prog code s = Exited code (event (E_exit code) (term_exitfunc s))"

definition fatal :: "string \<Rightarrow> app \<Rightarrow> halt + 'r \<times> app" where
  "fatal txt s =
     (let s1 = say STE (crlf @ ''FATAL: '') s;
          s2 = snd (fd_vprintf STE txt (stack_mem s1) s1);
          s3 = say STE crlf s2
      in Inl (exit_prog EXIT_FAILURE (cleanup False (noreset (opts s3)) (hangup (opts s3)) s3)))"

definition strerror_of :: "app \<Rightarrow> string" where
  "strerror_of s = os_strerror s (os_errno s)"

definition term_error :: "app \<Rightarrow> string" where
  "term_error s =
     (case term_strerror (os_strerror s) (term_errno s) (os_errno s) of None \<Rightarrow> ''(null)'' | Some m \<Rightarrow> m)"

section \<open>The output queue\<close>

definition TTY_Q_SZ_MIN :: nat where "TTY_Q_SZ_MIN = 256"

text \<open>A failed assertion of \<open>do_map\<close> aborts the program.\<close>

definition do_map_prog :: "flags \<Rightarrow> byte \<Rightarrow> byte list prog" where
  "do_map_prog m c s =
     (case do_map (NDEBUG (os_cfg s)) m c of None \<Rightarrow> Inl (Aborted s) | Some b \<Rightarrow> Inr (b, s))"

definition map_and_write :: "int \<Rightarrow> flags \<Rightarrow> byte \<Rightarrow> unit prog" where
  "map_and_write fd m c =
     bindp (do_map_prog m c) (\<lambda>b s.
       if b \<noteq> [] then
         (case writen_ni fd b s of (r, s') \<Rightarrow>
            if r < length b then fatal (''write to stdout failed: '' @ strerror_of s') s' else Inr ((), s'))
       else Inr ((), s))"

definition q_len :: "app \<Rightarrow> nat" where
  "q_len s = length (q_buff (tty_q s))"

text \<open>
  The loop that makes room for one mapped character: \<open>True\<close> when there is room, \<open>False\<close> when the
  limit is reached or memory is short.  A queue of size 0 would be reallocated to 0 bytes for ever or
  lost, which the language does not define.
\<close>

function q_grow :: "app \<Rightarrow> halt + bool \<times> app" where
  "q_grow s =
     (if q_len s + M_MAXMAP > q_sz (tty_q s) then
        (let sz = q_sz (tty_q s) * 2 in
         if TTY_Q_SZ (os_cfg s) \<noteq> 0 \<and> sz > TTY_Q_SZ (os_cfg s) then Inr (False, s)
         else if sz = 0 then Inl (Undefined s)
         else (case syscall (\<lambda>s. s) s of
                 (False, s') \<Rightarrow> Inr (False, s')
               | (True, s') \<Rightarrow> q_grow (s'\<lparr>tty_q := (tty_q s')\<lparr>q_sz := sz\<rparr>\<rparr>)))
      else Inr (True, s))"
  by pat_completeness auto
termination
  by (relation "measure (\<lambda>s. q_len s + M_MAXMAP - q_sz (tty_q s))")
     (auto simp: q_len_def syscall_def split: list.splits if_splits)

declare q_grow.simps [simp del]

fun tty_q_push_loop :: "byte list \<Rightarrow> nat \<Rightarrow> nat prog" where
  "tty_q_push_loop [] i = ret i"
| "tty_q_push_loop (c # cs) i =
     bindp q_grow (\<lambda>room.
       if \<not> room then ret i
       else
         bindp (\<lambda>s. do_map_prog (omap (opts s)) c s) (\<lambda>b.
         bindp (upd (\<lambda>s. s\<lparr>tty_q := (tty_q s)\<lparr>q_buff := q_buff (tty_q s) @ b\<rparr>\<rparr>)) (\<lambda>_.
         bindp (\<lambda>s. if lecho (opts s) then map_and_write STO (emap (opts s)) c s else Inr ((), s)) (\<lambda>_.
         tty_q_push_loop cs (i + 1)))))"

definition tty_q_push :: "byte list \<Rightarrow> nat prog" where
  "tty_q_push bs = tty_q_push_loop bs 0"

end
