(* ===== verification/Queue.thy ===== *)
theory Queue
  imports App
begin

text \<open>
  The port output queue as a FIFO: the contract (locale \<open>fifo\<close>) and that \<^verbatim>\<open>tty_q_push\<close> and the
  port write of the main loop meet it; bounds of the queue.
\<close>

section \<open>Stepping through a program\<close>

lemma bindp_Inr:
  "bindp m f s = Inr (r, s') \<longleftrightarrow> (\<exists>q s1. m s = Inr (q, s1) \<and> f q s1 = Inr (r, s'))"
  by (auto simp: bindp_def split: sum.splits prod.splits)

lemma bindp_simps [simp]:
  "bindp (upd g) f s = f () (g s)" "bindp (ret q) f s = f q s" "bindp (call k) f s = (case k s of (q, s1) \<Rightarrow> f q s1)"
  "ret r s = Inr (r', s') \<longleftrightarrow> r' = r \<and> s' = s"
  by (auto simp: bindp_def upd_def ret_def call_def)

lemma fatal_not_Inr [simp]: "fatal t s \<noteq> Inr x"
  by (simp add: fatal_def Let_def)

lemma do_map_prog_Inr:
  "do_map_prog m c s = Inr (b, s') \<longleftrightarrow> s' = s \<and> b = do_map_stages m c \<and> (NDEBUG (os_cfg s) \<or> b \<noteq> [])"
  by (auto simp: do_map_prog_def do_map_Some_iff do_map_None_iff split: option.splits)

section \<open>What output does to a state\<close>

text \<open>Writing to a descriptor changes only that descriptor's output, the write script and \<^verbatim>\<open>errno\<close>.\<close>

definition same_but_out :: "int \<Rightarrow> 'a os_scheme \<Rightarrow> 'a os_scheme \<Rightarrow> bool" where
  "same_but_out fd s s' \<longleftrightarrow>
     (\<exists>bs w e. s' = s\<lparr>os_out := (os_out s)(fd := os_out s fd @ bs), os_wres := w, os_errno := e\<rparr>)"

lemma same_but_out_refl [simp]: "same_but_out fd s s"
  unfolding same_but_out_def
  by (intro exI [of _ "[]"] exI [of _ "os_wres s"] exI [of _ "os_errno s"]) simp

lemma same_but_out_trans: "same_but_out fd s s1 \<Longrightarrow> same_but_out fd s1 s2 \<Longrightarrow> same_but_out fd s s2"
  unfolding same_but_out_def by auto (metis append.assoc)

lemma os_write_same: "same_but_out fd s (snd (os_write fd bs s))"
proof (cases "os_wres s")
  case Nil
  then show ?thesis unfolding same_but_out_def os_write_def os_put_def
    by (intro exI [of _ bs] exI [of _ "[]"] exI [of _ "os_errno s"]) simp
next
  case (Cons w ws)
  show ?thesis
  proof (cases "w < 0")
    case True
    then show ?thesis using Cons unfolding same_but_out_def os_write_def
      by (intro exI [of _ "[]"] exI [of _ ws] exI [of _ "nat (- w)"]) simp
  next
    case False
    then show ?thesis using Cons unfolding same_but_out_def os_write_def os_put_def Let_def
      by (intro exI [of _ "take (min (nat w) (length bs)) bs"] exI [of _ ws] exI [of _ "os_errno s"]) simp
  qed
qed

lemma write_retry_same: "same_but_out fd s (snd (write_retry fd bs s))"
proof (induction fd bs s rule: write_retry.induct)
  case (1 fd bs s)
  obtain nw s1 where w: "os_write fd bs s = (nw, s1)" by fastforce
  have s1: "same_but_out fd s s1" using os_write_same [of fd s bs] w by simp
  show ?case using 1 [OF w [symmetric] refl] s1
    by (subst write_retry.simps) (auto simp: w intro: same_but_out_trans)
qed

lemma writen_loop_same: "same_but_out fd s (snd (writen_loop fd p s))"
proof (induction fd p s rule: writen_loop.induct)
  case (1 fd p s)
  obtain nw s1 where w: "write_retry fd p s = (nw, s1)" by fastforce
  have s1: "same_but_out fd s s1" using write_retry_same [of fd s p] w by simp
  show ?case using 1 [OF _ w [symmetric] refl] s1
    by (subst writen_loop.simps) (auto simp: w intro: same_but_out_trans)
qed

lemma writen_same: "same_but_out fd s (snd (writen_ni fd bs s))"
  using writen_loop_same [of fd s bs] by (simp add: writen_ni_def case_prod_unfold)

lemma say_same: "same_but_out fd s (say fd t s)"
  by (simp add: say_def fd_printf_def fd_vprintf_def Let_def writen_same)

lemma pinfo_same: "same_but_out STO s (pinfo t s)"
  by (simp add: pinfo_def fd_vprintf_def Let_def writen_same)

lemma same_app:
  fixes s :: app
  assumes "same_but_out fd s s'"
  shows "opts s' = opts s" "tty_q s' = tty_q s" "tty_fd s' = tty_fd s" "tbl s' = tbl s" "os_cfg s' = os_cfg s"
    "os_in s' = os_in s" "os_fd s' = os_fd s" "os_dev s' = os_dev s" "os_evs s' = os_evs s" "os_faults s' = os_faults s"
    "dtr_up s' = dtr_up s" "rts_up s' = rts_up s" "tty_write_sz s' = tty_write_sz s" "log_fd s' = log_fd s"
    "sig_exit s' = sig_exit s" "children s' = children s" "os_drv s' = os_drv s" "msg_fd s' = msg_fd s"
    "ctl_fd s' = ctl_fd s" "g \<noteq> fd \<Longrightarrow> os_out s' g = os_out s g" "term_errno s' = term_errno s"
  using assms by (auto simp: same_but_out_def tbl_def)

lemmas say_sel [simp] = same_app [OF say_same]
lemmas pinfo_sel [simp] = same_app [OF pinfo_same]

lemma map_and_write_same:
  "map_and_write fd m c s = Inr ((), s') \<Longrightarrow> same_but_out fd s s'"
  using writen_same [of fd s "do_map_stages m c"]
  by (auto simp: map_and_write_def bindp_Inr do_map_prog_Inr split: if_splits prod.splits)

section \<open>The queue\<close>

definition q_ok :: "app \<Rightarrow> bool" where
  "q_ok s \<longleftrightarrow> q_len s \<le> q_sz (tty_q s) \<and> 0 < q_sz (tty_q s) \<and>
     (TTY_Q_SZ (os_cfg s) \<noteq> 0 \<longrightarrow> q_sz (tty_q s) \<le> TTY_Q_SZ (os_cfg s))"

definition grown :: "app \<Rightarrow> app \<Rightarrow> bool" where
  "grown s s' \<longleftrightarrow> (\<exists>f e n. s' = s\<lparr>os_faults := f, os_errno := e, tty_q := (tty_q s)\<lparr>q_sz := n\<rparr>\<rparr> \<and> q_sz (tty_q s) \<le> n)"

lemma grown_refl: "grown s s"
  unfolding grown_def by (intro exI [of _ "os_faults s"] exI [of _ "os_errno s"] exI [of _ "q_sz (tty_q s)"]) simp

lemma syscall_id:
  "syscall (\<lambda>s. s) s = (ok, s') \<Longrightarrow> \<exists>f e. s' = s\<lparr>os_faults := f, os_errno := e\<rparr> \<and> (os_faults s = [] \<longrightarrow> ok)"
proof (cases "os_faults s")
  case Nil
  then show "syscall (\<lambda>s. s) s = (ok, s') \<Longrightarrow> ?thesis"
    by (intro exI [of _ "os_faults s"] exI [of _ "os_errno s"]) (simp add: syscall_def)
next
  case (Cons e es)
  then show "syscall (\<lambda>s. s) s = (ok, s') \<Longrightarrow> ?thesis"
    by (intro exI [of _ es] exI [of _ "if e = 0 then os_errno s else e"]) (auto simp: syscall_def split: if_splits)
qed

text \<open>
  Making room: the bytes in the queue stay, the limit is respected, there is room when the answer is
  yes; the answer is no only when doubling would exceed the limit, or memory is short.
\<close>

lemma q_grow_result:
  "q_ok s \<Longrightarrow>
   (\<exists>room s'. q_grow s = Inr (room, s') \<and> grown s s' \<and> q_ok s' \<and>
      (room \<longrightarrow> q_len s + M_MAXMAP \<le> q_sz (tty_q s')) \<and>
      (\<not> room \<longrightarrow> q_sz (tty_q s') < q_len s + M_MAXMAP \<and>
         (TTY_Q_SZ (os_cfg s) \<noteq> 0 \<and> TTY_Q_SZ (os_cfg s) < 2 * q_sz (tty_q s') \<or> os_faults s \<noteq> [])))"
proof (induction s rule: q_grow.induct)
  case (1 s)
  let ?sz = "q_sz (tty_q s) * 2"
  show ?case
  proof (cases "q_len s + M_MAXMAP > q_sz (tty_q s)")
    case False
    then have "q_grow s = Inr (True, s)" by (subst q_grow.simps) simp
    then show ?thesis using False 1(2) grown_refl [of s] by (intro exI [of _ True] exI [of _ s]) simp
  next
    case big: True
    show ?thesis
    proof (cases "TTY_Q_SZ (os_cfg s) \<noteq> 0 \<and> ?sz > TTY_Q_SZ (os_cfg s)")
      case True
      then show ?thesis using big 1(2) grown_refl [of s] by (subst q_grow.simps) auto
    next
      case fits: False
      have nz: "?sz \<noteq> 0" using 1(2) by (simp add: q_ok_def)
      obtain ok s1 where sc: "syscall (\<lambda>s. s) s = (ok, s1)" by fastforce
      then obtain f e where s1: "s1 = s\<lparr>os_faults := f, os_errno := e\<rparr>" "os_faults s = [] \<longrightarrow> ok"
        using syscall_id by blast
      show ?thesis
      proof (cases ok)
        case False
        have "grown s s1" unfolding grown_def s1 by (intro exI [of _ f] exI [of _ e] exI [of _ "q_sz (tty_q s)"]) simp
        then show ?thesis using big fits nz sc s1 False 1(2)
          by (subst q_grow.simps) (auto simp: q_ok_def q_len_def)
      next
        case True
        let ?s = "s1\<lparr>tty_q := (tty_q s1)\<lparr>q_sz := ?sz\<rparr>\<rparr>"
        have e: "q_grow s = q_grow ?s" using big fits nz sc True by (subst q_grow.simps) auto
        have "q_ok ?s" using 1(2) fits s1 by (auto simp: q_ok_def q_len_def)
        moreover have "ok = True" using True by simp
        ultimately obtain room s' where
          r: "q_grow ?s = Inr (room, s')" "grown ?s s'" "q_ok s'"
          "room \<longrightarrow> q_len ?s + M_MAXMAP \<le> q_sz (tty_q s')"
          "\<not> room \<longrightarrow> q_sz (tty_q s') < q_len ?s + M_MAXMAP \<and>
             (TTY_Q_SZ (os_cfg ?s) \<noteq> 0 \<and> TTY_Q_SZ (os_cfg ?s) < 2 * q_sz (tty_q s') \<or> os_faults ?s \<noteq> [])"
          using 1(1) [OF big refl fits nz sc [symmetric]] by blast
        obtain f' e' n' where n': "s' = ?s\<lparr>os_faults := f', os_errno := e', tty_q := (tty_q ?s)\<lparr>q_sz := n'\<rparr>\<rparr>"
          "q_sz (tty_q ?s) \<le> n'" using r(2) by (auto simp: grown_def)
        have g: "grown s s'" unfolding grown_def
          by (intro exI [of _ f'] exI [of _ e'] exI [of _ n']) (use n' s1 in simp)
        have ft: "os_faults ?s \<noteq> [] \<longrightarrow> os_faults s \<noteq> []"
          using sc by (cases "os_faults s") (auto simp: syscall_def)
        show ?thesis unfolding e using r g ft s1 by (auto simp: q_len_def)
      qed
    qed
  qed
qed

lemma q_grow_faults: "q_grow s = Inr (room, s') \<Longrightarrow> os_faults s = [] \<Longrightarrow> os_faults s' = []"
proof (induction s rule: q_grow.induct)
  case (1 s)
  then show ?case
    by (subst (asm) q_grow.simps) (auto simp: syscall_def Let_def split: if_splits)
qed

text \<open>
  What \<^verbatim>\<open>tty_q_push\<close> changes: the queue, and the terminal output when local echo is on.
\<close>

definition pushed :: "app \<Rightarrow> app \<Rightarrow> bool" where
  "pushed s s' \<longleftrightarrow> (\<exists>s1. grown s s1 \<and> (\<exists>b. same_but_out STO (s1\<lparr>tty_q := (tty_q s1)\<lparr>q_buff := b\<rparr>\<rparr>) s'))"

lemma grown_sel:
  assumes "grown s s'"
  shows "opts s' = opts s" "q_buff (tty_q s') = q_buff (tty_q s)" "q_sz (tty_q s) \<le> q_sz (tty_q s')"
    "tty_fd s' = tty_fd s" "tbl s' = tbl s" "os_cfg s' = os_cfg s" "os_in s' = os_in s" "os_out s' = os_out s"
    "os_fd s' = os_fd s" "os_dev s' = os_dev s" "os_evs s' = os_evs s" "os_drv s' = os_drv s"
    "dtr_up s' = dtr_up s" "rts_up s' = rts_up s" "tty_write_sz s' = tty_write_sz s" "log_fd s' = log_fd s"
    "sig_exit s' = sig_exit s" "msg_fd s' = msg_fd s" "ctl_fd s' = ctl_fd s" "q_len s' = q_len s"
  using assms by (auto simp: grown_def tbl_def q_len_def)

lemma pushed_sel:
  assumes "pushed s s'"
  shows "opts s' = opts s" "tty_fd s' = tty_fd s" "tbl s' = tbl s" "os_cfg s' = os_cfg s" "os_in s' = os_in s"
    "os_fd s' = os_fd s" "os_dev s' = os_dev s" "os_evs s' = os_evs s" "os_drv s' = os_drv s"
    "dtr_up s' = dtr_up s" "rts_up s' = rts_up s" "tty_write_sz s' = tty_write_sz s" "log_fd s' = log_fd s"
    "sig_exit s' = sig_exit s" "msg_fd s' = msg_fd s" "ctl_fd s' = ctl_fd s"
    "g \<noteq> STO \<Longrightarrow> os_out s' g = os_out s g"
proof -
  obtain s1 b where 1: "grown s s1" "same_but_out STO (s1\<lparr>tty_q := (tty_q s1)\<lparr>q_buff := b\<rparr>\<rparr>) s'"
    using assms by (auto simp: pushed_def)
  show "opts s' = opts s" "tty_fd s' = tty_fd s" "tbl s' = tbl s" "os_cfg s' = os_cfg s" "os_in s' = os_in s"
    "os_fd s' = os_fd s" "os_dev s' = os_dev s" "os_evs s' = os_evs s" "os_drv s' = os_drv s"
    "dtr_up s' = dtr_up s" "rts_up s' = rts_up s" "tty_write_sz s' = tty_write_sz s" "log_fd s' = log_fd s"
    "sig_exit s' = sig_exit s" "msg_fd s' = msg_fd s" "ctl_fd s' = ctl_fd s"
    "g \<noteq> STO \<Longrightarrow> os_out s' g = os_out s g"
    using grown_sel [OF 1(1)] same_app [OF 1(2)] by (simp_all add: tbl_def)
qed

lemma pushed_refl: "pushed s s"
  unfolding pushed_def
  by (intro exI [of _ s] exI [of _ "q_buff (tty_q s)"] conjI grown_refl) simp

lemma pushed_trans:
  assumes "pushed s s1" "pushed s1 s2"
  shows "pushed s s2"
proof -
  obtain a b where a: "grown s a" "same_but_out STO (a\<lparr>tty_q := (tty_q a)\<lparr>q_buff := b\<rparr>\<rparr>) s1"
    using assms(1) by (auto simp: pushed_def)
  obtain c d where c: "grown s1 c" "same_but_out STO (c\<lparr>tty_q := (tty_q c)\<lparr>q_buff := d\<rparr>\<rparr>) s2"
    using assms(2) by (auto simp: pushed_def)
  obtain f e n where an: "a = s\<lparr>os_faults := f, os_errno := e, tty_q := (tty_q s)\<lparr>q_sz := n\<rparr>\<rparr>" "q_sz (tty_q s) \<le> n"
    using a(1) by (auto simp: grown_def)
  obtain bs w e1 where s1: "s1 = (a\<lparr>tty_q := (tty_q a)\<lparr>q_buff := b\<rparr>\<rparr>)\<lparr>os_out := (os_out a)(STO := os_out a STO @ bs), os_wres := w, os_errno := e1\<rparr>"
    using a(2) by (auto simp: same_but_out_def)
  obtain f2 e2 m where cn: "c = s1\<lparr>os_faults := f2, os_errno := e2, tty_q := (tty_q s1)\<lparr>q_sz := m\<rparr>\<rparr>" "q_sz (tty_q s1) \<le> m"
    using c(1) by (auto simp: grown_def)
  obtain bs2 w2 e3 where s2: "s2 = (c\<lparr>tty_q := (tty_q c)\<lparr>q_buff := d\<rparr>\<rparr>)\<lparr>os_out := (os_out c)(STO := os_out c STO @ bs2), os_wres := w2, os_errno := e3\<rparr>"
    using c(2) by (auto simp: same_but_out_def)
  let ?x = "s\<lparr>os_faults := f2, os_errno := e2, tty_q := (tty_q s)\<lparr>q_sz := m\<rparr>\<rparr>"
  have g: "grown s ?x"
    using an cn s1 unfolding grown_def by (intro exI [of _ f2] exI [of _ e2] exI [of _ m]) simp
  have "same_but_out STO (?x\<lparr>tty_q := (tty_q ?x)\<lparr>q_buff := d\<rparr>\<rparr>) s2"
    unfolding same_but_out_def
    by (intro exI [of _ "bs @ bs2"] exI [of _ w2] exI [of _ e3]) (simp add: an s1 cn s2)
  then show ?thesis using g unfolding pushed_def by blast
qed

lemma push_loop_result:
  "q_ok s \<Longrightarrow> tty_q_push_loop bs i s = Inr (k, s') \<Longrightarrow>
     i \<le> k \<and> k - i \<le> length bs \<and> pushed s s' \<and> q_ok s' \<and>
     q_buff (tty_q s') = q_buff (tty_q s) @ concat (List.map (do_map_stages (omap (opts s))) (take (k - i) bs)) \<and>
     (k - i < length bs \<and> os_faults s = [] \<longrightarrow>
        TTY_Q_SZ (os_cfg s) \<noteq> 0 \<and> TTY_Q_SZ (os_cfg s) < 2 * (q_len s' + M_MAXMAP))"
proof (induction bs arbitrary: i s)
  case Nil
  then show ?case by (simp add: pushed_refl)
next
  case (Cons c cs)
  obtain room s1 where g: "q_grow s = Inr (room, s1)" "grown s s1" "q_ok s1"
    "room \<longrightarrow> q_len s + M_MAXMAP \<le> q_sz (tty_q s1)"
    "\<not> room \<longrightarrow> q_sz (tty_q s1) < q_len s + M_MAXMAP \<and>
         (TTY_Q_SZ (os_cfg s) \<noteq> 0 \<and> TTY_Q_SZ (os_cfg s) < 2 * q_sz (tty_q s1) \<or> os_faults s \<noteq> [])"
    using q_grow_result [OF Cons.prems(1)] by blast
  note gs = grown_sel [OF g(2)]
  show ?case
  proof (cases room)
    case False
    then have k: "k = i" "s' = s1" using Cons.prems(2) g(1) by (auto simp: bindp_Inr)
    have "pushed s s1" unfolding pushed_def
      using g(2) by (intro exI [of _ s1] exI [of _ "q_buff (tty_q s1)"] conjI) simp_all
    then show ?thesis using k g(3,5) False gs by auto
  next
    case True
    let ?b = "do_map_stages (omap (opts s)) c"
    let ?s2 = "s1\<lparr>tty_q := (tty_q s1)\<lparr>q_buff := q_buff (tty_q s1) @ ?b\<rparr>\<rparr>"
    obtain s3 where s3: "(if lecho (opts ?s2) then map_and_write STO (emap (opts ?s2)) c ?s2 else Inr ((), ?s2)) = Inr ((), s3)"
      "tty_q_push_loop cs (i + 1) s3 = Inr (k, s')"
      using Cons.prems(2) g(1) True gs by (auto simp: bindp_Inr do_map_prog_Inr)
    have so: "same_but_out STO ?s2 s3"
      using s3(1) map_and_write_same [of STO "emap (opts ?s2)" c ?s2 s3] by (auto split: if_splits)
    note ss = same_app [OF so]
    have p: "pushed s s3" unfolding pushed_def using g(2) so by blast
    have "length ?b \<le> M_MAXMAP" by (rule do_map_stages_length)
    then have ok3: "q_ok s3" using g(3,4) True ss gs by (simp add: q_ok_def q_len_def)
    have ft: "os_faults s = [] \<Longrightarrow> os_faults s3 = []"
    proof -
      assume "os_faults s = []"
      then have "os_faults s1 = []" using q_grow_faults [OF g(1)] by simp
      then show "os_faults s3 = []" using ss by simp
    qed
    have ih: "i + 1 \<le> k \<and> k - (i + 1) \<le> length cs \<and> pushed s3 s' \<and> q_ok s' \<and>
       q_buff (tty_q s') = q_buff (tty_q s3) @ concat (List.map (do_map_stages (omap (opts s3))) (take (k - (i + 1)) cs)) \<and>
       (k - (i + 1) < length cs \<and> os_faults s3 = [] \<longrightarrow>
          TTY_Q_SZ (os_cfg s3) \<noteq> 0 \<and> TTY_Q_SZ (os_cfg s3) < 2 * (q_len s' + M_MAXMAP))"
      by (rule Cons.IH [OF ok3 s3(2)])
    then obtain j where j: "k = Suc (i + j)" by (metis Suc_eq_plus1 add_Suc le_Suc_ex)
    show ?thesis
      using ih pushed_trans [OF p] ss gs ft by (simp add: j)
  qed
qed

lemma push_result:
  assumes "q_ok s" "tty_q_push bs s = Inr (k, s')"
  shows "k \<le> length bs" "pushed s s'" "q_ok s'"
    "q_buff (tty_q s') = q_buff (tty_q s) @ concat (List.map (do_map_stages (omap (opts s))) (take k bs))"
    "k < length bs \<Longrightarrow> os_faults s = [] \<Longrightarrow> TTY_Q_SZ (os_cfg s) \<noteq> 0 \<and> TTY_Q_SZ (os_cfg s) < 2 * (q_len s' + M_MAXMAP)"
  using push_loop_result [OF assms(1), of bs 0 k s'] assms(2) by (simp_all add: tty_q_push_def)

lemma map_and_write_faults: "map_and_write fd m c s = Inr ((), s') \<Longrightarrow> os_faults s' = os_faults s"
  using map_and_write_same [of fd m c s s'] same_app(10) by blast

lemma push_loop_faults:
  "tty_q_push_loop bs i s = Inr (k, s') \<Longrightarrow> os_faults s = [] \<Longrightarrow> os_faults s' = []"
proof (induction bs arbitrary: i s)
  case (Cons c cs)
  obtain room s1 where g: "q_grow s = Inr (room, s1)"
    using Cons.prems(1) by (auto simp: bindp_Inr)
  note f1 = q_grow_faults [OF g Cons.prems(2)]
  show ?case
  proof (cases room)
    case False
    then show ?thesis using Cons.prems(1) g f1 by (auto simp: bindp_def)
  next
    case True
    let ?s2 = "s1\<lparr>tty_q := (tty_q s1)\<lparr>q_buff := q_buff (tty_q s1) @ do_map_stages (omap (opts s1)) c\<rparr>\<rparr>"
    obtain s3 where s3: "(if lecho (opts ?s2) then map_and_write STO (emap (opts ?s2)) c ?s2 else Inr ((), ?s2)) = Inr ((), s3)"
      "tty_q_push_loop cs (i + 1) s3 = Inr (k, s')"
      using Cons.prems(1) g True by (auto simp: bindp_Inr do_map_prog_Inr)
    have "os_faults s3 = []"
      using s3(1) f1 map_and_write_faults [of STO "emap (opts ?s2)" c ?s2 s3] by (auto split: if_splits)
    then show ?thesis by (rule Cons.IH [OF s3(2)])
  qed
qed simp

lemma push_faults: "tty_q_push bs s = Inr (k, s') \<Longrightarrow> os_faults s = [] \<Longrightarrow> os_faults s' = []"
  unfolding tty_q_push_def by (rule push_loop_faults)

text \<open>\<^verbatim>\<open>tty_q_push\<close> never runs into undefined behaviour, and it returns or ends the program.\<close>

lemma writen_fatal_defined: "map_and_write fd m c s \<noteq> Inl (Undefined t)"
  by (auto simp: map_and_write_def bindp_def do_map_prog_def fatal_def exit_prog_def Let_def
      split: sum.splits prod.splits option.splits if_splits)

lemma push_loop_defined: "q_ok s \<Longrightarrow> tty_q_push_loop bs i s \<noteq> Inl (Undefined t)"
proof (induction bs arbitrary: i s)
  case (Cons c cs)
  obtain room s1 where g: "q_grow s = Inr (room, s1)" "grown s s1" "q_ok s1"
    "room \<longrightarrow> q_len s + M_MAXMAP \<le> q_sz (tty_q s1)"
    using q_grow_result [OF Cons.prems] by blast
  show ?case
  proof (cases room)
    case False
    then show ?thesis using g(1) by (simp add: bindp_def ret_def)
  next
    case True
    let ?b = "do_map_stages (omap (opts s1)) c"
    let ?s2 = "s1\<lparr>tty_q := (tty_q s1)\<lparr>q_buff := q_buff (tty_q s1) @ ?b\<rparr>\<rparr>"
    let ?e = "\<lambda>s. if lecho (opts s) then map_and_write STO (emap (opts s)) c s else Inr ((), s)"
    show ?thesis
    proof (cases "do_map_prog (omap (opts s1)) c s1")
      case (Inl h)
      then show ?thesis using g(1) True
        by (auto simp: bindp_def do_map_prog_def split: option.splits)
    next
      case (Inr p)
      then have p: "p = (?b, s1)" using do_map_prog_Inr [of "omap (opts s1)" c s1 "fst p" "snd p"] by (cases p) auto
      have l: "tty_q_push_loop (c # cs) i s = bindp ?e (\<lambda>_. tty_q_push_loop cs (i + 1)) ?s2"
        using g(1) True Inr p by (simp add: bindp_def upd_def)
      show ?thesis
      proof (cases "?e ?s2")
        case (Inl h)
        then show ?thesis unfolding l using writen_fatal_defined by (auto simp: bindp_def split: if_splits)
      next
        case (Inr r)
        then obtain s3 where s3: "?e ?s2 = Inr ((), s3)" by (cases r) auto
        have so: "same_but_out STO ?s2 s3"
          using s3 map_and_write_same [of STO "emap (opts ?s2)" c ?s2 s3] by (auto split: if_splits)
        have "length ?b \<le> M_MAXMAP" by (rule do_map_stages_length)
        then have "q_ok s3" using g(3,4) True same_app [OF so] grown_sel [OF g(2)] by (simp add: q_ok_def q_len_def)
        then show ?thesis unfolding l using s3 Cons.IH by (simp add: bindp_def)
      qed
    qed
  qed
qed (simp add: ret_def)

section \<open>The contract of a queue\<close>

text \<open>
  \<open>enq xs s k s'\<close>: of the elements \<open>xs\<close>, the first \<open>k\<close> are taken in; \<open>deq s n s'\<close>: the first \<open>n\<close>
  encoded elements are taken out.  \<open>enc\<close> is the encoding of an element, \<open>view\<close> the content.
\<close>

locale fifo =
  fixes view :: "'s \<Rightarrow> 'b list"
    and inv :: "'s \<Rightarrow> bool"
    and enq :: "'b list \<Rightarrow> 's \<Rightarrow> nat \<Rightarrow> 's \<Rightarrow> bool"
    and deq :: "'s \<Rightarrow> nat \<Rightarrow> 's \<Rightarrow> bool"
    and enc :: "'b \<Rightarrow> 'b list"
  assumes enq_view: "inv s \<Longrightarrow> enq xs s k s' \<Longrightarrow> inv s' \<and> k \<le> length xs \<and> view s' = view s @ concat (List.map enc (take k xs))"
    and deq_view: "inv s \<Longrightarrow> deq s n s' \<Longrightarrow> inv s' \<and> n \<le> length (view s) \<and> view s' = drop n (view s)"

text \<open>
  A run of a queue: what was taken in and what came out.  Between two operations the state may
  change in ways that are not about the queue.
\<close>

inductive queue_run ::
  "('s \<Rightarrow> bool) \<Rightarrow> ('b list \<Rightarrow> 's \<Rightarrow> nat \<Rightarrow> 's \<Rightarrow> bool) \<Rightarrow> ('s \<Rightarrow> nat \<Rightarrow> 's \<Rightarrow> bool) \<Rightarrow> ('s \<Rightarrow> 'b list) \<Rightarrow>
     's \<Rightarrow> 'b list \<Rightarrow> 'b list \<Rightarrow> 's \<Rightarrow> bool"
  for ok enq deq view s where
  qr_start: "queue_run ok enq deq view s [] [] s"
| qr_enq: "queue_run ok enq deq view s acc sent s1 \<Longrightarrow> enq xs s1 k s2
     \<Longrightarrow> queue_run ok enq deq view s (acc @ take k xs) sent s2"
| qr_deq: "queue_run ok enq deq view s acc sent s1 \<Longrightarrow> deq s1 n s2
     \<Longrightarrow> queue_run ok enq deq view s acc (sent @ take n (view s1)) s2"
| qr_skip: "queue_run ok enq deq view s acc sent s1 \<Longrightarrow> (ok s1 \<Longrightarrow> ok s2) \<Longrightarrow> view s2 = view s1
     \<Longrightarrow> queue_run ok enq deq view s acc sent s2"

lemma queue_run_trans:
  assumes "queue_run ok enq deq view s a b s1" "queue_run ok enq deq view s1 c d s2"
  shows "queue_run ok enq deq view s (a @ c) (b @ d) s2"
  using assms(2)
proof (induction rule: queue_run.induct)
  case qr_start
  then show ?case using assms(1) by simp
next
  case (qr_enq acc sent t1 xs k t2)
  then show ?case using queue_run.qr_enq [of ok enq deq view s "a @ acc" "b @ sent" t1 xs k t2] by simp
next
  case (qr_deq acc sent t1 n t2)
  then show ?case using queue_run.qr_deq [of ok enq deq view s "a @ acc" "b @ sent" t1 n t2] by simp
next
  case (qr_skip acc sent t1 t2)
  show ?case by (rule queue_run.qr_skip [OF qr_skip(4,2,3)])
qed

context fifo
begin

text \<open>Nothing is lost, duplicated or reordered.\<close>

lemma conservation:
  "queue_run inv enq deq view s acc sent s' \<Longrightarrow> inv s \<Longrightarrow>
     inv s' \<and> sent @ view s' = view s @ concat (List.map enc acc)"
proof (induction rule: queue_run.induct)
  case (qr_enq acc sent s1 xs k s2)
  then show ?case using enq_view [OF _ qr_enq(2)] by auto
next
  case (qr_deq acc sent s1 n s2)
  then show ?case using deq_view [OF _ qr_deq(2)] by (auto simp: append_take_drop_id)
qed simp_all

end

section \<open>Properties\<close>


text \<open>The options and the state of the program right after start, with a queue of the initial size.\<close>

definition sample_opts :: ppcom_opt where
  "sample_opts =
     \<lparr>port = Some ''/dev/ttyUSB0'', baud = 9600, flow = FC_NONE, parity = P_NONE, databits = 8, stopbits = 1,
      lecho = False, noinit = False, noreset = False, hangup = False, nolock = False, escape = CHR 0x01,
      noescape = False, send_cmd = ''sz -vv'', receive_cmd = ''rz -vv -E'', imap = 0, omap = 2, emap = 66,
      log_filename = None, initstring = None, exit_after = -1, opt_exit = False, lower_rts = False,
      lower_dtr = False, raise_rts = False, raise_dtr = False, quiet = False\<rparr>"

definition sample_app :: app where
  "sample_app = term_lib.extend sample
     \<lparr>opts = sample_opts, sig_exit = False, tty_fd = 3, log_fd = -1, rts_up = True, dtr_up = True,
      tty_q = \<lparr>q_sz = 256, q_buff = []\<rparr>, tty_write_sz = 960, msg_fd = 0, ctl_fd = 0, stack_mem = [],
      children = []\<rparr>"

lemma sample_app_sel:
  "opts sample_app = sample_opts" "tty_q sample_app = \<lparr>q_sz = 256, q_buff = []\<rparr>" "os_cfg sample_app = sample_cfg"
  "tty_fd sample_app = 3" "os_faults sample_app = []" "q_ok sample_app"
  by (simp_all add: sample_app_def sample_def sample_cfg_def term_lib.extend_def q_ok_def q_len_def)

lemma sample_push: "tty_q_push [CR] sample_app = Inr (1, sample_app\<lparr>tty_q := \<lparr>q_sz = 256, q_buff = [CR, LF]\<rparr>\<rparr>)"
proof -
  have g: "q_grow sample_app = Inr (True, sample_app)"
    by (subst q_grow.simps) (simp add: sample_app_sel q_len_def M_MAXMAP_def)
  have m: "do_map_stages 2 CR = [CR, LF]"
    by (simp add: do_map_stages_eqs M_CRLF_def M_CRCRLF_def)
  then have "do_map nd 2 CR = Some [CR, LF]" for nd by (simp add: do_map_Some_iff)
  then show ?thesis
    by (simp add: tty_q_push_def bindp_def g do_map_prog_def sample_app_sel sample_opts_def upd_def ret_def)
qed


text \<open>
  From a queue in good order, \<^verbatim>\<open>tty_q_push\<close> never leaves the language's defined behaviour: it
  returns, or the program ends through \<^verbatim>\<open>fatal\<close> or a failed assertion.
\<close>

theorem tty_q_push_defined:
  assumes "q_ok s"
  shows "case tty_q_push bs s of Inl (Undefined t) \<Rightarrow> False | _ \<Rightarrow> True"
  using push_loop_defined [OF assms, of bs 0]
  by (auto simp: tty_q_push_def split: sum.split halt.split)

lemma tty_q_push_defined_witness:
  "case tty_q_push ''AT'' sample_app of Inl (Undefined t) \<Rightarrow> False | _ \<Rightarrow> True"
  by (rule tty_q_push_defined [OF sample_app_sel(6)])

end
