(* ===== verification/Options.thy ===== *)
theory Options
  imports Queue
begin

text \<open>
  The command line, \<^verbatim>\<open>src/ppcom/src/ppcom.cpp\<close>: the defaults, \<^verbatim>\<open>parse_args\<close> on what
  \<^verbatim>\<open>getopt_long\<close> returns, the summary it prints, and the number parsing of the C library
  (\<^verbatim>\<open>strtol\<close>, \<^verbatim>\<open>atoi\<close>) it relies on.
\<close>

section \<open>strtol\<close>

definition isspace :: "char \<Rightarrow> bool" where
  "isspace c \<longleftrightarrow> c = CHR '' '' \<or> 9 \<le> byte_val c \<and> byte_val c \<le> 13"

definition digit_val :: "char \<Rightarrow> nat" where
  "digit_val c =
     (let v = byte_val c in
      if 48 \<le> v \<and> v \<le> 57 then v - 48
      else if 97 \<le> v \<and> v \<le> 122 then v - 87
      else if 65 \<le> v \<and> v \<le> 90 then v - 55
      else 255)"

definition LONG_MAX :: int where "LONG_MAX = 2 ^ 63 - 1"
definition LONG_MIN :: int where "LONG_MIN = - (2 ^ 63)"

text \<open>The value and the rest of the string (\<^verbatim>\<open>*endptr\<close>); out of range values saturate.\<close>

definition strtol :: "nat \<Rightarrow> string \<Rightarrow> int \<times> string" where
  "strtol base s =
     (let s1 = dropWhile isspace s;
          neg = (s1 \<noteq> [] \<and> hd s1 = CHR ''-'');
          s2 = (if s1 \<noteq> [] \<and> (hd s1 = CHR ''-'' \<or> hd s1 = CHR ''+'') then tl s1 else s1);
          hex = (base \<in> {0, 16} \<and> take 1 s2 = ''0'' \<and> (take 1 (drop 1 s2) = ''x'' \<or> take 1 (drop 1 s2) = ''X'') \<and>
                 drop 2 s2 \<noteq> [] \<and> digit_val (hd (drop 2 s2)) < 16);
          b = (if hex then 16 else if base = 0 then (if take 1 s2 = ''0'' then 8 else 10) else base);
          s3 = (if hex then drop 2 s2 else s2);
          ds = takeWhile (\<lambda>c. digit_val c < b) s3;
          v = foldl (\<lambda>a c. a * int b + int (digit_val c)) 0 ds;
          w = (if neg then - v else v)
      in if ds = [] then (0, s) else (max LONG_MIN (min LONG_MAX w), drop (length ds) s3))"

definition atoi :: "string \<Rightarrow> int" where
  "atoi s = c_int (fst (strtol 10 s))"

section \<open>Option names and texts\<close>

fun parity_str :: "parity_e \<Rightarrow> string" where
  "parity_str P_NONE = ''none''"
| "parity_str P_EVEN = ''even''"
| "parity_str P_ODD = ''odd''"
| "parity_str P_MARK = ''mark''"
| "parity_str P_SPACE = ''space''"
| "parity_str P_ERROR = ''invalid parity mode''"

fun flow_str :: "flowcntrl_e \<Rightarrow> string" where
  "flow_str FC_NONE = ''none''"
| "flow_str FC_RTSCTS = ''RTS/CTS''"
| "flow_str FC_XONXOFF = ''xon/xoff''"
| "flow_str FC_OTHER = ''other''"
| "flow_str FC_ERROR = ''invalid flow control mode''"

definition KEYC :: "byte \<Rightarrow> byte" where
  "KEYC k = char_of (byte_val k OR 0x60)"

definition CKEY :: "byte \<Rightarrow> byte" where
  "CKEY c = char_of (byte_val c AND 0x1f)"

definition yes_no :: "bool \<Rightarrow> string" where
  "yes_no b = (if b then ''yes'' else ''no'')"

section \<open>Defaults\<close>

definition init_default_options :: ppcom_opt where
  "init_default_options =
     \<lparr>port = None, baud = 9600, flow = FC_NONE, parity = P_NONE, databits = 8, stopbits = 1,
      lecho = False, noinit = False, noreset = False, hangup = False, nolock = False,
      escape = CKEY (CHR ''q''), noescape = False,
      send_cmd = ''sz -vv'', receive_cmd = ''rz -vv -E'',
      imap = M_I_DFL, omap = M_O_DFL, emap = M_E_DFL,
      log_filename = None, initstring = None, exit_after = -1, opt_exit = False,
      lower_rts = False, lower_dtr = False, raise_rts = False, raise_dtr = False, quiet = False\<rparr>"

section \<open>The log file name\<close>

text \<open>The broken-down time of \<^verbatim>\<open>localtime\<close>: year, month, day, hour, minute, second.\<close>

type_synonym tm = "nat \<times> nat \<times> nat \<times> nat \<times> nat \<times> nat"

definition fmt02 :: "nat \<Rightarrow> string" where
  "fmt02 n = (if n < 10 then CHR ''0'' # dec_nat n else dec_nat n)"

fun tm_text :: "tm \<Rightarrow> string" where
  "tm_text (y, mo, d, h, mi, s) =
     ''_'' @ dec_nat y @ fmt02 mo @ fmt02 d @ ''_'' @ fmt02 h @ fmt02 mi @ fmt02 s"

text \<open>\<^verbatim>\<open>strstr\<close>: the text before and after the first occurrence.\<close>

fun strstr :: "string \<Rightarrow> string \<Rightarrow> (string \<times> string) option" where
  "strstr [] p = (if p = [] then Some ([], []) else None)"
| "strstr (c # s) p =
     (if take (length p) (c # s) = p then Some ([], drop (length p) (c # s))
      else map_option (\<lambda>(a, b). (c # a, b)) (strstr s p))"

lemma strstr_Some: "strstr s p = Some (a, b) \<Longrightarrow> s = a @ p @ b"
proof (induction s arbitrary: a)
  case (Cons c s)
  then show ?case by (auto split: if_splits) (metis append_take_drop_id)
qed (auto split: if_splits)

lemma digit_chars: "c \<in> set (dec_nat n) \<Longrightarrow> c \<noteq> CHR ''d''"
proof (induction n rule: dec_nat.induct)
  case (1 n)
  have d: "digit k \<noteq> CHR ''d''" if "k < 10" for k
  proof
    assume "digit k = CHR ''d''"
    then have "byte_val (digit k) = 100" by simp
    with that show False by (simp add: digit_def)
  qed
  have "digit (n mod 10) \<noteq> CHR ''d''" by (rule d) simp
  moreover have "set (dec_nat n) = (if n < 10 then {digit n} else insert (digit (n mod 10)) (set (dec_nat (n div 10))))"
    by (simp add: dec_nat.simps [of n])
  ultimately show ?case using 1 d [of n] by (auto split: if_splits)
qed

lemma tm_text_no_d: "CHR ''d'' \<notin> set (tm_text t)"
  by (cases t) (auto simp: fmt02_def dest: digit_chars split: if_splits)

text \<open>
  The loop replaces the first \<^verbatim>\<open>_date\<close> by the time, in the option argument too, until there is none;
  \<open>fname\<close> is the content of \<^verbatim>\<open>opts.log_filename\<close>, at first the empty string.
\<close>

function log_name_loop :: "tm \<Rightarrow> string \<Rightarrow> string \<Rightarrow> string" where
  "log_name_loop t arg fname =
     (case strstr arg ''_date'' of
        None \<Rightarrow> fname
      | Some (a, b) \<Rightarrow> (let f = a @ tm_text t @ b in log_name_loop t f f))"
  by pat_completeness auto
termination
proof (relation "measure (\<lambda>(t, arg, fname). count_list arg (CHR ''d''))")
  fix t :: tm and arg fname a b f x p
  assume "strstr arg ''_date'' = Some p" "(a, b) = p" "f = a @ tm_text t @ b"
  then have "arg = a @ ''_date'' @ b" using strstr_Some [of arg "''_date''" a b] by simp
  then show "((t, f, f), t, arg, fname) \<in> measure (\<lambda>(t, arg, fname). count_list arg (CHR ''d''))"
    using \<open>f = a @ tm_text t @ b\<close> tm_text_no_d [of t] by (simp add: count_notin)
qed auto

declare log_name_loop.simps [simp del]

section \<open>parse_args\<close>

text \<open>What \<^verbatim>\<open>getopt_long\<close> returns: an option character, or the number of a long option.\<close>

datatype opt_code = Opt char | OptN nat

definition usage_hint :: string where
  "usage_hint = ''Run with '' @ [CHR 0x27] @ ''--help'' @ [CHR 0x27, CHR ''.'', LF]"

definition bad_opt :: "string \<Rightarrow> (int \<times> string) + ppcom_opt" where
  "bad_opt msg = Inl (EXIT_FAILURE, msg @ [LF] @ usage_hint)"

definition arg0 :: "string \<Rightarrow> char" where
  "arg0 s = (case s of [] \<Rightarrow> EOS | c # _ \<Rightarrow> c)"

definition opt_map :: "string \<Rightarrow> string \<Rightarrow> (flags \<Rightarrow> ppcom_opt) \<Rightarrow> (int \<times> string) + ppcom_opt" where
  "opt_map name arg f =
     (case parse_map arg of None \<Rightarrow> bad_opt (''Invalid --'' @ name) | Some m \<Rightarrow> Inr (f m))"

definition opt_flow :: "string \<Rightarrow> ppcom_opt \<Rightarrow> (int \<times> string) + ppcom_opt" where
  "opt_flow arg o' =
     (let c = arg0 arg in
      if c \<in> set ''XxSs'' then Inr (o'\<lparr>flow := FC_XONXOFF\<rparr>)
      else if c \<in> set ''Hh'' then Inr (o'\<lparr>flow := FC_RTSCTS\<rparr>)
      else if c \<in> set ''Nn'' then Inr (o'\<lparr>flow := FC_NONE\<rparr>)
      else bad_opt (''Invalid --flow: '' @ [c]))"

definition opt_parity :: "string \<Rightarrow> ppcom_opt \<Rightarrow> (int \<times> string) + ppcom_opt" where
  "opt_parity arg o' =
     (let c = arg0 arg in
      if c = CHR ''e'' then Inr (o'\<lparr>parity := P_EVEN\<rparr>)
      else if c = CHR ''o'' then Inr (o'\<lparr>parity := P_ODD\<rparr>)
      else if c = CHR ''n'' then Inr (o'\<lparr>parity := P_NONE\<rparr>)
      else bad_opt (''Invalid --parity: '' @ [c]))"

definition opt_databits :: "string \<Rightarrow> ppcom_opt \<Rightarrow> (int \<times> string) + ppcom_opt" where
  "opt_databits arg o' =
     (let c = arg0 arg in
      if c = CHR ''5'' then Inr (o'\<lparr>databits := 5\<rparr>)
      else if c = CHR ''6'' then Inr (o'\<lparr>databits := 6\<rparr>)
      else if c = CHR ''7'' then Inr (o'\<lparr>databits := 7\<rparr>)
      else if c = CHR ''8'' then Inr (o'\<lparr>databits := 8\<rparr>)
      else bad_opt (''Invalid --databits: '' @ [c]))"

text \<open>\<^verbatim>\<open>--stopbits\<close> also takes a parity, for backwards compatibility.\<close>

definition opt_stopbits :: "string \<Rightarrow> ppcom_opt \<Rightarrow> (int \<times> string) + ppcom_opt" where
  "opt_stopbits arg o0 =
     (let o' = o0\<lparr>stopbits := 1\<rparr>; c = arg0 arg in
      if c = CHR ''1'' then Inr o'
      else if c = CHR ''2'' then Inr (o'\<lparr>stopbits := 2\<rparr>)
      else if c = CHR ''e'' then Inr (o'\<lparr>parity := P_EVEN\<rparr>)
      else if c = CHR ''o'' then Inr (o'\<lparr>parity := P_ODD\<rparr>)
      else if c = CHR ''n'' then Inr (o'\<lparr>parity := P_NONE\<rparr>)
      else bad_opt (''Invalid --stopbits: '' @ [c]))"

definition opt_baud :: "build \<Rightarrow> string \<Rightarrow> ppcom_opt \<Rightarrow> (int \<times> string) + ppcom_opt" where
  "opt_baud cfg arg o0 =
     (let o' = o0\<lparr>baud := atoi arg\<rparr> in
      if baud o' = 0 \<or> \<not> term_baud_ok (custom_on cfg) (HIGH_BAUD cfg) (baud o')
      then bad_opt (''Invalid --baud: '' @ dec_int (baud o'))
      else Inr o')"

definition opt_exit_after :: "string \<Rightarrow> ppcom_opt \<Rightarrow> (int \<times> string) + ppcom_opt" where
  "opt_exit_after arg o0 =
     (case strtol 10 arg of (v, ep) \<Rightarrow>
        let o' = o0\<lparr>exit_after := c_int v\<rparr> in
        if ep \<noteq> [] \<or> exit_after o' < 0 then bad_opt (''Inavild --exit-after: '' @ arg) else Inr o')"

definition parse_opt ::
  "build \<Rightarrow> tm \<Rightarrow> string \<Rightarrow> opt_code \<Rightarrow> string \<Rightarrow> ppcom_opt \<Rightarrow> (int \<times> string) + ppcom_opt" where
  "parse_opt cfg now usage c arg o' =
     (if c = Opt (CHR ''s'') then Inr (o'\<lparr>send_cmd := take 127 arg\<rparr>)
      else if c = Opt (CHR ''v'') then Inr (o'\<lparr>receive_cmd := take 127 arg\<rparr>)
      else if c = Opt (CHR ''I'') then opt_map ''imap'' arg (\<lambda>m. o'\<lparr>imap := m\<rparr>)
      else if c = Opt (CHR ''O'') then opt_map ''omap'' arg (\<lambda>m. o'\<lparr>omap := m\<rparr>)
      else if c = Opt (CHR ''E'') then opt_map ''emap'' arg (\<lambda>m. o'\<lparr>emap := m\<rparr>)
      else if c = Opt (CHR ''c'') then Inr (o'\<lparr>lecho := True\<rparr>)
      else if c = Opt (CHR ''i'') then Inr (o'\<lparr>noinit := True\<rparr>)
      else if c = Opt (CHR ''r'') then Inr (o'\<lparr>noreset := True\<rparr>)
      else if c = Opt (CHR ''u'') then Inr (o'\<lparr>hangup := True\<rparr>)
      else if c = Opt (CHR ''l'') then Inr (if USE_FLOCK cfg then o'\<lparr>nolock := True\<rparr> else o')
      else if c = Opt (CHR ''e'') then Inr (o'\<lparr>escape := CKEY (arg0 arg)\<rparr>)
      else if c = Opt (CHR ''n'') then Inr (o'\<lparr>noescape := True\<rparr>)
      else if c = Opt (CHR ''f'') then opt_flow arg o'
      else if c = Opt (CHR ''b'') then opt_baud cfg arg o'
      else if c = Opt (CHR ''y'') then opt_parity arg o'
      else if c = Opt (CHR ''d'') then opt_databits arg o'
      else if c = Opt (CHR ''p'') then opt_stopbits arg o'
      else if c = Opt (CHR ''g'') then Inr (o'\<lparr>log_filename := Some (log_name_loop now arg [])\<rparr>)
      else if c = Opt (CHR ''t'') then Inr (o'\<lparr>initstring := Some arg\<rparr>)
      else if c = OptN 1 then Inr (o'\<lparr>lower_rts := True\<rparr>)
      else if c = OptN 2 then Inr (o'\<lparr>lower_dtr := True\<rparr>)
      else if c = OptN 3 then Inr (o'\<lparr>raise_rts := True\<rparr>)
      else if c = OptN 4 then Inr (o'\<lparr>raise_dtr := True\<rparr>)
      else if c = Opt (CHR ''x'') then opt_exit_after arg o'
      else if c = Opt (CHR ''X'') then Inr (o'\<lparr>opt_exit := True\<rparr>)
      else if c = Opt (CHR ''q'') then Inr (o'\<lparr>quiet := True\<rparr>)
      else if c = Opt (CHR ''h'') then Inl (EXIT_SUCCESS, usage)
      else bad_opt ''Unrecognized option(s)'')"

fun parse_opts ::
  "build \<Rightarrow> tm \<Rightarrow> string \<Rightarrow> (opt_code \<times> string) list \<Rightarrow> ppcom_opt \<Rightarrow> (int \<times> string) + ppcom_opt" where
  "parse_opts cfg now usage [] o' = Inr o'"
| "parse_opts cfg now usage ((c, arg) # r) o' =
     (case parse_opt cfg now usage c arg o' of Inl e \<Rightarrow> Inl e | Inr o'' \<Rightarrow> parse_opts cfg now usage r o'')"

text \<open>
  \<open>given\<close> and \<open>rest\<close> are what \<^verbatim>\<open>getopt_long\<close> makes of the command line: the options in order
  and the other arguments, which it leaves at the end of \<^verbatim>\<open>argv\<close>.
\<close>

definition parse_args ::
  "build \<Rightarrow> tm \<Rightarrow> string \<Rightarrow> (opt_code \<times> string) list \<Rightarrow> string list \<Rightarrow> ppcom_opt \<Rightarrow> (int \<times> string) + ppcom_opt" where
  "parse_args cfg now usage given rest o0 =
     (case parse_opts cfg now usage given o0 of
        Inl e \<Rightarrow> Inl e
      | Inr o1 \<Rightarrow>
          if raise_rts o1 \<and> lower_rts o1 then Inl (EXIT_FAILURE, ''Both --raise-rts and --lower-rts given'' @ [LF])
          else if raise_dtr o1 \<and> lower_dtr o1 then Inl (EXIT_FAILURE, ''Both --raise-dtr and --lower-dtr given'' @ [LF])
          else
            (let o2 = (if opt_exit o1 then o1\<lparr>exit_after := -1\<rparr> else o1) in
             if rest = [] then Inl (EXIT_FAILURE, ''No port given'' @ [LF] @ usage_hint)
             else Inr (o2\<lparr>port := Some (last rest)\<rparr>)))"

text \<open>The summary printed unless \<^verbatim>\<open>--quiet\<close> is given.\<close>

definition args_summary :: "build \<Rightarrow> string \<Rightarrow> ppcom_opt \<Rightarrow> string" where
  "args_summary cfg version o' =
     (if quiet o' then []
      else
        (let line = (\<lambda>name v. name @ v @ [LF]);
             cmd = (\<lambda>c. if c = [] then ''disabled'' else c)
         in
         line ''ppcom v'' version @ [LF] @
         line ''port is        : '' (the (port o')) @
         line ''flowcontrol    : '' (flow_str (flow o')) @
         line ''baudrate is    : '' (dec_int (baud o')) @
         line ''parity is      : '' (parity_str (parity o')) @
         line ''databits are   : '' (dec_int (databits o')) @
         line ''stopbits are   : '' (dec_int (stopbits o')) @
         (if noescape o' then line ''escape is      : none'' []
          else line ''escape is      : C-'' [KEYC (escape o')]) @
         line ''local echo is  : '' (yes_no (lecho o')) @
         line ''noinit is      : '' (yes_no (noinit o')) @
         line ''noreset is     : '' (yes_no (noreset o')) @
         line ''hangup is      : '' (yes_no (hangup o')) @
         (if USE_FLOCK cfg then line ''nolock is      : '' (yes_no (nolock o')) else []) @
         line ''send_cmd is    : '' (cmd (send_cmd o')) @
         line ''receive_cmd is : '' (cmd (receive_cmd o')) @
         ''imap is        : '' @ print_map (imap o') @ ''omap is        : '' @ print_map (omap o') @
         ''emap is        : '' @ print_map (emap o') @
         line ''logfile is     : '' (case log_filename o' of None \<Rightarrow> ''none'' | Some f \<Rightarrow> f) @
         (case initstring o' of
            None \<Rightarrow> line ''initstring     : none'' []
          | Some i \<Rightarrow> line ''initstring len : '' (dec_nat (length i) @ '' bytes'')) @
         (if exit_after o' < 0 then line ''exit_after is  : not set'' []
          else line ''exit_after is  : '' (dec_int (exit_after o') @ '' ms'')) @
         line ''exit is        : '' (yes_no (opt_exit o')) @ [LF]))"

section \<open>What parsing guarantees\<close>

text \<open>Options the rest of the program can work with.\<close>

definition opts_legal :: "build \<Rightarrow> ppcom_opt \<Rightarrow> bool" where
  "opts_legal cfg o' \<longleftrightarrow>
     c_int_type (baud o') \<and> baud o' \<noteq> 0 \<and> baud_valid cfg (baud o') \<and>
     flow o' \<in> {FC_NONE, FC_RTSCTS, FC_XONXOFF} \<and> parity o' \<in> {P_NONE, P_EVEN, P_ODD} \<and>
     databits o' \<in> {5, 6, 7, 8} \<and> stopbits o' \<in> {1, 2} \<and>
     length (send_cmd o') \<le> 127 \<and> length (receive_cmd o') \<le> 127 \<and>
     byte_val (escape o') < 32 \<and> -1 \<le> exit_after o'"

lemma CKEY_low: "byte_val (CKEY c) < 32"
proof -
  have "byte_val c AND 0x1f = byte_val c mod 32"
    using take_bit_eq_mask [of 5 "byte_val c"] by (simp add: mask_eq_exp_minus_1 take_bit_eq_mod)
  then show ?thesis by (simp add: CKEY_def)
qed

lemma term_baud_ok_valid:
  "term_baud_ok (custom_on cfg) (HIGH_BAUD cfg) b \<Longrightarrow> b \<noteq> 0 \<Longrightarrow> baud_valid cfg b"
  by (auto simp: term_baud_ok_def baud_valid_def Bcode_BNONE split: if_splits simp del: set_map)

lemma defaults_legal: "opts_legal cfg init_default_options"
proof -
  have "baud_valid cfg 9600" using baud_valid_9600 [of cfg] by (simp add: c_int_id)
  then show ?thesis using CKEY_low by (simp add: opts_legal_def init_default_options_def)
qed

lemmas opt_fun_defs = opt_map_def opt_flow_def opt_parity_def opt_databits_def opt_stopbits_def opt_baud_def
  opt_exit_after_def bad_opt_def

text \<open>Each option keeps the options legal.\<close>

definition legal_result :: "build \<Rightarrow> (int \<times> string) + ppcom_opt \<Rightarrow> bool" where
  "legal_result cfg r = (case r of Inl _ \<Rightarrow> True | Inr o' \<Rightarrow> opts_legal cfg o')"

lemma legal_result_simps [simp]:
  "legal_result cfg (Inl e)" "legal_result cfg (Inr o') = opts_legal cfg o'" "legal_result cfg (bad_opt m)"
  by (simp_all add: legal_result_def bad_opt_def)

lemma legal_updates [simp]:
  "opts_legal cfg o' \<Longrightarrow> opts_legal cfg (o'\<lparr>send_cmd := take 127 a\<rparr>)"
  "opts_legal cfg o' \<Longrightarrow> opts_legal cfg (o'\<lparr>receive_cmd := take 127 a\<rparr>)"
  "opts_legal cfg (o'\<lparr>imap := m\<rparr>) = opts_legal cfg o'" "opts_legal cfg (o'\<lparr>omap := m\<rparr>) = opts_legal cfg o'"
  "opts_legal cfg (o'\<lparr>emap := m\<rparr>) = opts_legal cfg o'" "opts_legal cfg (o'\<lparr>lecho := b\<rparr>) = opts_legal cfg o'"
  "opts_legal cfg (o'\<lparr>noinit := b\<rparr>) = opts_legal cfg o'" "opts_legal cfg (o'\<lparr>noreset := b\<rparr>) = opts_legal cfg o'"
  "opts_legal cfg (o'\<lparr>hangup := b\<rparr>) = opts_legal cfg o'" "opts_legal cfg (o'\<lparr>nolock := b\<rparr>) = opts_legal cfg o'"
  "opts_legal cfg o' \<Longrightarrow> opts_legal cfg (o'\<lparr>escape := CKEY c\<rparr>)"
  "opts_legal cfg (o'\<lparr>noescape := b\<rparr>) = opts_legal cfg o'"
  "opts_legal cfg (o'\<lparr>log_filename := f\<rparr>) = opts_legal cfg o'" "opts_legal cfg (o'\<lparr>initstring := f\<rparr>) = opts_legal cfg o'"
  "opts_legal cfg (o'\<lparr>lower_rts := b\<rparr>) = opts_legal cfg o'" "opts_legal cfg (o'\<lparr>lower_dtr := b\<rparr>) = opts_legal cfg o'"
  "opts_legal cfg (o'\<lparr>raise_rts := b\<rparr>) = opts_legal cfg o'" "opts_legal cfg (o'\<lparr>raise_dtr := b\<rparr>) = opts_legal cfg o'"
  "opts_legal cfg (o'\<lparr>opt_exit := b\<rparr>) = opts_legal cfg o'" "opts_legal cfg (o'\<lparr>quiet := b\<rparr>) = opts_legal cfg o'"
  using CKEY_low by (simp_all add: opts_legal_def)

lemma opt_funs_legal [simp]:
  assumes "opts_legal cfg o'"
  shows "legal_result cfg (opt_flow a o')" "legal_result cfg (opt_parity a o')" "legal_result cfg (opt_databits a o')"
    "legal_result cfg (opt_stopbits a o')" "legal_result cfg (opt_baud cfg a o')" "legal_result cfg (opt_exit_after a o')"
proof -
  show "legal_result cfg (opt_flow a o')" "legal_result cfg (opt_parity a o')" "legal_result cfg (opt_databits a o')"
    "legal_result cfg (opt_stopbits a o')"
    using assms by (simp_all add: opt_flow_def opt_parity_def opt_databits_def opt_stopbits_def Let_def opts_legal_def)
  show "legal_result cfg (opt_baud cfg a o')"
    using assms c_int_range [of "fst (strtol 10 a)"]
    by (simp add: opt_baud_def atoi_def opts_legal_def Let_def term_baud_ok_valid)
  show "legal_result cfg (opt_exit_after a o')"
    using assms by (simp add: opt_exit_after_def opts_legal_def Let_def split: prod.split)
qed

lemma opt_map_legal [simp]: "(\<And>m. opts_legal cfg (f m)) \<Longrightarrow> legal_result cfg (opt_map n a f)"
  by (simp add: opt_map_def split: option.split)

lemma parse_opt_legal: "opts_legal cfg o1 \<Longrightarrow> legal_result cfg (parse_opt cfg now usage c arg o1)"
  unfolding parse_opt_def by simp

lemma parse_opts_legal:
  "opts_legal cfg o1 \<Longrightarrow> parse_opts cfg now usage given o1 = Inr o2 \<Longrightarrow> opts_legal cfg o2"
proof (induction given arbitrary: o1)
  case (Cons p r)
  obtain c arg where p: "p = (c, arg)" by (cases p)
  show ?case
    using Cons parse_opt_legal [OF Cons.prems(1), of now usage c arg] by (simp add: p split: sum.splits)
qed simp

text \<open>
  C19: a command line that is accepted yields options the program can work with: every setting is
  one \<^verbatim>\<open>term_set\<close> accepts (a non-zero supported baud rate included), the command strings fit their
  buffers, the escape character is a control character, raise and lower of the same line are not
  both set, \<^verbatim>\<open>--exit\<close> overrides \<^verbatim>\<open>--exit-after\<close>, and the port is the last argument.
\<close>

theorem parse_args_legal:
  assumes "parse_args cfg now usage given rest init_default_options = Inr o'"
  shows "opts_legal cfg o' \<and> all_valid cfg (baud o') (parity o') (databits o') (stopbits o') (flow o') \<and>
         \<not> (raise_rts o' \<and> lower_rts o') \<and> \<not> (raise_dtr o' \<and> lower_dtr o') \<and>
         (opt_exit o' \<longrightarrow> exit_after o' = -1) \<and> rest \<noteq> [] \<and> port o' = Some (last rest)"
proof -
  obtain o1 where o1: "parse_opts cfg now usage given init_default_options = Inr o1"
    using assms by (auto simp: parse_args_def split: sum.splits)
  then have l: "opts_legal cfg o1" using parse_opts_legal [OF defaults_legal] by blast
  have o': "o' = (if opt_exit o1 then o1\<lparr>exit_after := -1\<rparr> else o1)\<lparr>port := Some (last rest)\<rparr>"
    "\<not> (raise_rts o1 \<and> lower_rts o1)" "\<not> (raise_dtr o1 \<and> lower_dtr o1)" "rest \<noteq> []"
    using assms o1 by (auto simp: parse_args_def Let_def split: if_splits)
  show ?thesis
    using l o'(2-4) unfolding o'(1) by (auto simp: opts_legal_def all_valid_def)
qed

lemma parse_args_sample:
  "parse_args sample_cfg (2024, 1, 2, 3, 4, 5) []
     [(Opt (CHR ''p''), ''2''), (Opt (CHR ''y''), ''even''), (Opt (CHR ''X''), [])] [''/dev/ttyS0''] init_default_options
     = Inr (init_default_options\<lparr>stopbits := 2, parity := P_EVEN, opt_exit := True, exit_after := -1,
              port := Some ''/dev/ttyS0''\<rparr>)"
  by (simp add: parse_args_def parse_opt_def opt_stopbits_def opt_parity_def arg0_def Let_def init_default_options_def)

lemma parse_args_legal_witness:
  "opts_legal sample_cfg (init_default_options\<lparr>stopbits := 2, parity := P_EVEN, opt_exit := True, exit_after := -1,
              port := Some ''/dev/ttyS0''\<rparr>)"
  using parse_args_legal [OF parse_args_sample] by blast

lemma log_name_replaces:
  "strstr arg ''_date'' = None \<Longrightarrow> log_name_loop t arg [] = []"
  by (subst log_name_loop.simps) simp

lemma log_name_fewer: "count_list (log_name_loop t x x) (CHR ''d'') \<le> count_list x (CHR ''d'')"
proof -
  have "f = x \<Longrightarrow> count_list (log_name_loop t x f) (CHR ''d'') \<le> count_list x (CHR ''d'')" for f
  proof (induction t x f rule: log_name_loop.induct)
    case (1 t x f)
    show ?case
    proof (cases "strstr x ''_date''")
      case None
      then show ?thesis using 1(2) by (subst log_name_loop.simps) simp
    next
      case (Some p)
      obtain a b where p: "p = (a, b)" by (cases p)
      let ?g = "a @ tm_text t @ b"
      have "count_list ?g (CHR ''d'') \<le> count_list x (CHR ''d'')"
        using strstr_Some [of x "''_date''" a b] Some p tm_text_no_d [of t] by (simp add: count_notin)
      moreover have "count_list (log_name_loop t ?g ?g) (CHR ''d'') \<le> count_list ?g (CHR ''d'')"
        using 1(1) [OF Some p [symmetric] refl refl] .
      moreover have "log_name_loop t x f = log_name_loop t ?g ?g"
        by (subst log_name_loop.simps) (simp add: Some p Let_def)
      ultimately show ?thesis by simp
    qed
  qed
  then show ?thesis by simp
qed

lemma log_name_no_date: "log_name_loop t arg f \<noteq> f \<Longrightarrow> strstr (log_name_loop t arg f) ''_date'' = None"
proof (induction t arg f rule: log_name_loop.induct)
  case (1 t arg f)
  show ?case
  proof (cases "strstr arg ''_date''")
    case None
    then show ?thesis using 1(2) by (subst (asm) log_name_loop.simps) simp
  next
    case (Some p)
    obtain a b where p: "p = (a, b)" by (cases p)
    let ?f = "a @ tm_text t @ b"
    have e: "log_name_loop t arg f = log_name_loop t ?f ?f"
      by (subst log_name_loop.simps) (simp add: Some p Let_def)
    show ?thesis
    proof (cases "log_name_loop t ?f ?f = ?f")
      case True
      have "strstr ?f ''_date'' = None"
      proof (rule ccontr)
        assume "strstr ?f ''_date'' \<noteq> None"
        then obtain c d where cd: "strstr ?f ''_date'' = Some (c, d)" by auto
        then have "log_name_loop t ?f ?f = log_name_loop t (c @ tm_text t @ d) (c @ tm_text t @ d)"
          by (subst log_name_loop.simps) (simp add: Let_def)
        moreover have "count_list (log_name_loop t x x) (CHR ''d'') \<le> count_list x (CHR ''d'')" for x
          by (rule log_name_fewer)
        moreover have "count_list (c @ tm_text t @ d) (CHR ''d'') < count_list ?f (CHR ''d'')"
          using strstr_Some [OF cd] tm_text_no_d [of t] by (simp add: count_notin)
        ultimately show False using True by (metis leD)
      qed
      then show ?thesis by (simp add: e True)
    next
      case False
      then show ?thesis using 1(1) [OF Some p [symmetric] refl False] by (simp add: e)
    qed
  qed
qed

text \<open>
  In the name of the log file every \<^verbatim>\<open>_date\<close> is replaced by the time of the start; but a name
  without \<^verbatim>\<open>_date\<close> is lost: the name the program then uses is the empty string.
\<close>

theorem log_name:
  "(if strstr arg ''_date'' = None then log_name_loop t arg [] = []
    else strstr (log_name_loop t arg []) ''_date'' = None)"
  using log_name_replaces [of arg t] log_name_no_date [of t arg "[]"]
  by (cases "strstr arg ''_date'' = None"; cases "log_name_loop t arg [] = []") simp_all

end
