(* ===== verification/Commands.thy ===== *)
theory Commands
  imports Options
begin

text \<open>
  The command keys, \<^verbatim>\<open>src/ppcom/src/ppcom.cpp\<close>: the next-value functions, the prompts
  (\<^verbatim>\<open>read_filename\<close>, \<^verbatim>\<open>read_baud\<close>, \<^verbatim>\<open>read_hex\<close>), \<^verbatim>\<open>show_status\<close>, \<^verbatim>\<open>show_keys\<close>, \<^verbatim>\<open>run_cmd\<close>
  and \<^verbatim>\<open>do_command\<close>.
\<close>

section \<open>Keys\<close>

abbreviation KEY_EXIT :: byte where "KEY_EXIT \<equiv> CHR ''x''"
abbreviation KEY_QUIT :: byte where "KEY_QUIT \<equiv> CHR ''q''"
abbreviation KEY_PULSE :: byte where "KEY_PULSE \<equiv> CHR ''p''"
abbreviation KEY_TOG_DTR :: byte where "KEY_TOG_DTR \<equiv> CHR ''t''"
abbreviation KEY_TOG_RTS :: byte where "KEY_TOG_RTS \<equiv> CHR ''g''"
abbreviation KEY_BAUD :: byte where "KEY_BAUD \<equiv> CHR ''b''"
abbreviation KEY_BAUD_UP :: byte where "KEY_BAUD_UP \<equiv> CHR ''u''"
abbreviation KEY_BAUD_DN :: byte where "KEY_BAUD_DN \<equiv> CHR ''d''"
abbreviation KEY_FLOW :: byte where "KEY_FLOW \<equiv> CHR ''f''"
abbreviation KEY_PARITY :: byte where "KEY_PARITY \<equiv> CHR ''y''"
abbreviation KEY_BITS :: byte where "KEY_BITS \<equiv> CHR ''i''"
abbreviation KEY_STOP :: byte where "KEY_STOP \<equiv> CHR ''j''"
abbreviation KEY_LECHO :: byte where "KEY_LECHO \<equiv> CHR ''c''"
abbreviation KEY_STATUS :: byte where "KEY_STATUS \<equiv> CHR ''v''"
abbreviation KEY_HELP :: byte where "KEY_HELP \<equiv> CHR ''h''"
abbreviation KEY_KEYS :: byte where "KEY_KEYS \<equiv> CHR ''k''"
abbreviation KEY_SEND :: byte where "KEY_SEND \<equiv> CHR ''s''"
abbreviation KEY_RECEIVE :: byte where "KEY_RECEIVE \<equiv> CHR ''r''"
abbreviation KEY_HEX :: byte where "KEY_HEX \<equiv> CHR ''w''"
abbreviation KEY_BREAK :: byte where "KEY_BREAK \<equiv> CHR 0x5C"

section \<open>Next values\<close>

fun flow_next :: "flowcntrl_e \<Rightarrow> flowcntrl_e" where
  "flow_next FC_NONE = FC_RTSCTS"
| "flow_next FC_RTSCTS = FC_XONXOFF"
| "flow_next FC_XONXOFF = FC_NONE"
| "flow_next _ = FC_NONE"

fun parity_next :: "parity_e \<Rightarrow> parity_e" where
  "parity_next P_NONE = P_EVEN"
| "parity_next P_EVEN = P_ODD"
| "parity_next P_ODD = P_NONE"
| "parity_next _ = P_NONE"

definition bits_next :: "int \<Rightarrow> int" where
  "bits_next bits = (let b = bits + 1 in if b > 8 then 5 else b)"

definition stopbits_next :: "int \<Rightarrow> int" where
  "stopbits_next bits = (let b = bits + 1 in if b > 2 then 1 else b)"

section \<open>Prompts\<close>

text \<open>A line is a C string: it ends at the first NUL.\<close>

definition cstring :: "byte list \<Rightarrow> string" where
  "cstring l = takeWhile (\<lambda>c. c \<noteq> EOS) l"

definition POSIX_PATH_MAX :: nat where "POSIX_PATH_MAX = 256"

definition read_filename :: "app \<Rightarrow> string option \<times> app" where
  "read_filename s =
     (case fd_readline STI STO POSIX_PATH_MAX (say STO (crlf @ ''*** file: '') s) of
        (r, s') \<Rightarrow> (map_option cstring r, say STO crlf s'))"

lemma say_in_size [simp]: "in_size fd' (say fd t s) = in_size fd' s"
  by (simp add: in_size_def)

lemma readline_loop_consumes:
  "fst (readline_loop fdi fdo cap b s) = Some l \<Longrightarrow> in_size fdi (snd (readline_loop fdi fdo cap b s)) < in_size fdi s"
proof (induction fdi fdo cap b s rule: readline_loop.induct)
  case (1 fdi fdo cap b s)
  obtain r s' where rd: "os_read fdi 1 s = (r, s')" by fastforce
  obtain c cs where r: "r = Inr (c # cs)"
    using 1(2) by (subst (asm) readline_loop.simps) (auto simp: rd simp del: One_nat_def split: sum.splits list.splits)
  obtain k s'' where k: "readline_key fdo cap c b s' = (k, s'')" by fastforce
  have d: "in_size fdi s'' < in_size fdi s"
    using readline_key_decreases [OF rd [symmetric, unfolded r] k [symmetric]] .
  show ?case
  proof (cases k)
    case (Inl b')
    have e: "readline_loop fdi fdo cap b s = readline_loop fdi fdo cap b' s''"
      by (subst readline_loop.simps) (simp add: rd r k Inl del: One_nat_def)
    show ?thesis using 1(1) [OF rd [symmetric] r refl k [symmetric] Inl] 1(2) d by (simp add: e)
  next
    case (Inr q)
    have "readline_loop fdi fdo cap b s = (q, s'')"
      by (subst readline_loop.simps) (simp add: rd r k Inr del: One_nat_def)
    then show ?thesis using d by simp
  qed
qed

lemma fd_readline_consumes:
  "fd_readline fdi fdo n s = (Some l, s') \<Longrightarrow> in_size fdi s' < in_size fdi s"
  using readline_loop_consumes [of fdi fdo "n - 1" "[]" s l] by (simp add: fd_readline_def)

function read_baud :: "app \<Rightarrow> int \<times> app" where
  "read_baud s =
     (case fd_readline STI STO 9 (say STO (crlf @ ''*** baud: '') s) of
        (None, s') \<Rightarrow> (-1, say STO crlf s')
      | (Some l, s') \<Rightarrow>
          (let s1 = say STO crlf s';
               (v, ep) = strtol 0 (cstring l);
               b = c_int v;
               bad = (ep \<noteq> [] \<or> \<not> term_baud_ok (custom_on (os_cfg s1)) (HIGH_BAUD (os_cfg s1)) b \<or> b = 0);
               s2 = (if bad then say STO ''*** Invalid baudrate!'' s1 else s1);
               b' = (if bad then -1 else b)
           in if b' < 0 then read_baud s2 else (b', s2)))"
  by pat_completeness auto
termination
  by (relation "measure (in_size STI)") (auto dest!: fd_readline_consumes [OF sym])

declare read_baud.simps [simp del]

function read_hex :: "nat \<Rightarrow> app \<Rightarrow> byte list \<times> app" where
  "read_hex sz s =
     (case fd_readline STI STO 256 (say STO (crlf @ ''*** hex: '') s) of
        (None, s') \<Rightarrow> ([], say STO crlf s')
      | (Some l, s') \<Rightarrow>
          (let s1 = say STO crlf s' in
           case hex2bin sz (cstring l) of
             None \<Rightarrow> read_hex sz (say STO ''*** Invalid hex!'' s1)
           | Some bs \<Rightarrow> (bs, s1)))"
  by pat_completeness auto
termination
  by (relation "measure (\<lambda>(sz, s). in_size STI s)") (auto dest!: fd_readline_consumes [OF sym])

declare read_hex.simps [simp del]

section \<open>Status and help\<close>

definition statpf :: "bool \<Rightarrow> string \<Rightarrow> app \<Rightarrow> app" where
  "statpf qt txt s = (if qt then s else say STO txt s)"

text \<open>One line of the status: the option and, when it differs, the actual value; counts a mismatch.\<close>

definition stat_line :: "bool \<Rightarrow> string \<Rightarrow> bool \<Rightarrow> string \<Rightarrow> string \<Rightarrow> nat \<times> app \<Rightarrow> nat \<times> app" where
  "stat_line qt name same opt act = (\<lambda>(m, s).
     if \<not> same then (m + 1, statpf qt (''*** '' @ name @ '': '' @ opt @ '' ('' @ act @ '')'' @ crlf) s)
     else (m, statpf qt (''*** '' @ name @ '': '' @ opt @ crlf) s))"

definition up_down :: "bool \<Rightarrow> string" where
  "up_down b = (if b then ''up'' else ''down'')"

definition bit_char :: "bool \<Rightarrow> string" where
  "bit_char b = (if b then ''1'' else ''0'')"

definition mctl_text :: "32 word \<Rightarrow> string" where
  "mctl_text m =
     ''DTR:'' @ bit_char ((m AND MCTL_DTR) \<noteq> 0) @ '' DSR:'' @ bit_char ((m AND MCTL_DSR) \<noteq> 0) @
     '' DCD:'' @ bit_char ((m AND MCTL_DCD) \<noteq> 0) @ '' RTS:'' @ bit_char ((m AND MCTL_RTS) \<noteq> 0) @
     '' CTS:'' @ bit_char ((m AND MCTL_CTS) \<noteq> 0) @ '' RI:'' @ bit_char ((m AND MCTL_RI) \<noteq> 0) @ crlf"

definition show_status :: "bool \<Rightarrow> app \<Rightarrow> nat \<times> app" where
  "show_status qt s0 =
     (let fd = tty_fd s0;
          s1 = snd (term_refresh fd s0);
          (bi, s2) = term_get_baudrate fd False s1;
          (fl, s3) = term_get_flowcntrl fd s2;
          (pa, s4) = term_get_parity fd s3;
          (bits, s5) = term_get_databits fd s4;
          (stp, s6) = term_get_stopbits fd s5;
          o' = opts s6;
          r1 = (0, statpf qt crlf s6);
          r2 = stat_line qt ''baud'' (fst bi = baud o') (dec_int (baud o')) (dec_int (fst bi)) r1;
          r3 = stat_line qt ''flow'' (fl = flow o') (flow_str (flow o')) (flow_str fl) r2;
          r4 = stat_line qt ''parity'' (pa = parity o') (parity_str (parity o')) (parity_str pa) r3;
          r5 = stat_line qt ''databits'' (bits = databits o') (dec_int (databits o')) (dec_int bits) r4;
          (m6, s7) = stat_line qt ''stopbits'' (stp = stopbits o') (dec_int (stopbits o')) (dec_int stp) r5;
          (mc, s8) = term_get_mctl fd s7
      in
      case mc of
        None \<Rightarrow> (m6, statpf qt (''*** rts: '' @ up_down (rts_up s8) @ crlf)
                        (statpf qt (''*** dtr: '' @ up_down (dtr_up s8) @ crlf) s8))
      | Some m \<Rightarrow>
          if m = MCTL_UNAVAIL then
            (m6, statpf qt (''*** rts: '' @ up_down (rts_up s8) @ crlf)
                   (statpf qt (''*** dtr: '' @ up_down (dtr_up s8) @ crlf) s8))
          else
            (let dtr = ((m AND MCTL_DTR) \<noteq> 0);
                 rts = ((m AND MCTL_RTS) \<noteq> 0);
                 r7 = stat_line qt ''dtr'' (dtr = dtr_up s8) (up_down (dtr_up s8)) (up_down dtr) (m6, s8);
                 (m9, s9) = stat_line qt ''rts'' (rts = rts_up s8) (up_down (rts_up s8)) (up_down rts) r7
             in (m9, statpf qt (mctl_text m) (statpf qt ''*** mctl: '' s9))))"

definition key_lines :: "(byte \<times> string) list" where
  "key_lines =
     [ (KEY_EXIT, ''Exit ppcom''), (KEY_QUIT, ''Exit without reseting serial port''),
       (KEY_BAUD, ''Set baudrate''), (KEY_BAUD_UP, ''Increase baudrate (baud-up)''),
       (KEY_BAUD_DN, ''Decrease baudrate (baud-down)''), (KEY_BITS, ''Change number of databits''),
       (KEY_STOP, ''Change number of stopbits''), (KEY_FLOW, ''Change flow-control mode''),
       (KEY_PARITY, ''Change parity mode''), (KEY_PULSE, ''Pulse DTR''), (KEY_TOG_DTR, ''Toggle DTR''),
       (KEY_TOG_RTS, ''Toggle RTS''), (KEY_BREAK, ''Send break''), (KEY_LECHO, ''Toggle local echo''),
       (KEY_HEX, ''Write hex''), (KEY_SEND, ''Send file''), (KEY_RECEIVE, ''Receive file''),
       (KEY_STATUS, ''Show port settings''), (KEY_HELP, ''Show this message'') ]"

definition show_keys :: "app \<Rightarrow> app" where
  "show_keys s0 =
     (let s1 = say STO crlf s0;
          s2 = say STO (''*** Picocom commands (all prefixed by [C-'' @ [KEYC (escape (opts s1))] @ ''])'' @ crlf) s1;
          s3 = say STO crlf s2;
          s4 = fold (\<lambda>(k, t). say STO (''*** [C-'' @ [KEYC k] @ ''] : '' @ t @ crlf)) key_lines s3
      in say STO crlf s4)"

section \<open>Running external programs\<close>

definition RUNCMD_ARGS_MAX :: nat where "RUNCMD_ARGS_MAX = 32"
definition RUNCMD_EXEC_FAIL :: int where "RUNCMD_EXEC_FAIL = 126"

text \<open>The end of the child's part: it becomes another program, or exits.\<close>

datatype child_end = Child_exec "string list" | Child_exit int

definition child_fail :: "string \<Rightarrow> app \<Rightarrow> child_end \<times> app" where
  "child_fail txt s = (Child_exit RUNCMD_EXEC_FAIL, event (E_exit RUNCMD_EXEC_FAIL) (term_exitfunc (say STE txt s)))"

text \<open>
  The child process, on its copy of the program's state.  The descriptors are its own; the devices
  behind them are shared with the parent.  \<^verbatim>\<open>strdup\<close> is taken to succeed (\<open>mem_ok\<close>).
\<close>

definition run_child :: "int \<Rightarrow> string \<Rightarrow> string \<Rightarrow> app \<Rightarrow> child_end \<times> app" where
  "run_child fd cmd args_extra s0 =
     (let s1 = snd (term_drain STI s0);
          s2 = snd (term_remove STI s1);
          s3 = snd (term_erase fd s2);
          s4 = os_close STO (os_close STI s3);
          s5 = s4\<lparr>os_fd := (os_fd s4)(STI := os_fd s4 fd, STO := os_fd s4 fd)\<rparr>;
          (r, argv) = split_quoted mem_ok cmd [] RUNCMD_ARGS_MAX
      in
      if r < 0 then child_fail (''Cannot parse command'' @ [LF]) s5
      else
        (let (r, argv) = split_quoted mem_ok args_extra argv RUNCMD_ARGS_MAX in
         if r < 0 then child_fail (''Cannot parse extra args'' @ [LF]) s5
         else if length argv < 1 then child_fail (''No command given'' @ [LF]) s5
         else
           (let s6 = say STE (''$ '' @ cmd @ '' '' @ args_extra @ [LF]) s5 in
            case syscall (event (E_fork argv)) s6 of
              (True, s7) \<Rightarrow> (Child_exec argv, s7)
            | (False, s7) \<Rightarrow> child_fail (''exec: '' @ strerror_of s7 @ [LF]) s7)))"

text \<open>What the parent sees of the child: the devices, what was written and the outcome scripts.\<close>

definition after_child :: "app \<Rightarrow> app \<Rightarrow> app" where
  "after_child c s =
     s\<lparr>os_dev := os_dev c, os_out := os_out c, os_evs := os_evs c, os_faults := os_faults c,
       os_wres := os_wres c, os_in := os_in c\<rparr>"

definition child_status :: "child_end \<Rightarrow> app \<Rightarrow> wait_status \<times> app" where
  "child_status e s =
     (case e of
        Child_exit n \<Rightarrow> (W_exited n, s)
      | Child_exec argv \<Rightarrow>
          (case children s of [] \<Rightarrow> (W_exited 0, s) | w # ws \<Rightarrow> (w, s\<lparr>children := ws\<rparr>)))"

text \<open>\<^verbatim>\<open>%x\<close>\<close>

fun hex_nat :: "nat \<Rightarrow> string" where
  "hex_nat n = (if n < 16 then [hexd n] else hex_nat (n div 16) @ [hexd (n mod 16)])"

declare hex_nat.simps [simp del]

definition run_cmd :: "int \<Rightarrow> string \<Rightarrow> string \<Rightarrow> app \<Rightarrow> int \<times> app" where
  "run_cmd fd cmd args_extra s0 =
     (case syscall (\<lambda>s. s) s0 of
        (False, s) \<Rightarrow> (-1, say STO (''*** cannot fork: '' @ strerror_of s @ '' ***'' @ crlf) s)
      | (True, s) \<Rightarrow>
          (let (e, c) = run_child fd cmd args_extra s;
               (w, s1) = child_status e (after_child c s);
               s2 = snd (term_apply STI False s1)
           in
           case w of
             W_exited n \<Rightarrow> (n, say STO (crlf @ ''*** exit status: '' @ dec_int n @ '' ***'' @ crlf) s2)
           | W_signaled n \<Rightarrow> (-1, say STO (crlf @ ''*** killed by signal: '' @ dec_int n @ '' ***'' @ crlf) s2)
           | W_other n \<Rightarrow> (-1, say STO (crlf @ ''*** abnormal termination: 0x'' @ hex_nat n @ '' ***'' @ crlf) s2)))"

section \<open>do_command\<close>

definition HEXBUF_SZ :: nat where "HEXBUF_SZ = 128"

text \<open>
  The part shared by the commands that change a port setting: set, discard pending output, flush,
  apply, read back.
\<close>

definition apply_setting :: "(app \<Rightarrow> int \<times> app) \<Rightarrow> (app \<Rightarrow> 'v \<times> app) \<Rightarrow> app \<Rightarrow> 'v \<times> app" where
  "apply_setting setf getf s =
     (let s1 = snd (setf s);
          s2 = s1\<lparr>tty_q := (tty_q s1)\<lparr>q_buff := []\<rparr>\<rparr>;
          s3 = snd (term_flush (tty_fd s2) s2);
          s4 = snd (term_apply (tty_fd s3) True s3)
      in getf s4)"

definition report_setting :: "string \<Rightarrow> bool \<Rightarrow> string \<Rightarrow> string \<Rightarrow> app \<Rightarrow> app" where
  "report_setting name same opt act =
     say STO (crlf @ ''*** '' @ name @ '': '' @ opt @ (if same then [] else '' ('' @ act @ '')'') @ '' ***'' @ crlf)"

definition cmd_baud :: "byte \<Rightarrow> app \<Rightarrow> app" where
  "cmd_baud c s0 =
     (let high = HIGH_BAUD (os_cfg s0);
          (nb, s1) = (if c = KEY_BAUD then read_baud s0
                      else (if c = KEY_BAUD_UP then baud_up high (baud (opts s0)) else baud_down high (baud (opts s0)), s0))
      in
      if c = KEY_BAUD \<and> nb < 0 then say STO (''*** cannot read baudrate ***'' @ crlf) s1
      else
        (let s2 = set_opts (\<lambda>o'. o'\<lparr>baud := nb\<rparr>) s1;
             (new, s3) = apply_setting (\<lambda>s. term_set_baudrate (tty_fd s) (baud (opts s)) s)
                           (\<lambda>s. term_get_baudrate (tty_fd s) False s) s2;
             s4 = report_setting ''baud'' (baud (opts s3) = fst new) (dec_int (baud (opts s3))) (dec_int (fst new)) s3
         in s4\<lparr>tty_write_sz := set_tty_write_sz (fst new)\<rparr>))"

definition cmd_flow :: "app \<Rightarrow> app" where
  "cmd_flow s0 =
     (let s1 = set_opts (\<lambda>o'. o'\<lparr>flow := flow_next (flow o')\<rparr>) s0;
          (new, s2) = apply_setting (\<lambda>s. term_set_flowcntrl (tty_fd s) (flow (opts s)) s)
                        (\<lambda>s. term_get_flowcntrl (tty_fd s) s) s1
      in report_setting ''flow'' (flow (opts s2) = new) (flow_str (flow (opts s2))) (flow_str new) s2)"

definition cmd_parity :: "app \<Rightarrow> app" where
  "cmd_parity s0 =
     (let s1 = set_opts (\<lambda>o'. o'\<lparr>parity := parity_next (parity o')\<rparr>) s0;
          (new, s2) = apply_setting (\<lambda>s. term_set_parity (tty_fd s) (parity (opts s)) s)
                        (\<lambda>s. term_get_parity (tty_fd s) s) s1
      in report_setting ''parity'' (parity (opts s2) = new) (parity_str (parity (opts s2))) (parity_str new) s2)"

definition cmd_bits :: "app \<Rightarrow> app" where
  "cmd_bits s0 =
     (let s1 = set_opts (\<lambda>o'. o'\<lparr>databits := bits_next (databits o')\<rparr>) s0;
          (new, s2) = apply_setting (\<lambda>s. term_set_databits (tty_fd s) (databits (opts s)) s)
                        (\<lambda>s. term_get_databits (tty_fd s) s) s1
      in report_setting ''databits'' (databits (opts s2) = new) (dec_int (databits (opts s2))) (dec_int new) s2)"

definition cmd_stop :: "app \<Rightarrow> app" where
  "cmd_stop s0 =
     (let s1 = set_opts (\<lambda>o'. o'\<lparr>stopbits := stopbits_next (stopbits o')\<rparr>) s0;
          (new, s2) = apply_setting (\<lambda>s. term_set_stopbits (tty_fd s) (stopbits (opts s)) s)
                        (\<lambda>s. term_get_stopbits (tty_fd s) s) s1
      in report_setting ''stopbits'' (stopbits (opts s2) = new) (dec_int (stopbits (opts s2))) (dec_int new) s2)"

definition cmd_pulse :: "app \<Rightarrow> app" where
  "cmd_pulse s0 =
     (case term_pulse_dtr (tty_fd s0) (say STO (crlf @ ''*** pulse DTR ***'' @ crlf) s0) of
        (r, s) \<Rightarrow> if r < 0 then say STO (''*** FAILED'' @ crlf) s else s\<lparr>dtr_up := True\<rparr>)"

definition cmd_tog_dtr :: "app \<Rightarrow> app" where
  "cmd_tog_dtr s0 =
     (let (r, s) = (if dtr_up s0 then term_lower_dtr (tty_fd s0) s0 else term_raise_dtr (tty_fd s0) s0);
          s1 = (if r \<ge> 0 then s\<lparr>dtr_up := \<not> dtr_up s\<rparr> else s)
      in say STO (crlf @ ''*** DTR: '' @ up_down (dtr_up s1) @ '' ***'' @ crlf) s1)"

definition cmd_tog_rts :: "app \<Rightarrow> app" where
  "cmd_tog_rts s0 =
     (let (r, s) = (if rts_up s0 then term_lower_rts (tty_fd s0) s0 else term_raise_rts (tty_fd s0) s0);
          s1 = (if r \<ge> 0 then s\<lparr>rts_up := \<not> rts_up s\<rparr> else s)
      in say STO (crlf @ ''*** RTS: '' @ up_down (rts_up s1) @ '' ***'' @ crlf) s1)"

definition cmd_lecho :: "app \<Rightarrow> app" where
  "cmd_lecho s0 =
     (let s1 = set_opts (\<lambda>o'. o'\<lparr>lecho := \<not> lecho o'\<rparr>) s0
      in say STO (crlf @ ''*** local echo: '' @ yes_no (lecho (opts s1)) @ '' ***'' @ crlf) s1)"

definition cmd_xfer :: "byte \<Rightarrow> app \<Rightarrow> app" where
  "cmd_xfer c s0 =
     (let xfr_cmd = (if c = KEY_SEND then send_cmd (opts s0) else receive_cmd (opts s0)) in
      if xfr_cmd = [] then say STO (crlf @ ''*** command disabled ***'' @ crlf) s0
      else
        (case read_filename s0 of
           (None, s) \<Rightarrow> say STO (''*** cannot read filename ***'' @ crlf) s
         | (Some fname, s) \<Rightarrow> snd (run_cmd (tty_fd s) xfr_cmd fname s)))"

definition cmd_hex :: "unit prog" where
  "cmd_hex s0 =
     (case read_hex HEXBUF_SZ s0 of
        (hexbuf, s) \<Rightarrow>
          bindp (tty_q_push hexbuf) (\<lambda>k.
          bindp (upd (\<lambda>s. if k \<noteq> length hexbuf then say STO (''*** output buffer full ***'' @ crlf) s else s)) (\<lambda>_.
          upd (say STO (''*** wrote '' @ dec_nat (length hexbuf) @ '' bytes ***'' @ crlf)))) s)"

definition cmd_break :: "app \<Rightarrow> app" where
  "cmd_break s0 = say STO (crlf @ ''*** break sent ***'' @ crlf) (snd (term_break (tty_fd s0) s0))"

text \<open>The result is whether the command ends the program.\<close>

definition do_command :: "byte \<Rightarrow> bool prog" where
  "do_command c s =
     (if c = KEY_EXIT then Inr (True, s)
      else if c = KEY_QUIT then Inr (True, set_opts (\<lambda>o'. o'\<lparr>noreset := True\<rparr>) s)
      else if c = KEY_STATUS then Inr (False, snd (show_status False s))
      else if c = KEY_HELP \<or> c = KEY_KEYS then Inr (False, show_keys s)
      else if c = KEY_PULSE then Inr (False, cmd_pulse s)
      else if c = KEY_TOG_DTR then Inr (False, cmd_tog_dtr s)
      else if c = KEY_TOG_RTS then Inr (False, cmd_tog_rts s)
      else if c = KEY_BAUD \<or> c = KEY_BAUD_UP \<or> c = KEY_BAUD_DN then Inr (False, cmd_baud c s)
      else if c = KEY_FLOW then Inr (False, cmd_flow s)
      else if c = KEY_PARITY then Inr (False, cmd_parity s)
      else if c = KEY_BITS then Inr (False, cmd_bits s)
      else if c = KEY_STOP then Inr (False, cmd_stop s)
      else if c = KEY_LECHO then Inr (False, cmd_lecho s)
      else if c = KEY_SEND \<or> c = KEY_RECEIVE then Inr (False, cmd_xfer c s)
      else if c = KEY_HEX then bindp cmd_hex (\<lambda>_. ret False) s
      else if c = KEY_BREAK then Inr (False, cmd_break s)
      else Inr (False, s))"

end
