(* ===== verification/Cmd_Lemmas.thy ===== *)
theory Cmd_Lemmas
  imports Commands
begin

text \<open>
  What the terminal library leaves alone in the state of the program, and the contract (locale
  \<open>port_command\<close>) of the commands that change a setting of the port.
\<close>

section \<open>What the terminal library leaves alone\<close>

text \<open>Everything but the terminals, the descriptors, the trace, the faults and the error codes.\<close>

definition aside :: "'a term_lib_scheme \<Rightarrow>
    build \<times> (nat \<Rightarrow> termios2 \<Rightarrow> termios2) \<times> int list \<times> (int \<Rightarrow> rd list) \<times> (int \<Rightarrow> byte list) \<times>
    (nat \<Rightarrow> string) \<times> (int \<Rightarrow> string option) \<times> 'a" where
  "aside s = (os_cfg s, os_drv s, os_wres s, os_in s, os_out s, os_strerror s, os_ttyname s, term_lib.more s)"

lemma aside_acts [simp]:
  "aside (event e s) = aside s" "aside (upd_dev d f s) = aside s" "aside (usleep n s) = aside s"
  "aside (os_close fd s) = aside s" "aside (setattr_act fd when t d s) = aside s"
  "aside (s\<lparr>os_errno := n\<rparr>) = aside s" "aside (s\<lparr>os_faults := fs\<rparr>) = aside s"
  "aside (s\<lparr>term_errno := e'\<rparr>) = aside s" "aside (s\<lparr>term_init := b\<rparr>) = aside s"
  "aside (s\<lparr>term_fd := xs\<rparr>) = aside s"
  "aside (set_fd i fd s) = aside s" "aside (set_orig i t s) = aside s" "aside (set_curr i t s) = aside s"
  "aside (set_next i t s) = aside s"
  by (simp_all add: aside_def event_def upd_dev_def usleep_def os_close_def setattr_act_def set_fd_def set_orig_def
      set_curr_def set_next_def)

lemma aside_tty_call:
  "(\<And>d s. aside (act d s) = aside s) \<Longrightarrow> aside (snd (tty_call fd act s)) = aside s"
  by (simp add: tty_call_def syscall_def split: option.split list.split)

lemma aside_retry:
  assumes "\<And>d s. aside (act d s) = aside s"
  shows "aside (snd (retry_eintr act fd s)) = aside s"
  by (rule retry_eintr_induct) (rule aside_tty_call [OF assms])

lemma aside_calls [simp]:
  "aside (snd (tc2setattr fd when t s)) = aside s" "aside (snd (tc2getattr fd s)) = aside s"
  "aside (snd (tcflush fd q s)) = aside s" "aside (snd (tcdrain fd s)) = aside s"
  "aside (snd (tcsendbreak fd s)) = aside s" "aside (snd (TIOCMBIS fd p s)) = aside s"
  "aside (snd (TIOCMBIC fd p s)) = aside s" "aside (snd (TIOCMGET fd s)) = aside s"
  by (simp_all add: tc2setattr_def snd_getattr tcflush_def tcdrain_def tcsendbreak_def TIOCMBIS_def TIOCMBIC_def
      ioctl_mctl_def aside_tty_call)

lemma aside_fail [simp]: "aside (snd (fail e s)) = aside s"
  by (simp add: fail_def)

lemma aside_edit [simp]: "aside (snd (edit_next fd f s)) = aside s"
  by (simp add: edit_next_def with_slot_eq split: option.split sum.split)

lemmas term_op_defs =
  term_flush_def term_apply_def term_refresh_def term_break_def term_drain_def term_fake_flush_def
  term_raise_dtr_def term_lower_dtr_def term_raise_rts_def term_lower_rts_def term_pulse_dtr_def
  term_erase_def term_revert_def

lemma aside_ops [simp]:
  "aside (snd (term_flush fd s)) = aside s" "aside (snd (term_apply fd now s)) = aside s"
  "aside (snd (term_refresh fd s)) = aside s" "aside (snd (term_break fd s)) = aside s"
  "aside (snd (term_drain fd s)) = aside s" "aside (snd (term_fake_flush fd s)) = aside s"
  "aside (snd (term_raise_dtr fd s)) = aside s" "aside (snd (term_lower_dtr fd s)) = aside s"
  "aside (snd (term_raise_rts fd s)) = aside s" "aside (snd (term_lower_rts fd s)) = aside s"
  "aside (snd (term_pulse_dtr fd s)) = aside s" "aside (snd (term_erase fd s)) = aside s"
  by (simp_all add: term_op_defs with_slot_eq check_fst check_get_fst Let_def aside_retry case_prod_unfold
      split: option.split)

lemma aside_set [simp]:
  "aside (snd (term_set_raw fd s)) = aside s" "aside (snd (term_set_baudrate fd b s)) = aside s"
  "aside (snd (term_set_parity fd p s)) = aside s" "aside (snd (term_set_databits fd n s)) = aside s"
  "aside (snd (term_set_stopbits fd n s)) = aside s" "aside (snd (term_set_flowcntrl fd fl s)) = aside s"
  "aside (snd (term_set_local fd l s)) = aside s" "aside (snd (term_set_hupcl fd h s)) = aside s"
  by (simp_all add: term_set_raw_def term_set_baudrate_def term_set_parity_def term_set_databits_def
      term_set_stopbits_def term_set_flowcntrl_def term_set_local_def term_set_hupcl_def)

lemma aside_get [simp]:
  "aside (snd (term_get_baudrate fd b s)) = aside s" "aside (snd (term_get_parity fd s)) = aside s"
  "aside (snd (term_get_databits fd s)) = aside s" "aside (snd (term_get_stopbits fd s)) = aside s"
  "aside (snd (term_get_flowcntrl fd s)) = aside s" "aside (snd (term_get_mctl fd s)) = aside s"
  by (simp_all add: term_get_baudrate_def term_get_parity_def term_get_databits_def term_get_stopbits_def
      term_get_flowcntrl_def term_get_mctl_def with_slot_eq Let_def case_prod_unfold split: option.split)

lemma aside_add [simp]: "aside (snd (term_add fd s)) = aside s" "aside (snd (term_remove fd s)) = aside s"
  by (simp_all add: term_add_def term_remove_def with_slot_eq term_find_def term_find_next_free_def check_fst
      check_get_fst Let_def case_prod_unfold split: option.split)

text \<open>The same, field by field, for the state of the program.\<close>

lemma aside_app:
  fixes s :: app
  assumes "aside s' = aside s"
  shows "opts s' = opts s" "sig_exit s' = sig_exit s" "tty_fd s' = tty_fd s" "log_fd s' = log_fd s"
    "rts_up s' = rts_up s" "dtr_up s' = dtr_up s" "tty_q s' = tty_q s" "tty_write_sz s' = tty_write_sz s"
    "msg_fd s' = msg_fd s" "ctl_fd s' = ctl_fd s" "stack_mem s' = stack_mem s" "children s' = children s"
    "os_cfg s' = os_cfg s" "os_drv s' = os_drv s" "os_wres s' = os_wres s" "os_in s' = os_in s" "os_out s' = os_out s"
  using assms by (simp_all add: aside_def) (cases s; cases s'; simp)+

lemma app_eqI:
  fixes s :: app
  assumes "aside s' = aside s" "tbl s' = tbl s" "hw s' = hw s" "os_errno s' = os_errno s" "term_errno s' = term_errno s"
  shows "s' = s"
  using assms by (cases s; cases s') (simp add: aside_def tbl_def hw_def)

section \<open>The port and the options\<close>

text \<open>
  \<open>port_ready\<close>: the port is managed, its settings are in step (nothing set but not yet applied, the
  terminal as the library believes), calls succeed and the driver accepts what it is given.
\<close>

definition port_tio :: "app \<Rightarrow> termios" where
  "port_tio s = of_termios2 (dv_tio (os_dev s (the (os_fd s (tty_fd s)))))"

definition port_ready :: "app \<Rightarrow> bool" where
  "port_ready s \<longleftrightarrow>
     table_ok s \<and> (\<exists>o'. amap s (tty_fd s) = Some (o', port_tio s, port_tio s)) \<and> os_fd s (tty_fd s) \<noteq> None \<and>
     os_faults s = [] \<and> (\<forall>k. os_drv s (the (os_fd s (tty_fd s))) k = k)"

definition port_now :: "app \<Rightarrow> port_params" where
  "port_now s = params_of (os_cfg s) (port_tio s)"

text \<open>The port has the settings the options ask for.\<close>

definition port_agrees :: "app \<Rightarrow> bool" where
  "port_agrees s \<longleftrightarrow>
     (let p = port_now s; o' = opts s in
      pp_baud p = baud o' \<and> pp_parity p = parity o' \<and> pp_databits p = databits o' \<and>
      pp_stopbits p = stopbits o' \<and> pp_flow p = flow o')"

lemma port_frame:
  fixes s :: app
  assumes "aside s' = aside s" "tbl s' = tbl s" "os_fd s' = os_fd s" "os_dev s' = os_dev s" "os_faults s' = os_faults s"
  shows "port_ready s' = port_ready s" "port_now s' = port_now s" "port_tio s' = port_tio s"
  using aside_app [OF assms(1)] tbl_amap [OF assms(2)] tbl_table_ok [OF assms(2)] assms(3-)
  by (simp_all add: port_ready_def port_now_def port_tio_def)

text \<open>The parts of the state \<open>port_ready\<close> and \<open>port_now\<close> look at.\<close>

lemma port_cong:
  fixes s :: app
  assumes "tbl s' = tbl s" "os_fd s' = os_fd s" "os_dev s' = os_dev s" "os_faults s' = os_faults s"
    "tty_fd s' = tty_fd s" "os_drv s' = os_drv s" "os_cfg s' = os_cfg s"
  shows "port_ready s' = port_ready s" "port_now s' = port_now s"
  using tbl_amap [OF assms(1)] tbl_table_ok [OF assms(1)] assms(2-)
  by (simp_all add: port_ready_def port_now_def port_tio_def)

lemma say_port [simp]:
  "port_ready (say fd t s) = port_ready s" "port_now (say fd t s) = port_now s"
  by (rule port_cong; simp)+

lemma upd_port [simp]:
  "port_ready (s\<lparr>tty_q := q\<rparr>) = port_ready s" "port_now (s\<lparr>tty_q := q\<rparr>) = port_now s"
  "port_ready (s\<lparr>tty_write_sz := n\<rparr>) = port_ready s" "port_now (s\<lparr>tty_write_sz := n\<rparr>) = port_now s"
  "port_ready (set_opts f s) = port_ready s" "port_now (set_opts f s) = port_now s"
  by (rule port_cong; simp add: tbl_def set_opts_def)+

section \<open>The contract of a command that changes a setting\<close>

text \<open>
  \<open>setf\<close> and \<open>getf\<close> are the two calls of the command, \<open>sel\<close> the option they are about and \<open>val\<close>
  the part of what \<open>getf\<close> returns that is the setting.
\<close>

locale port_command = setting +
  fixes setf :: "app \<Rightarrow> int \<times> app"
    and getf :: "app \<Rightarrow> 'w \<times> app"
    and sel :: "ppcom_opt \<Rightarrow> 'a"
    and val :: "'w \<Rightarrow> 'a"
  assumes setf: "os_cfg s = bld \<Longrightarrow> setf s = edit_next (tty_fd s) (\<lambda>_. setv (sel (opts s))) s"
    and getf: "os_cfg s = bld \<Longrightarrow> amap s (tty_fd s) = Some (o', c, n) \<Longrightarrow> val (fst (getf s)) = getv c"
    and getf_state: "os_cfg s = bld \<Longrightarrow> \<exists>e. snd (getf s) = s\<lparr>term_errno := e\<rparr>"
begin

lemma applied:
  assumes "port_ready s" "os_cfg s = bld" "ctype (sel (opts s))" "valid (sel (opts s))"
    and s'_def: "s' = snd (apply_setting setf getf s)"
  shows "val (fst (apply_setting setf getf s)) = sel (opts s)" "port_ready s'" "opts s' = opts s"
    "port_now s' = (upd (sel (opts s)) (port_now s))\<lparr>pp_line := pp_line (port_now s')\<rparr>"
    "q_buff (tty_q s') = []" "os_cfg s' = bld"
proof -
  let ?fd = "tty_fd s" and ?v = "sel (opts s)"
  obtain o' d where r: "table_ok s" "amap s ?fd = Some (o', port_tio s, port_tio s)" "os_fd s ?fd = Some d"
    "os_faults s = []" "\<And>k. os_drv s d k = k"
    using assms(1) by (auto simp: port_ready_def)
  have fd: "?fd \<noteq> -1" using r(2) by (auto simp: amap_Some)
  obtain n' where n': "setv ?v (port_tio s) = Inr n'" "getv (of_termios2 (to_termios2 n')) = ?v"
    using set_wire_get [OF assms(3,4)] .
  define s1 where "s1 = snd (setf s)"
  define s2 where "s2 = s1\<lparr>tty_q := (tty_q s1)\<lparr>q_buff := []\<rparr>\<rparr>"
  define s3 where "s3 = snd (term_flush ?fd s2)"
  define s4 where "s4 = snd (term_apply ?fd True s3)"
  have e: "setf s = edit_next ?fd (\<lambda>_. setv ?v) s" by (rule setf [OF assms(2)])
  have s1: "amap s1 = (amap s)(?fd \<mapsto> (o', port_tio s, n'))" "table_ok s1" "hw s1 = hw s" "aside s1 = aside s"
    using edit_next_cases [OF r(1) fd, of "\<lambda>_. setv ?v"] r(2) n'(1) by (simp_all add: s1_def e edit_next_hw)
  note a1 = aside_app [OF s1(4)]
  have s2: "amap s2 = amap s1" "table_ok s2" "hw s2 = hw s1"
    using s1(2) tbl_amap [of s2 s1] tbl_table_ok [of s2 s1] by (simp_all add: s2_def tbl_def hw_def)
  have m2: "amap s2 ?fd = Some (o', port_tio s, n')" using s2(1) s1(1) by simp
  obtain i where i: "slot_of ?fd s2 = Some i" using m2 by (auto simp: amap_Some)
  have s3: "tbl s3 = tbl s2" "os_fd s3 = os_fd s2" "os_dev s3 = os_dev s2" "os_faults s3 = []" "os_drv s3 = os_drv s2"
    using s1(3) s2(3) r(3,4) i by (simp_all add: s3_def term_flush_def with_slot_eq check_fst tcflush_def tty_call_def
      syscall_def hw_def)
  have a3: "aside s3 = aside s2" by (simp add: s3_def)
  have h: "table_ok s3" "amap s3 ?fd = Some (o', port_tio s, n')" "os_fd s3 ?fd = Some d" "\<And>k. os_drv s3 d k = k"
    using s3 s2 m2 tbl_amap [OF s3(1)] tbl_table_ok [OF s3(1)] s1(3) r(3,5) by (simp_all add: hw_def)
  define t where "t = of_termios2 (to_termios2 n')"
  have td: "t = of_termios2 (os_drv s3 d (to_termios2 n'))" by (simp add: t_def h(4))
  note ap = term_apply_ok [OF h(1-3) s3(4) td s4_def]
  have a4: "aside s4 = aside s3" by (simp add: s4_def)
  note hw4 = ap(7,8)
  have o4: "opts s4 = opts s" "tty_fd s4 = ?fd" "q_buff (tty_q s4) = []" "os_cfg s4 = bld" "os_drv s4 = os_drv s"
    using aside_app [OF a4] aside_app [OF a3] a1 assms(2) by (simp_all add: s2_def)
  have m4: "amap s4 ?fd = Some (copy_hupcl t o', t, t)" using ap(2) by simp
  have p4: "port_tio s4 = t" using hw4 h(3) ap(4) o4(2) by (simp add: port_tio_def td)
  have fd2: "tty_fd s1 = ?fd" "tty_fd s2 = ?fd" "tty_fd s3 = ?fd"
    using a1 aside_app [OF a3] by (simp_all add: s2_def)
  have w: "apply_setting setf getf s = getf s4"
    using fd2 unfolding apply_setting_def Let_def s1_def s2_def s3_def s4_def by simp
  obtain er where er: "snd (getf s4) = s4\<lparr>term_errno := er\<rparr>" using getf_state [OF o4(4)] by blast
  have s': "s' = s4\<lparr>term_errno := er\<rparr>" using er w s'_def by simp
  have pr: "port_ready s4"
    using ap(3) m4 p4 hw4 h(3) o4 r(5) by (auto simp: port_ready_def)
  have same: "port_ready s' = port_ready s4" "port_now s' = port_now s4"
    unfolding s' by (rule port_cong; simp add: tbl_def)+
  show "val (fst (apply_setting setf getf s)) = ?v"
    unfolding w using getf [of s4] m4 o4 n'(2) by (simp add: t_def)
  show "port_ready s'" using pr same by simp
  show "opts s' = opts s" "q_buff (tty_q s') = []" "os_cfg s' = bld" using o4 s' by simp_all
  have "params_of bld n' = upd ?v (params_of bld (port_tio s))" by (rule set_frame [OF assms(3) n'(1)])
  then have "params_of bld t = (upd ?v (params_of bld (port_tio s)))\<lparr>pp_line := pp_line (params_of bld t)\<rparr>"
    using params_wire [of bld n'] by (simp add: t_def)
  then show "port_now s' = (upd ?v (port_now s))\<lparr>pp_line := pp_line (port_now s')\<rparr>"
    using same(2) p4 o4(4) assms(2) by (simp add: port_now_def)
qed

end

section \<open>The five commands meet it\<close>

lemma edit_next_here: "edit_next fd f s = edit_next fd (\<lambda>_. f s) s"
  by (simp add: edit_next_def with_slot_eq split: option.split)

lemma get_no_change [simp]:
  "\<exists>e. snd (with_slot r fd (\<lambda>i s. (g i s, s)) s) = s\<lparr>term_errno := e\<rparr>"
proof (cases "slot_of fd s")
  case None
  then show ?thesis by (intro exI [of _ "find_err s"]) (simp add: with_slot_eq)
next
  case (Some i)
  then show ?thesis by (intro exI [of _ "term_errno s"]) (simp add: with_slot_eq)
qed

interpretation parity_cmd: port_command set_parity_tio get_parity_tio "\<lambda>_. True" "\<lambda>p. p \<noteq> P_ERROR"
  "\<lambda>v p. p\<lparr>pp_parity := v\<rparr>" bld "\<lambda>s. term_set_parity (tty_fd s) (parity (opts s)) s"
  "\<lambda>s. term_get_parity (tty_fd s) s" parity "\<lambda>v. v"
  by unfold_locales (simp_all add: term_set_parity_def getters_curr, simp add: term_get_parity_def)

interpretation bits_cmd: port_command set_databits_tio get_databits_tio "\<lambda>_. True" "\<lambda>n. n \<in> {5, 6, 7, 8}"
  "\<lambda>v p. p\<lparr>pp_databits := v\<rparr>" bld "\<lambda>s. term_set_databits (tty_fd s) (databits (opts s)) s"
  "\<lambda>s. term_get_databits (tty_fd s) s" databits "\<lambda>v. v"
  by unfold_locales (simp_all add: term_set_databits_def getters_curr, simp add: term_get_databits_def)

interpretation stop_cmd: port_command set_stopbits_tio get_stopbits_tio "\<lambda>_. True" "\<lambda>n. n \<in> {1, 2}"
  "\<lambda>v p. p\<lparr>pp_stopbits := v\<rparr>" bld "\<lambda>s. term_set_stopbits (tty_fd s) (stopbits (opts s)) s"
  "\<lambda>s. term_get_stopbits (tty_fd s) s" stopbits "\<lambda>v. v"
  by unfold_locales (simp_all add: term_set_stopbits_def getters_curr, simp add: term_get_stopbits_def)

interpretation flow_cmd: port_command set_flowcntrl_tio get_flowcntrl_tio "\<lambda>_. True"
  "\<lambda>f. f \<in> {FC_NONE, FC_RTSCTS, FC_XONXOFF}" "\<lambda>v p. p\<lparr>pp_flow := v\<rparr>" bld
  "\<lambda>s. term_set_flowcntrl (tty_fd s) (flow (opts s)) s" "\<lambda>s. term_get_flowcntrl (tty_fd s) s" flow "\<lambda>v. v"
  by unfold_locales (simp_all add: term_set_flowcntrl_def getters_curr, simp add: term_get_flowcntrl_def)

interpretation baud_cmd: port_command "set_baudrate_tio bld" "get_baudrate_tio bld" c_int_type "baud_valid bld"
  "\<lambda>v p. p\<lparr>pp_baud := v\<rparr>" bld "\<lambda>s. term_set_baudrate (tty_fd s) (baud (opts s)) s"
  "\<lambda>s. term_get_baudrate (tty_fd s) False s" baud fst
proof
  fix s :: app
  assume b: "os_cfg s = bld"
  show "term_set_baudrate (tty_fd s) (baud (opts s)) s =
     edit_next (tty_fd s) (\<lambda>_. set_baudrate_tio bld (baud (opts s))) s"
    unfolding term_set_baudrate_def by (subst edit_next_here) (simp add: b)
  show "\<exists>e. snd (term_get_baudrate (tty_fd s) False s) = s\<lparr>term_errno := e\<rparr>"
  proof (cases "slot_of (tty_fd s) s")
    case None
    then show ?thesis by (intro exI [of _ "find_err s"]) (simp add: term_get_baudrate_def with_slot_eq)
  next
    case (Some i)
    then show ?thesis
      by (intro exI [of _ "if get_baudrate_tio (os_cfg s) (term_curr s ! i) < 0 then TERM_EGETSPEED else term_errno s"])
        (simp add: term_get_baudrate_def with_slot_eq Let_def)
  qed
qed (simp add: getters_curr)

end
