(* ===== verification/Cmd_Props.thy ===== *)
theory Cmd_Props
  imports Cmd_Lemmas
begin

text \<open>
  Properties of the command keys: the setting commands keep the port in step with the options, the
  status display is truthful, the prompts, the external programs.
\<close>

section \<open>Cycling through values\<close>

locale cycle =
  fixes nxt :: "'v \<Rightarrow> 'v"
    and vals :: "'v list"
  assumes vals_distinct: "distinct vals"
    and nxt_map: "List.map nxt vals = rotate1 vals"
begin

lemma nxt_nth: "i < length vals \<Longrightarrow> nxt (vals ! i) = vals ! (Suc i mod length vals)"
  using nxt_map by (metis nth_map nth_rotate1)

lemma nxt_in: "v \<in> set vals \<Longrightarrow> nxt v \<in> set vals"
  using nxt_nth by (auto simp: in_set_conv_nth) (metis length_pos_if_in_set mod_less_divisor nth_mem)

lemma nxt_pow: "i < length vals \<Longrightarrow> (nxt ^^ k) (vals ! i) = vals ! ((i + k) mod length vals)"
proof (induction k)
  case (Suc k)
  then have "(i + k) mod length vals < length vals" by (intro mod_less_divisor) auto
  then show ?case using Suc nxt_nth by (simp add: mod_Suc_eq)
qed simp

text \<open>Every value comes up, and after as many steps as there are values the first one is back.\<close>

lemma nxt_back: "v \<in> set vals \<Longrightarrow> (nxt ^^ length vals) v = v"
  using nxt_pow by (auto simp: in_set_conv_nth)

lemma all_reached:
  assumes "v \<in> set vals" "w \<in> set vals"
  shows "\<exists>k<length vals. (nxt ^^ k) v = w"
proof -
  obtain i j where ij: "i < length vals" "vals ! i = v" "j < length vals" "vals ! j = w"
    using assms by (auto simp: in_set_conv_nth)
  let ?k = "(j + length vals - i) mod length vals"
  have "(i + ?k) mod length vals = (j + length vals) mod length vals"
    using ij by (simp add: mod_add_right_eq)
  then have "(nxt ^^ ?k) v = w" using nxt_pow [OF ij(1), of ?k] ij by simp
  moreover have "?k < length vals" using ij by (intro mod_less_divisor) auto
  ultimately show ?thesis by blast
qed

end

interpretation flow_keys: cycle flow_next "[FC_NONE, FC_RTSCTS, FC_XONXOFF]"
  by unfold_locales simp_all

interpretation parity_keys: cycle parity_next "[P_NONE, P_EVEN, P_ODD]"
  by unfold_locales simp_all

interpretation bits_keys: cycle bits_next "[5, 6, 7, 8]"
  by unfold_locales (simp_all add: bits_next_def)

interpretation stop_keys: cycle stopbits_next "[1, 2]"
  by unfold_locales (simp_all add: stopbits_next_def)

section \<open>The setting commands\<close>

text \<open>What a setting key asks for.\<close>

definition setting_step :: "bool \<Rightarrow> byte \<Rightarrow> ppcom_opt \<Rightarrow> ppcom_opt" where
  "setting_step high c o' =
     (if c = KEY_BAUD_UP then o'\<lparr>baud := baud_up high (baud o')\<rparr>
      else if c = KEY_BAUD_DN then o'\<lparr>baud := baud_down high (baud o')\<rparr>
      else if c = KEY_FLOW then o'\<lparr>flow := flow_next (flow o')\<rparr>
      else if c = KEY_PARITY then o'\<lparr>parity := parity_next (parity o')\<rparr>
      else if c = KEY_BITS then o'\<lparr>databits := bits_next (databits o')\<rparr>
      else if c = KEY_STOP then o'\<lparr>stopbits := stopbits_next (stopbits o')\<rparr>
      else o')"

definition setting_keys :: "byte list" where
  "setting_keys = [KEY_BAUD_UP, KEY_BAUD_DN, KEY_FLOW, KEY_PARITY, KEY_BITS, KEY_STOP]"

lemma baud_up_legal:
  assumes "c_int_type b" "b \<noteq> 0" "baud_valid cfg b"
  shows "c_int_type (baud_up (HIGH_BAUD cfg) b)" "baud_up (HIGH_BAUD cfg) b \<noteq> 0"
    "baud_valid cfg (baud_up (HIGH_BAUD cfg) b)"
proof -
  let ?S = "{s \<in> set (speeds (HIGH_BAUD cfg)). b < s}"
  have u: "baud_up (HIGH_BAUD cfg) b = (if ?S = {} then b else Min ?S)"
    by (simp only: baud_up_def term_baud_up_Min)
  have p: "0 < b" using assms(2,3) speeds_nonneg [of b "HIGH_BAUD cfg"] by (auto simp: baud_valid_def simp del: set_map)
  have m: "Min ?S \<in> set (speeds (HIGH_BAUD cfg)) \<and> b < Min ?S" if "?S \<noteq> {}"
    using Min_in [of ?S, OF finite_subset [OF _ finite_set [of "speeds (HIGH_BAUD cfg)"]]] that by blast
  have c: "s \<in> set (speeds h) \<Longrightarrow> c_int_type s" for s h
    by (cases h) (auto simp: baud_table_def baud_table_std_def baud_table_high_def)
  show "c_int_type (baud_up (HIGH_BAUD cfg) b)" "baud_up (HIGH_BAUD cfg) b \<noteq> 0"
    "baud_valid cfg (baud_up (HIGH_BAUD cfg) b)"
  proof (atomize (full), cases "?S = {}")
    case True
    then show "c_int_type (baud_up (HIGH_BAUD cfg) b) \<and> baud_up (HIGH_BAUD cfg) b \<noteq> 0 \<and>
      baud_valid cfg (baud_up (HIGH_BAUD cfg) b)" unfolding u using assms by simp
  next
    case False
    then have "baud_up (HIGH_BAUD cfg) b = Min ?S" by (rule trans [OF u if_not_P])
    then show "c_int_type (baud_up (HIGH_BAUD cfg) b) \<and> baud_up (HIGH_BAUD cfg) b \<noteq> 0 \<and>
      baud_valid cfg (baud_up (HIGH_BAUD cfg) b)"
      using conjunct1 [OF m [OF False]] conjunct2 [OF m [OF False]] c [of "Min ?S" "HIGH_BAUD cfg"] p
      unfolding baud_valid_def by (metis less_trans less_irrefl)
  qed
qed

lemma baud_down_legal:
  assumes "c_int_type b" "b \<noteq> 0" "baud_valid cfg b"
  shows "c_int_type (baud_down (HIGH_BAUD cfg) b)" "baud_down (HIGH_BAUD cfg) b \<noteq> 0"
    "baud_valid cfg (baud_down (HIGH_BAUD cfg) b)"
proof -
  let ?S = "{s \<in> set (speeds (HIGH_BAUD cfg)). s < b}"
  let ?d = "term_baud_down (HIGH_BAUD cfg) b"
  have u: "?d = (if ?S = {} then b else Max ?S)" by (rule term_baud_down_Max)
  have m: "Max ?S \<in> set (speeds (HIGH_BAUD cfg)) \<and> Max ?S < b" if "?S \<noteq> {}"
    using Max_in [of ?S, OF finite_subset [OF _ finite_set [of "speeds (HIGH_BAUD cfg)"]]] that by blast
  have c: "s \<in> set (speeds h) \<Longrightarrow> c_int_type s" for s h
    by (cases h) (auto simp: baud_table_def baud_table_std_def baud_table_high_def)
  have "c_int_type ?d \<and> baud_valid cfg ?d"
    unfolding u using m c assms by (auto simp: baud_valid_def simp del: set_map)
  then show "c_int_type (baud_down (HIGH_BAUD cfg) b)" "baud_down (HIGH_BAUD cfg) b \<noteq> 0"
    "baud_valid cfg (baud_down (HIGH_BAUD cfg) b)"
    using assms by (auto simp: baud_down_def Let_def)
qed

lemma setting_step_legal: "opts_legal cfg o' \<Longrightarrow> opts_legal cfg (setting_step (HIGH_BAUD cfg) c o')"
  using flow_keys.nxt_in [of "flow o'"] parity_keys.nxt_in [of "parity o'"] bits_keys.nxt_in [of "databits o'"]
    stop_keys.nxt_in [of "stopbits o'"] baud_up_legal [of "baud o'" cfg] baud_down_legal [of "baud o'" cfg]
  by (auto simp: setting_step_def opts_legal_def)

text \<open>The state after a setting command.\<close>

definition setting_done :: "ppcom_opt \<Rightarrow> app \<Rightarrow> app \<Rightarrow> bool" where
  "setting_done o' s s' \<longleftrightarrow>
     opts s' = o' \<and> port_ready s' \<and> port_agrees s' \<and> q_buff (tty_q s') = [] \<and> os_cfg s' = os_cfg s"

lemma setting_done_say [simp]: "setting_done o' s (say fd t s') = setting_done o' s s'"
  by (simp add: setting_done_def port_agrees_def)

lemma setting_done_report [simp]: "setting_done o' s (report_setting n b t1 t2 s') = setting_done o' s s'"
  by (simp add: report_setting_def)

lemma set_opts_sel [simp]:
  "opts (set_opts f s) = f (opts s)" "os_cfg (set_opts f s) = os_cfg s" "tty_fd (set_opts f s) = tty_fd s"
  "tty_q (set_opts f s) = tty_q s" "os_faults (set_opts f s) = os_faults s"
  by (simp_all add: set_opts_def)

lemma setting_doneI:
  assumes "opts s' = o'" "port_ready s'" "q_buff (tty_q s') = []" "os_cfg s' = os_cfg s"
    "port_now s' = (f (port_now s))\<lparr>pp_line := l\<rparr>"
    "port_agrees s"
    "\<And>p. pp_baud p = baud (opts s) \<Longrightarrow> pp_parity p = parity (opts s) \<Longrightarrow> pp_databits p = databits (opts s) \<Longrightarrow>
       pp_stopbits p = stopbits (opts s) \<Longrightarrow> pp_flow p = flow (opts s) \<Longrightarrow>
       pp_baud (f p) = baud o' \<and> pp_parity (f p) = parity o' \<and> pp_databits (f p) = databits o' \<and>
       pp_stopbits (f p) = stopbits o' \<and> pp_flow (f p) = flow o'"
  shows "setting_done o' s s'"
  using assms(1-4) assms(6) assms(7) [of "port_now s"] unfolding setting_done_def port_agrees_def assms(5) Let_def by simp

lemma keys_distinct: "distinct setting_keys"
  by (simp add: setting_keys_def)

lemma cmd_parity_done:
  assumes "opts_legal (os_cfg s) (opts s)" "port_ready s" "port_agrees s"
  shows "setting_done (setting_step h KEY_PARITY (opts s)) s (cmd_parity s)"
proof -
  let ?s1 = "set_opts (\<lambda>o'. o'\<lparr>parity := parity_next (parity o')\<rparr>) s"
  have v: "parity_next (parity (opts s)) \<noteq> P_ERROR"
    using assms(1) by (auto simp: opts_legal_def)
  note a = parity_cmd.applied [where s = ?s1, OF _ refl _ _ refl]
  show ?thesis
    using a assms(2,3) v
    by (auto simp: cmd_parity_def Let_def case_prod_unfold setting_step_def intro!: setting_doneI [OF _ _ _ _ _ assms(3)])
qed

lemma cmd_flow_done:
  assumes "opts_legal (os_cfg s) (opts s)" "port_ready s" "port_agrees s"
  shows "setting_done (setting_step h KEY_FLOW (opts s)) s (cmd_flow s)"
proof -
  let ?s1 = "set_opts (\<lambda>o'. o'\<lparr>flow := flow_next (flow o')\<rparr>) s"
  have v: "flow_next (flow (opts s)) \<in> {FC_NONE, FC_RTSCTS, FC_XONXOFF}"
    using assms(1) by (auto simp: opts_legal_def)
  note a = flow_cmd.applied [where s = ?s1, OF _ refl _ _ refl]
  show ?thesis
    using a assms(2,3) v
    by (auto simp: cmd_flow_def Let_def case_prod_unfold setting_step_def intro!: setting_doneI [OF _ _ _ _ _ assms(3)])
qed

lemma cmd_bits_done:
  assumes "opts_legal (os_cfg s) (opts s)" "port_ready s" "port_agrees s"
  shows "setting_done (setting_step h KEY_BITS (opts s)) s (cmd_bits s)"
proof -
  let ?s1 = "set_opts (\<lambda>o'. o'\<lparr>databits := bits_next (databits o')\<rparr>) s"
  have v: "bits_next (databits (opts s)) \<in> {5, 6, 7, 8}"
    using assms(1) bits_keys.nxt_in [of "databits (opts s)"] by (auto simp: opts_legal_def)
  note a = bits_cmd.applied [where s = ?s1, OF _ refl _ _ refl]
  show ?thesis
    using a assms(2,3) v
    by (auto simp: cmd_bits_def Let_def case_prod_unfold setting_step_def intro!: setting_doneI [OF _ _ _ _ _ assms(3)])
qed

lemma cmd_stop_done:
  assumes "opts_legal (os_cfg s) (opts s)" "port_ready s" "port_agrees s"
  shows "setting_done (setting_step h KEY_STOP (opts s)) s (cmd_stop s)"
proof -
  let ?s1 = "set_opts (\<lambda>o'. o'\<lparr>stopbits := stopbits_next (stopbits o')\<rparr>) s"
  have v: "stopbits_next (stopbits (opts s)) \<in> {1, 2}"
    using assms(1) stop_keys.nxt_in [of "stopbits (opts s)"] by (auto simp: opts_legal_def)
  note a = stop_cmd.applied [where s = ?s1, OF _ refl _ _ refl]
  show ?thesis
    using a assms(2,3) v
    by (auto simp: cmd_stop_def Let_def case_prod_unfold setting_step_def intro!: setting_doneI [OF _ _ _ _ _ assms(3)])
qed

lemma setting_done_write_sz [simp]: "setting_done o' s (s'\<lparr>tty_write_sz := n\<rparr>) = setting_done o' s s'"
  by (simp add: setting_done_def port_agrees_def)

lemma cmd_baud_done:
  assumes "opts_legal (os_cfg s) (opts s)" "port_ready s" "port_agrees s" "c = KEY_BAUD_UP \<or> c = KEY_BAUD_DN"
  shows "setting_done (setting_step (HIGH_BAUD (os_cfg s)) c (opts s)) s (cmd_baud c s)"
    "tty_write_sz (cmd_baud c s) = set_tty_write_sz (baud (opts (cmd_baud c s)))"
proof -
  define b where "b = (if c = KEY_BAUD_UP then baud_up (HIGH_BAUD (os_cfg s)) (baud (opts s))
                       else baud_down (HIGH_BAUD (os_cfg s)) (baud (opts s)))"
  let ?s1 = "set_opts (\<lambda>o'. o'\<lparr>baud := b\<rparr>) s"
  have k: "c \<noteq> KEY_BAUD" using assms(4) by auto
  have st: "setting_step (HIGH_BAUD (os_cfg s)) c (opts s) = (opts s)\<lparr>baud := b\<rparr>"
    using assms(4) by (auto simp: setting_step_def b_def)
  have v: "c_int_type b" "baud_valid (os_cfg s) b"
    using setting_step_legal [OF assms(1), of c] by (auto simp: st opts_legal_def)
  note a = baud_cmd.applied [where s = ?s1, OF _ refl _ _ refl]
  have cmd: "cmd_baud c s =
      (let (new, s3) = apply_setting (\<lambda>s. term_set_baudrate (tty_fd s) (baud (opts s)) s)
                           (\<lambda>s. term_get_baudrate (tty_fd s) False s) ?s1;
           s4 = report_setting ''baud'' (baud (opts s3) = fst new) (dec_int (baud (opts s3))) (dec_int (fst new)) s3
       in s4\<lparr>tty_write_sz := set_tty_write_sz (fst new)\<rparr>)"
    unfolding cmd_baud_def b_def using k by (simp add: Let_def)
  show "setting_done (setting_step (HIGH_BAUD (os_cfg s)) c (opts s)) s (cmd_baud c s)"
    unfolding st cmd using a assms(2,3) v
    by (auto simp: Let_def case_prod_unfold intro!: setting_doneI [OF _ _ _ _ _ assms(3)])
  show "tty_write_sz (cmd_baud c s) = set_tty_write_sz (baud (opts (cmd_baud c s)))"
    unfolding cmd using a assms(2) v by (simp add: Let_def case_prod_unfold report_setting_def)
qed

lemma do_setting_key:
  "c \<in> set setting_keys \<Longrightarrow> do_command c s =
     Inr (False, if c = KEY_BAUD_UP \<or> c = KEY_BAUD_DN then cmd_baud c s else if c = KEY_FLOW then cmd_flow s
                 else if c = KEY_PARITY then cmd_parity s else if c = KEY_BITS then cmd_bits s else cmd_stop s)"
  by (auto simp: setting_keys_def do_command_def)

lemma setting_key_done:
  assumes "opts_legal (os_cfg s) (opts s)" "port_ready s" "port_agrees s" "c \<in> set setting_keys"
  shows "\<exists>s'. do_command c s = Inr (False, s') \<and>
           setting_done (setting_step (HIGH_BAUD (os_cfg s)) c (opts s)) s s'"
proof -
  note d = cmd_baud_done(1) [OF assms(1-3)] cmd_flow_done [OF assms(1-3)] cmd_parity_done [OF assms(1-3)]
    cmd_bits_done [OF assms(1-3)] cmd_stop_done [OF assms(1-3)]
  consider "c = KEY_BAUD_UP" | "c = KEY_BAUD_DN" | "c = KEY_FLOW" | "c = KEY_PARITY" | "c = KEY_BITS" | "c = KEY_STOP"
    using assms(4) by (auto simp: setting_keys_def)
  then show ?thesis
    unfolding do_setting_key [OF assms(4)] using d by cases simp_all
qed

section \<open>The status display\<close>

lemma getters_exact:
  assumes "amap s fd = Some (o', cu, n)"
  shows "term_get_parity fd s = (get_parity_tio cu, s)" "term_get_databits fd s = (get_databits_tio cu, s)"
    "term_get_stopbits fd s = (get_stopbits_tio cu, s)" "term_get_flowcntrl fd s = (get_flowcntrl_tio cu, s)"
    "\<exists>e. term_get_baudrate fd False s = ((get_baudrate_tio (os_cfg s) cu, None), s\<lparr>term_errno := e\<rparr>)"
proof -
  obtain i where i: "slot_of fd s = Some i" "cu = term_curr s ! i" using assms by (auto simp: amap_Some)
  show "term_get_parity fd s = (get_parity_tio cu, s)" "term_get_databits fd s = (get_databits_tio cu, s)"
    "term_get_stopbits fd s = (get_stopbits_tio cu, s)" "term_get_flowcntrl fd s = (get_flowcntrl_tio cu, s)"
    by (simp_all add: i term_get_parity_def term_get_databits_def term_get_stopbits_def term_get_flowcntrl_def
        with_slot_eq)
  show "\<exists>e. term_get_baudrate fd False s = ((get_baudrate_tio (os_cfg s) cu, None), s\<lparr>term_errno := e\<rparr>)"
    by (intro exI [of _ "if get_baudrate_tio (os_cfg s) cu < 0 then TERM_EGETSPEED else term_errno s"])
      (simp add: i term_get_baudrate_def with_slot_eq Let_def)
qed

lemma refresh_ok:
  assumes "table_ok s" "amap s fd = Some (o', cu, n)" "os_fd s fd = Some d" "os_faults s = []"
  shows "term_refresh fd s = (0, snd (term_refresh fd s))"
    "amap (snd (term_refresh fd s)) = (amap s)(fd \<mapsto> (o', of_termios2 (dv_tio (os_dev s d)), n))"
    "hw (snd (term_refresh fd s)) = hw s"
proof -
  obtain i where i: "slot_of fd s = Some i" "fd \<noteq> -1" using assms(2) by (auto simp: amap_Some)
  have r: "term_refresh fd s = (0, set_curr i (of_termios2 (dv_tio (os_dev s d))) s)"
    using assms(3,4) by (simp add: term_refresh_def with_slot_eq i check_get_fst tc2getattr_def tty_call_def syscall_def)
  show "term_refresh fd s = (0, snd (term_refresh fd s))" by (simp add: r)
  show "amap (snd (term_refresh fd s)) = (amap s)(fd \<mapsto> (o', of_termios2 (dv_tio (os_dev s d)), n))"
    using i assms(1,2) by (simp add: r amap_set_curr upd_curr_def)
  show "hw (snd (term_refresh fd s)) = hw s" by (simp add: r hw_def)
qed

lemma stat_line_count: "fst (stat_line qt nm same a b r) = fst r + (if same then 0 else 1)"
  by (simp add: stat_line_def case_prod_unfold)

text \<open>A status line only writes to the terminal of the user.\<close>

lemma stat_line_same: "same_but_out STO (snd r) (snd (stat_line qt nm same a b r))"
  by (simp add: stat_line_def case_prod_unfold statpf_def say_same)

lemma mctl_not_unavail: "mctl_of m \<noteq> MCTL_UNAVAIL"
proof
  assume "mctl_of m = MCTL_UNAVAIL"
  then have "bit (mctl_of m) 0 = bit MCTL_UNAVAIL 0" by simp
  then show False
    by (simp add: mctl_of_def MCTL_UNAVAIL_def MCTL_DTR_def MCTL_DSR_def MCTL_DCD_def MCTL_RTS_def MCTL_CTS_def
        MCTL_RI_def bit_or_iff bit_push_bit_iff split: if_splits)
qed

lemma and_push_bit_1: "n < 32 \<Longrightarrow> (w AND push_bit n 1 \<noteq> 0) = bit w n" for w :: "32 word"
  by (simp add: and_exp_eq_0_iff_not_bit push_bit_eq_mult)

lemma mctl_of_bits:
  "bit (mctl_of m) 1 = bit m 1" "bit (mctl_of m) 4 = bit m 2"
  unfolding mctl_of_def TIOCM_DTR_def TIOCM_RTS_def TIOCM_CTS_def TIOCM_CD_def TIOCM_RI_def TIOCM_DSR_def
    MCTL_DTR_def MCTL_DSR_def MCTL_DCD_def MCTL_RTS_def MCTL_CTS_def MCTL_RI_def bit_or_iff
  by (simp_all only: if_distrib [of "\<lambda>w. bit w _"] bit_push_bit_iff and_push_bit_1 bit_1_iff) simp_all

lemma mctl_of_lines:
  "(mctl_of m AND MCTL_DTR \<noteq> 0) = bit m 1" "(mctl_of m AND MCTL_RTS \<noteq> 0) = bit m 2"
  using and_push_bit_1 [of 1 "mctl_of m"] and_push_bit_1 [of 4 "mctl_of m"] mctl_of_bits [of m]
  by (simp_all only: MCTL_DTR_def MCTL_RTS_def)

text \<open>The mismatches between what the options ask for and what the port and its lines are.\<close>

definition mismatches :: "app \<Rightarrow> bool list" where
  "mismatches s =
     (let p = port_now s; m = dv_mctl (os_dev s (the (os_fd s (tty_fd s)))); o' = opts s in
      [pp_baud p \<noteq> baud o', pp_flow p \<noteq> flow o', pp_parity p \<noteq> parity o', pp_databits p \<noteq> databits o',
       pp_stopbits p \<noteq> stopbits o', bit m 1 \<noteq> dtr_up s, bit m 2 \<noteq> rts_up s])"

lemma mctl_available:
  assumes "slot_of fd s \<noteq> None" "os_fd s fd = Some d" "os_faults s = []"
  shows "term_get_mctl fd s = (Some (mctl_of (dv_mctl (os_dev s d))), s)"
  using assms by (auto simp: term_get_mctl_def with_slot_eq TIOCMGET_def tty_call_def syscall_def)

lemma show_status_counts:
  assumes "table_ok s" "amap s (tty_fd s) = Some (o', cu, n)" "os_fd s (tty_fd s) = Some d" "os_faults s = []"
  shows "fst (show_status qt s) = length (filter (\<lambda>b. b) (mismatches s))"
proof -
  let ?fd = "tty_fd s"
  define s1 where "s1 = snd (term_refresh ?fd s)"
  let ?t = "of_termios2 (dv_tio (os_dev s d))"
  have r: "term_refresh ?fd s = (0, s1)" "amap s1 ?fd = Some (o', ?t, n)" "hw s1 = hw s" "aside s1 = aside s"
    using refresh_ok [OF assms] by (simp_all add: s1_def)
  note a = aside_app [OF r(4)]
  obtain e where e: "term_get_baudrate ?fd False s1 = ((get_baudrate_tio (os_cfg s1) ?t, None), s1\<lparr>term_errno := e\<rparr>)"
    using getters_exact(5) [OF r(2)] by blast
  define s2 where "s2 = s1\<lparr>term_errno := e\<rparr>"
  have t2: "tbl s2 = tbl s1" by (simp add: s2_def tbl_def)
  then have m2: "amap s2 ?fd = Some (o', ?t, n)" using tbl_amap [OF t2] r(2) by simp
  note g = getters_exact(1-4) [OF m2]
  have same: "opts s2 = opts s" "dtr_up s2 = dtr_up s" "rts_up s2 = rts_up s" "os_fd s2 = os_fd s" "os_dev s2 = os_dev s"
    "os_faults s2 = []" "os_cfg s2 = os_cfg s"
    using a r(3) assms(4) by (simp_all add: s2_def hw_def)
  obtain i where i: "slot_of ?fd s2 = Some i" using m2 by (auto simp: amap_Some)
  have mc: "term_get_mctl ?fd s7 = (Some (mctl_of (dv_mctl (os_dev s d))), s7)" if "same_but_out STO s2 s7" for s7
    using same_app [OF that] same i assms(3) tbl_slot_of [of s7 s2 ?fd] mctl_available [of ?fd s7 d] by simp
  define o2 where "o2 = opts s2"
  define r1 where "r1 = (0::nat, statpf qt crlf s2)"
  define r2 where "r2 = stat_line qt ''baud'' (get_baudrate_tio (os_cfg s1) ?t = baud o2) (dec_int (baud o2))
    (dec_int (get_baudrate_tio (os_cfg s1) ?t)) r1"
  define r3 where "r3 = stat_line qt ''flow'' (get_flowcntrl_tio ?t = flow o2) (flow_str (flow o2)) (flow_str (get_flowcntrl_tio ?t)) r2"
  define r4 where "r4 = stat_line qt ''parity'' (get_parity_tio ?t = parity o2) (parity_str (parity o2)) (parity_str (get_parity_tio ?t)) r3"
  define r5 where "r5 = stat_line qt ''databits'' (get_databits_tio ?t = databits o2) (dec_int (databits o2)) (dec_int (get_databits_tio ?t)) r4"
  define r6 where "r6 = stat_line qt ''stopbits'' (get_stopbits_tio ?t = stopbits o2) (dec_int (stopbits o2)) (dec_int (get_stopbits_tio ?t)) r5"
  note rs = r2_def r3_def r4_def r5_def r6_def
  have s6: "same_but_out STO s2 (snd r6)"
    unfolding rs r1_def by (intro same_but_out_trans [OF _ stat_line_same]) (simp add: statpf_def say_same)
  let ?m = "mctl_of (dv_mctl (os_dev s d))"
  define dtr rts where "dtr = (?m AND MCTL_DTR \<noteq> 0)" and "rts = (?m AND MCTL_RTS \<noteq> 0)"
  define r7 where "r7 = stat_line qt ''dtr'' (dtr = dtr_up (snd r6)) (up_down (dtr_up (snd r6))) (up_down dtr) r6"
  define r8 where "r8 = stat_line qt ''rts'' (rts = rts_up (snd r6)) (up_down (rts_up (snd r6))) (up_down rts) r7"
  have "show_status qt s = (fst r8, statpf qt (mctl_text ?m) (statpf qt ''*** mctl: '' (snd r8)))"
    by (simp add: show_status_def Let_def case_prod_unfold r(1) e s2_def [symmetric] g o2_def [symmetric]
        r1_def [symmetric] rs [symmetric] mc [OF s6] mctl_not_unavail dtr_def [symmetric] rts_def [symmetric]
        r7_def [symmetric] r8_def [symmetric])
  then have "fst (show_status qt s) = fst r8" by simp
  then show ?thesis
    using same assms(3) same_app(11,12) [OF s6] a(13)
    by (simp add: r8_def r7_def rs r1_def stat_line_count mismatches_def port_now_def port_tio_def params_of_def
        dtr_def rts_def mctl_of_lines o2_def Let_def)
qed

section \<open>External programs\<close>

lemma drain_ok:
  assumes "slot_of fd s \<noteq> None" "os_fd s fd = Some d" "os_faults s = []"
  shows "term_drain fd s = (0, usleep DRAIN_DELAY (event (E_drain fd) s))"
proof -
  have "retry_eintr (\<lambda>_. event (E_drain fd)) fd s = (True, event (E_drain fd) s)"
    using assms by (subst retry_eintr.simps) (simp add: tty_call_def syscall_def)
  then show ?thesis using assms(1) by (auto simp: term_drain_def with_slot_eq check_def DRAIN_DELAY_def)
qed

lemma remove_ok:
  assumes "slot_of fd s = Some i" "os_fd s fd = Some d" "os_faults s = []"
  shows "term_remove fd s =
     (0, set_fd i (-1) (setattr_act fd TCSANOW (term_orig s ! i) d (event (E_flush fd TCIOFLUSH) s)))"
  using assms slot_ofD [OF assms(1)]
  by (simp add: term_remove_def with_slot_eq check_def tcflush_def tc2setattr_def tty_call_def syscall_def)

lemma erase_ok: "slot_of fd s = Some i \<Longrightarrow> term_erase fd s = (0, set_fd i (-1) s)"
  by (simp add: term_erase_def with_slot_eq)

text \<open>The child: what it does to the terminals before it becomes the other program.\<close>

lemma run_child_exec:
  assumes "table_ok s" "amap s STI = Some (o', cu, n)" "amap s fd \<noteq> None" "fd \<noteq> STI \<and> fd \<noteq> STO" "os_fd s STI = Some d"
    "os_faults s = []"
    "split_quoted mem_ok cmd [] RUNCMD_ARGS_MAX = (r1, a1)" "0 \<le> r1"
    "split_quoted mem_ok extra a1 RUNCMD_ARGS_MAX = (r2, argv)" "0 \<le> r2" "argv \<noteq> []"
  shows "\<exists>c. run_child fd cmd extra s = (Child_exec argv, c) \<and> os_faults c = [] \<and>
    os_evs c = os_evs s @ [E_drain STI, E_usleep DRAIN_DELAY, E_flush STI TCIOFLUSH, E_setattr STI TCSANOW o',
                           E_close STI, E_close STO, E_fork argv] \<and>
    os_dev c = (os_dev s)(d := (os_dev s d)\<lparr>dv_tio := os_drv s d (to_termios2 o')\<rparr>) \<and>
    os_fd c STI = os_fd s fd \<and> os_fd c STO = os_fd s fd"
proof -
  obtain i where i: "slot_of STI s = Some i" "o' = term_orig s ! i" using assms(2) by (auto simp: amap_Some)
  define s1 where "s1 = usleep DRAIN_DELAY (event (E_drain STI) s)"
  have s1: "term_drain STI s = (0, s1)" using drain_ok [OF _ assms(5,6)] i by (simp add: s1_def)
  have t1: "tbl s1 = tbl s" by (simp add: s1_def)
  define s2 where "s2 = set_fd i (-1) (setattr_act STI TCSANOW o' d (event (E_flush STI TCIOFLUSH) s1))"
  have "slot_of STI s1 = Some i" using tbl_slot_of [OF t1] i by simp
  moreover have "term_orig s1 ! i = o'" using t1 i by (simp add: tbl_def)
  moreover have h1: "os_fd s1 = os_fd s" "os_faults s1 = []" using assms(6) by (simp_all add: s1_def usleep_def)
  ultimately have s2: "term_remove STI s1 = (0, s2)" using assms(5) by (simp add: remove_ok s2_def)
  have sl: "slot_of STI s1 = Some i" "table_ok s1" using tbl_slot_of [OF t1] tbl_table_ok [OF t1] i assms(1) by simp_all
  have "slot_of fd s2 \<noteq> None"
  proof -
    have "amap s2 = (amap s1)(STI := None)"
      using amap_clear [of "setattr_act STI TCSANOW o' d (event (E_flush STI TCIOFLUSH) s1)" STI i] sl
      by (simp add: s2_def STI_def)
    then have "amap s2 fd \<noteq> None" using assms(3,4) tbl_amap [OF t1] by simp
    then show ?thesis by (auto simp: amap_def split: if_splits option.splits)
  qed
  then obtain j where j: "slot_of fd s2 = Some j" by blast
  define s3 where "s3 = set_fd j (-1) s2"
  have s3: "term_erase fd s2 = (0, s3)" by (simp add: erase_ok [OF j] s3_def)
  define s4 where "s4 = os_close STO (os_close STI s3)"
  define s5 where "s5 = s4\<lparr>os_fd := (os_fd s4)(STI := os_fd s4 fd, STO := os_fd s4 fd)\<rparr>"
  define s6 where "s6 = say STE (''$ '' @ cmd @ '' '' @ extra @ [LF]) s5"
  have f: "os_faults s5 = []" "os_faults s6 = []" "os_evs s6 = os_evs s5" "os_dev s6 = os_dev s5" "os_fd s6 = os_fd s5"
    using h1 by (simp_all add: s6_def s5_def s4_def os_close_def s3_def s2_def setattr_act_def)
  have r: "run_child fd cmd extra s = (Child_exec argv, event (E_fork argv) s6)"
  proof -
    show ?thesis
      using assms(8,10,11) f(1) unfolding run_child_def Let_def s1 snd_conv s2 s3 s4_def [symmetric] s5_def [symmetric]
        assms(7,9) prod.case
      by (simp add: s6_def syscall_def Suc_le_eq)
  qed
  have v: "os_evs s5 = os_evs s @ [E_drain STI, E_usleep DRAIN_DELAY, E_flush STI TCIOFLUSH, E_setattr STI TCSANOW o',
      E_close STI, E_close STO]"
    "os_dev s5 = (os_dev s)(d := (os_dev s d)\<lparr>dv_tio := os_drv s d (to_termios2 o')\<rparr>)"
    by (simp_all add: s5_def s4_def os_close_def s3_def s2_def setattr_act_def s1_def usleep_def)
  have w: "os_fd s5 STI = os_fd s fd" "os_fd s5 STO = os_fd s fd"
    using h1 assms(4) by (auto simp: s5_def s4_def os_close_def s3_def s2_def setattr_act_def STI_def STO_def)
  show ?thesis using r f v w by auto
qed

lemma after_child_sel [simp]:
  "os_dev (after_child c s) = os_dev c" "os_evs (after_child c s) = os_evs c" "os_faults (after_child c s) = os_faults c"
  "os_fd (after_child c s) = os_fd s" "os_cfg (after_child c s) = os_cfg s" "os_drv (after_child c s) = os_drv s"
  "tbl (after_child c s) = tbl s" "opts (after_child c s) = opts s"
  by (simp_all add: after_child_def tbl_def)

lemma child_status_exec:
  "\<exists>cs. child_status (Child_exec argv) s = ((case children s of [] \<Rightarrow> W_exited 0 | w # _ \<Rightarrow> w), s\<lparr>children := cs\<rparr>)"
proof (cases "children s")
  case Nil
  then show ?thesis by (intro exI [of _ "children s"]) (simp add: child_status_def)
next
  case (Cons w ws)
  then show ?thesis by (intro exI [of _ ws]) (simp add: child_status_def)
qed

lemma run_cmd_effect:
  assumes "table_ok s" "amap s STI = Some (o', cu, n)" "amap s fd \<noteq> None" "fd \<noteq> STI \<and> fd \<noteq> STO" "os_fd s STI = Some d"
    "os_faults s = []"
    "split_quoted mem_ok cmd [] RUNCMD_ARGS_MAX = (r1, a1)" "0 \<le> r1"
    "split_quoted mem_ok extra a1 RUNCMD_ARGS_MAX = (r2, argv)" "0 \<le> r2" "argv \<noteq> []"
  shows "let (r, s') = run_cmd fd cmd extra s; t = of_termios2 (dv_tio (os_dev s' d)) in
    os_evs s' = os_evs s @ [E_drain STI, E_usleep DRAIN_DELAY, E_flush STI TCIOFLUSH, E_setattr STI TCSANOW o',
                            E_close STI, E_close STO, E_fork argv, E_setattr STI TCSAFLUSH n] \<and>
    dv_tio (os_dev s' d) = os_drv s d (to_termios2 n) \<and>
    amap s' = (amap s)(STI \<mapsto> (copy_hupcl t o', t, t)) \<and> os_fd s' = os_fd s \<and>
    r = (case children s of [] \<Rightarrow> 0 | W_exited k # _ \<Rightarrow> k | _ \<Rightarrow> -1)"
proof -
  obtain c where c: "run_child fd cmd extra s = (Child_exec argv, c)" "os_faults c = []"
    "os_evs c = os_evs s @ [E_drain STI, E_usleep DRAIN_DELAY, E_flush STI TCIOFLUSH, E_setattr STI TCSANOW o',
                           E_close STI, E_close STO, E_fork argv]"
    using run_child_exec [OF assms] by blast
  obtain cs where cs: "child_status (Child_exec argv) (after_child c s) =
      ((case children s of [] \<Rightarrow> W_exited 0 | w # _ \<Rightarrow> w), (after_child c s)\<lparr>children := cs\<rparr>)"
    using child_status_exec [of argv "after_child c s"] by (auto simp: after_child_def)
  define s1 where "s1 = (after_child c s)\<lparr>children := cs\<rparr>"
  define s2 where "s2 = snd (term_apply STI False s1)"
  have tb: "tbl s1 = tbl s" by (simp add: s1_def tbl_def after_child_def)
  have h: "table_ok s1" "amap s1 STI = Some (o', cu, n)" "os_fd s1 STI = Some d" "os_faults s1 = []" "os_drv s1 = os_drv s"
    "amap s1 = amap s" "os_evs s1 = os_evs c" "os_fd s1 = os_fd s"
    using assms(1,2,5) c(2) tbl_table_ok [OF tb] tbl_amap [OF tb] by (simp_all add: s1_def)
  note ap = term_apply_ok [OF h(1-4) refl s2_def]
  define w where "w = (case children s of [] \<Rightarrow> W_exited 0 | w # _ \<Rightarrow> w)"
  have "\<exists>tx. run_cmd fd cmd extra s = ((case w of W_exited k \<Rightarrow> k | _ \<Rightarrow> -1), say STO tx s2)"
    using assms(6) by (cases w) (auto simp: run_cmd_def syscall_def c(1) cs w_def [symmetric] Let_def s2_def s1_def)
  then obtain tx where r: "run_cmd fd cmd extra s = ((case w of W_exited k \<Rightarrow> k | _ \<Rightarrow> -1), say STO tx s2)" by blast
  have am: "amap (say STO tx s2) = amap s2" by (rule tbl_amap) simp
  have "(case w of W_exited k \<Rightarrow> k | _ \<Rightarrow> -1) = (case children s of [] \<Rightarrow> 0 | W_exited k # _ \<Rightarrow> k | _ \<Rightarrow> -1)"
    by (simp add: w_def split: list.split wait_status.split)
  then show ?thesis using ap h c(3) by (simp add: r am Let_def)
qed

section \<open>Properties\<close>

text \<open>
  C3: the setting keys keep the port in step with the options.  With a port that agrees with legal
  options, a driver that accepts what it is given and no failing call, each of the six keys steps
  its own option (baud rate up and down, flow control, parity, data bits, stop bits) and no other,
  the options stay legal, the port is reconfigured to exactly these settings, and the output queue is
  emptied; the program goes on.
\<close>

theorem setting_commands:
  assumes "opts_legal (os_cfg s) (opts s)" "port_ready s" "port_agrees s" "c \<in> set setting_keys"
  shows "\<exists>s'. do_command c s = Inr (False, s') \<and>
              opts s' = setting_step (HIGH_BAUD (os_cfg s)) c (opts s) \<and> opts_legal (os_cfg s') (opts s') \<and>
              port_ready s' \<and> port_agrees s' \<and> q_buff (tty_q s') = []"
  using setting_key_done [OF assms] setting_step_legal [OF assms(1), of c] by (auto simp: setting_done_def)

lemma sample_port: "port_ready sample_app" "opts_legal (os_cfg sample_app) (opts sample_app)"
proof -
  have t: "port_tio sample_app = of_termios2 sample_tio"
    by (simp add: port_tio_def sample_app_def sample_def term_lib.extend_def)
  have a: "amap sample_app = amap sample" "table_ok sample_app"
  proof -
    have "slot_at sample_app = slot_at sample"
      by (rule ext) (simp add: slot_at_def sample_app_def term_lib.extend_def)
    moreover have "slot_of fd sample_app = slot_of fd sample" for fd
      by (simp add: slot_of_def sample_app_def term_lib.extend_def)
    ultimately show "amap sample_app = amap sample" by (intro ext) (simp add: amap_def)
    show "table_ok sample_app"
      by (simp add: table_ok_def sample_def MAX_TERMS_def managed_distinct_def sample_app_def term_lib.extend_def)
  qed
  then show "port_ready sample_app"
    using sample_amap by (simp add: port_ready_def t sample_app_sel) (simp add: sample_app_def sample_def term_lib.extend_def)
  show "opts_legal (os_cfg sample_app) (opts sample_app)"
    using baud_valid_9600 [of sample_cfg]
    by (simp add: sample_app_sel sample_opts_def opts_legal_def c_int_id)
qed

lemma sample_agrees: "port_agrees sample_app"
proof -
  have t: "port_tio sample_app = of_termios2 sample_tio"
    by (simp add: port_tio_def sample_app_def sample_def term_lib.extend_def)
  have f: "c_cflag (of_termios2 sample_tio) = 0xCBD" "c_iflag (of_termios2 sample_tio) = 0x100"
    by (simp_all add: of_termios2_def sample_tio_def)
  have o: "cfgetospeed (of_termios2 sample_tio) = 13"
    by (simp add: cfgetospeed_def f CBAUD_def CBAUDEX_def mask_eq_exp_minus_1)
  have "get_baudrate_tio sample_cfg (of_termios2 sample_tio) = 9600"
    by (simp add: get_baudrate_tio_def o Bspeed_def baud_table_def baud_table_std_def sample_cfg_def)
  moreover have "get_parity_tio (of_termios2 sample_tio) = P_NONE" "get_databits_tio (of_termios2 sample_tio) = 8"
    "get_stopbits_tio (of_termios2 sample_tio) = 1" "get_flowcntrl_tio (of_termios2 sample_tio) = FC_NONE"
    by (simp_all add: get_parity_bits get_databits_bits get_stopbits_bits get_flow_bits f Let_def bit_numeral_rec)
  ultimately show ?thesis
    by (simp add: port_agrees_def port_now_def t params_of_def sample_app_sel sample_opts_def Let_def)
qed

lemma setting_commands_witness:
  "\<exists>s'. do_command KEY_PARITY sample_app = Inr (False, s') \<and> port_agrees s' \<and> parity (opts s') = P_EVEN"
  using setting_commands [OF sample_port(2,1) sample_agrees, of KEY_PARITY]
  by (auto simp: setting_keys_def setting_step_def sample_app_sel sample_opts_def)

text \<open>
  C18: the status display tells the truth: with the port open and no failing call, the number of
  mismatches \<^verbatim>\<open>show_status\<close> returns, on which the warning at the start depends, is the number of
  settings (baud rate, flow control, parity, data bits, stop bits) that the terminal, read afresh,
  does not have as the options say, plus the lines (DTR, RTS) that are not as the program believes.
\<close>

theorem show_status_truth:
  assumes "table_ok s" "amap s (tty_fd s) = Some (o', cu, n)" "os_fd s (tty_fd s) = Some d" "os_faults s = []"
  shows "fst (show_status qt s) = length (filter (\<lambda>b. b) (mismatches s))"
  by (rule show_status_counts [OF assms])

lemma sample_app_terms:
  "table_ok sample_app" "amap sample_app 3 = Some (of_termios2 sample_tio, of_termios2 sample_tio, of_termios2 sample_tio)"
  "amap sample_app 0 = Some (of_termios2 sample_tio, of_termios2 sample_tio, of_termios2 sample_tio)"
  "os_fd sample_app 3 = Some 1" "os_fd sample_app 0 = Some 0"
proof -
  have "slot_at sample_app = slot_at sample"
    by (rule ext) (simp add: slot_at_def sample_app_def term_lib.extend_def)
  moreover have "slot_of fd sample_app = slot_of fd sample" for fd
    by (simp add: slot_of_def sample_app_def term_lib.extend_def)
  ultimately have "amap sample_app = amap sample" by (intro ext) (simp add: amap_def)
  then show "amap sample_app 3 = Some (of_termios2 sample_tio, of_termios2 sample_tio, of_termios2 sample_tio)"
    "amap sample_app 0 = Some (of_termios2 sample_tio, of_termios2 sample_tio, of_termios2 sample_tio)"
    using sample_amap by simp_all
qed (simp_all add: table_ok_def sample_def MAX_TERMS_def managed_distinct_def sample_app_def term_lib.extend_def)

lemma show_status_truth_witness: "fst (show_status True sample_app) = 0"
proof -
  have "mismatches sample_app = replicate 7 False"
    using sample_agrees sample_app_terms(4)
    by (simp add: mismatches_def port_agrees_def Let_def sample_app_sel(4) eval_nat_numeral)
      (simp add: sample_app_def sample_def term_lib.extend_def bit_numeral_rec)
  then show ?thesis
    using show_status_truth [of sample_app _ _ _ 1 True] sample_app_terms sample_app_sel by simp
qed



end
