(* ===== verification/Main_Loop.thy ===== *)
theory Main_Loop
  imports Commands
begin

text \<open>
  The main loop, \<^verbatim>\<open>loop\<close> of \<^verbatim>\<open>src/ppcom/src/ppcom.cpp\<close>, with its helpers, the signal handler, and
  \<^verbatim>\<open>main\<close>.  What \<^verbatim>\<open>select\<close> reports and the arrival of signals are given from outside, one element of
  a list per call of \<^verbatim>\<open>select\<close> or signal; everything else is computed.
\<close>

section \<open>State and helpers\<close>

definition msec2tv :: "int \<Rightarrow> int \<times> int" where
  "msec2tv ms = (ms div 1000, (ms mod 1000) * 1000)"

datatype le_reason = LE_CMD | LE_IDLE | LE_STDIN | LE_SIGNAL

datatype cmd_state = ST_COMMAND | ST_TRANSPARENT

record loop_vars =
  lp_state :: cmd_state
  stdin_closed :: bool

definition STI_RD_SZ :: nat where "STI_RD_SZ = 16"
definition TTY_RD_SZ :: nat where "TTY_RD_SZ = 128"
definition CTL_RD_SZ :: nat where "CTL_RD_SZ = 1023"

text \<open>What \<^verbatim>\<open>select\<close> reports: an error, the end of the time, or the descriptors that are ready.\<close>

datatype sel = Sel_err nat | Sel_timeout | Sel_ready "int list" "int list"

text \<open>\<^verbatim>\<open>do { n = read(...); } while ( n < 0 && errno == EINTR );\<close>\<close>

function read_retry :: "int \<Rightarrow> nat \<Rightarrow> 'a os_scheme \<Rightarrow> (nat + byte list) \<times> 'a os_scheme" where
  "read_retry fd n s =
     (let (r, s') = os_read fd n s in
      if r = Inl EINTR then read_retry fd n s' else (r, s'))"
  by pat_completeness auto
termination
  by (relation "measure (\<lambda>(fd, n, s). in_size fd s)")
     (auto simp: os_read_def in_size_def split: list.splits rd.splits)

declare read_retry.simps [simp del]

section \<open>Input from the user\<close>

definition bell_unless :: "nat \<Rightarrow> unit prog" where
  "bell_unless k = upd (\<lambda>s. if k \<noteq> 1 then say STO [BEL] s else s)"

text \<open>One character; the first component of the result is whether the program is to end.\<close>

definition sti_char :: "byte \<Rightarrow> cmd_state \<Rightarrow> (bool \<times> cmd_state) prog" where
  "sti_char c st s =
     (case st of
        ST_COMMAND \<Rightarrow>
          if c = escape (opts s) then
            bindp (tty_q_push [c]) (\<lambda>k. bindp (bell_unless k) (\<lambda>_. ret (False, ST_TRANSPARENT))) s
          else
            bindp (do_command c) (\<lambda>q. ret (q, ST_TRANSPARENT)) s
      | ST_TRANSPARENT \<Rightarrow>
          if \<not> noescape (opts s) \<and> c = escape (opts s) then Inr ((False, ST_COMMAND), s)
          else bindp (tty_q_push [c]) (\<lambda>k. bindp (bell_unless k) (\<lambda>_. ret (False, ST_TRANSPARENT))) s)"

fun sti_chars :: "byte list \<Rightarrow> cmd_state \<Rightarrow> (bool \<times> cmd_state) prog" where
  "sti_chars [] st = ret (False, st)"
| "sti_chars (c # cs) st =
     bindp (sti_char c st) (\<lambda>(q, st'). if q then ret (True, st') else sti_chars cs st')"

definition sti_input :: "loop_vars \<Rightarrow> (bool \<times> loop_vars) prog" where
  "sti_input lp s =
     (case read_retry STI STI_RD_SZ s of
        (Inr [], s') \<Rightarrow>
          Inr ((False, lp\<lparr>stdin_closed := True\<rparr>), pinfo (crlf @ ''** read zero bytes from stdin **'' @ crlf) s')
      | (Inl e, s') \<Rightarrow>
          if e \<noteq> EAGAIN then fatal (''read from stdin failed: '' @ strerror_of s') s'
          else Inr ((False, lp), s')
      | (Inr bs, s') \<Rightarrow>
          bindp (sti_chars bs (lp_state lp)) (\<lambda>(q, st). ret (q, lp\<lparr>lp_state := st\<rparr>)) s')"

section \<open>Input from the port\<close>

definition write_log :: "byte list \<Rightarrow> unit prog" where
  "write_log bs s =
     (case writen_ni (log_fd s) bs s of (r, s') \<Rightarrow>
        if r < length bs then fatal (''write to logfile failed: '' @ strerror_of s') s' else Inr ((), s'))"

definition map_input :: "byte list \<Rightarrow> byte list prog" where
  "map_input bs s =
     (case map_bytes (NDEBUG (os_cfg s)) (imap (opts s)) bs of None \<Rightarrow> Inl (Aborted s) | Some b \<Rightarrow> Inr (b, s))"

definition tty_input :: "unit prog" where
  "tty_input s =
     (case read_retry (tty_fd s) TTY_RD_SZ s of
        (Inr [], s') \<Rightarrow> fatal ''read zero bytes from port'' s'
      | (Inl e, s') \<Rightarrow>
          if e \<noteq> EAGAIN then fatal (''read from port failed: '' @ strerror_of s') s' else Inr ((), s')
      | (Inr bs, s') \<Rightarrow>
          bindp (upd (\<lambda>s. if msg_fd s > 0 then snd (writen_ni (msg_fd s) bs s) else s)) (\<lambda>_.
          bindp (\<lambda>s. if log_filename (opts s) \<noteq> None then write_log bs s else Inr ((), s)) (\<lambda>_.
          bindp (map_input bs) (\<lambda>b s.
            case writen_ni STO b s of (r, s') \<Rightarrow>
              if r < length b then fatal (''write to stdout failed: '' @ strerror_of s') s' else Inr ((), s')))) s')"

section \<open>Output to the port\<close>

definition tty_output :: "unit prog" where
  "tty_output s =
     (let q = q_buff (tty_q s);
          sz = (if int (length q) < tty_write_sz s then int (length q) else tty_write_sz s);
          (n, s1) = write_retry (tty_fd s) (take (nat sz) q) s
      in
      if n \<le> 0 then fatal (''write to port failed: '' @ strerror_of s1) s1
      else
        (let sent = take (nat n) q in
         bindp (upd (\<lambda>s. if lecho (opts s) \<and> msg_fd s > 0 then snd (writen_ni (msg_fd s) sent s) else s)) (\<lambda>_.
         bindp (\<lambda>s. if lecho (opts s) \<and> log_filename (opts s) \<noteq> None then write_log sent s else Inr ((), s)) (\<lambda>_.
         upd (\<lambda>s. s\<lparr>tty_q := (tty_q s)\<lparr>q_buff := drop (nat n) (q_buff (tty_q s))\<rparr>\<rparr>))) s1))"

section \<open>Input from the control socket\<close>

text \<open>
  The buffer is a C string whose end is looked for anew in every round, and a line end is
  overwritten by a NUL: the loop stops after the first line end.
\<close>

fun ctl_text :: "byte list \<Rightarrow> byte list" where
  "ctl_text [] = []"
| "ctl_text (c # cs) =
     (if c = EOS then [] else if c = LF \<or> c = CR then [c] else c # ctl_text cs)"

fun push_each :: "byte list \<Rightarrow> unit prog" where
  "push_each [] = ret ()"
| "push_each (c # cs) = bindp (tty_q_push [c]) (\<lambda>k. bindp (bell_unless k) (\<lambda>_. push_each cs))"

definition ctl_input :: "unit prog" where
  "ctl_input s =
     (case os_read (ctl_fd s) CTL_RD_SZ s of
        (Inl e, s') \<Rightarrow> Inr ((), s')
      | (Inr bs, s') \<Rightarrow> push_each (ctl_text bs) s')"

section \<open>The loop\<close>

text \<open>
  Before \<^verbatim>\<open>select\<close>: the reason to leave, or the time to wait (\<open>None\<close>: for ever) and the descriptors
  to wait for.
\<close>

definition loop_wait :: "loop_vars \<Rightarrow> app \<Rightarrow> le_reason + (int \<times> int) option \<times> int list \<times> int list" where
  "loop_wait lp s =
     (let rds = (if \<not> stdin_closed lp then [STI] else []) @ (if \<not> opt_exit (opts s) then [tty_fd s] else []) @
                (if ctl_fd s > 0 then [ctl_fd s] else [])
      in
      if q_len s \<noteq> 0 then Inr (None, rds, [tty_fd s])
      else if exit_after (opts s) \<ge> 0 then Inr (Some (msec2tv (exit_after (opts s))), rds, [])
      else if stdin_closed lp then Inl LE_STDIN
      else Inr (None, rds, []))"

text \<open>What \<^verbatim>\<open>select\<close> may report for what it was asked.\<close>

definition sel_legal :: "(int \<times> int) option \<times> int list \<times> int list \<Rightarrow> sel \<Rightarrow> bool" where
  "sel_legal ask r =
     (case ask of (tv, rds, wrs) \<Rightarrow>
        (case r of
           Sel_err e \<Rightarrow> True
         | Sel_timeout \<Rightarrow> tv \<noteq> None
         | Sel_ready R W \<Rightarrow> set R \<subseteq> set rds \<and> set W \<subseteq> set wrs \<and> (R \<noteq> [] \<or> W \<noteq> [])))"

definition when_prog :: "bool \<Rightarrow> unit prog \<Rightarrow> unit prog" where
  "when_prog b m s = (if b then m s else Inr ((), s))"

text \<open>
  After \<^verbatim>\<open>select\<close>: one pass through the four parts.  \<^verbatim>\<open>FD_ISSET\<close> of a negative descriptor is not
  defined by the language.
\<close>

definition loop_ready :: "int list \<Rightarrow> int list \<Rightarrow> loop_vars \<Rightarrow> (le_reason option \<times> loop_vars) prog" where
  "loop_ready R W lp =
     bindp (\<lambda>s. if STI \<in> set R then sti_input lp s else Inr ((False, lp), s)) (\<lambda>(q, lp').
       if q then ret (Some LE_CMD, lp')
       else
         bindp (\<lambda>s. when_prog (tty_fd s \<in> set R) tty_input s) (\<lambda>_.
         bindp (\<lambda>s. when_prog (tty_fd s \<in> set W) tty_output s) (\<lambda>_.
         bindp (\<lambda>s. if ctl_fd s < 0 then Inl (Undefined s) else when_prog (ctl_fd s \<in> set R) ctl_input s) (\<lambda>_.
         ret (None, lp')))))"

definition loop_select :: "sel \<Rightarrow> loop_vars \<Rightarrow> (le_reason option \<times> loop_vars) prog" where
  "loop_select r lp s =
     (case r of
        Sel_err e \<Rightarrow>
          if e = EINTR then Inr ((None, lp), s\<lparr>os_errno := e\<rparr>)
          else (let s' = s\<lparr>os_errno := e\<rparr> in
                fatal (''select failed: '' @ dec_nat e @ '' : '' @ strerror_of s') s')
      | Sel_timeout \<Rightarrow> Inr ((Some LE_IDLE, lp), s)
      | Sel_ready R W \<Rightarrow> loop_ready R W lp s)"

definition deadly_handler :: "app \<Rightarrow> app" where
  "deadly_handler s = (if \<not> sig_exit s then event E_kill (s\<lparr>sig_exit := True\<rparr>) else s)"

datatype loop_event = L_select sel | L_signal

text \<open>
  The loop over the events from outside.  \<open>None\<close>: the loop still waits when the events are used up.
\<close>

fun loop_run :: "loop_event list \<Rightarrow> loop_vars \<Rightarrow> (le_reason option \<times> loop_vars) prog" where
  "loop_run es lp s =
     (if sig_exit s then Inr ((Some LE_SIGNAL, lp), s)
      else
        (case loop_wait lp s of
           Inl r \<Rightarrow> Inr ((Some r, lp), s)
         | Inr ask \<Rightarrow>
             (case es of
                [] \<Rightarrow> Inr ((None, lp), s)
              | L_signal # es' \<Rightarrow> loop_run es' lp (deadly_handler s)
              | L_select r # es' \<Rightarrow>
                  bindp (loop_select r lp) (\<lambda>(le, lp').
                    case le of Some x \<Rightarrow> ret (Some x, lp') | None \<Rightarrow> loop_run es' lp') s)))"

declare loop_run.simps [simp del]

definition loop_start :: "app \<Rightarrow> loop_vars" where
  "loop_start s = \<lparr>lp_state = ST_TRANSPARENT, stdin_closed = opt_exit (opts s)\<rparr>"

text \<open>
  \<^verbatim>\<open>mffwd.init\<close> and \<^verbatim>\<open>mffwd.exit\<close> as far as the loop sees them: the two client sockets.
  \<open>up\<close> is whether the servers came up; when one does not, \<^verbatim>\<open>startSrv\<close> throws and nothing catches
  the exception.  \<^verbatim>\<open>setup_socket\<close> returns 1 when it fails.
\<close>

definition setup_socket :: "int option \<Rightarrow> int" where
  "setup_socket r = (case r of None \<Rightarrow> 1 | Some fd \<Rightarrow> fd)"

definition ffwd_init :: "bool \<Rightarrow> int option \<Rightarrow> int option \<Rightarrow> unit prog" where
  "ffwd_init up m c s =
     (if \<not> up then Inl (Aborted s)
      else
        (let s1 = s\<lparr>msg_fd := setup_socket m\<rparr> in
         Inr ((), if msg_fd s1 < 0 then s1 else s1\<lparr>ctl_fd := setup_socket c\<rparr>)))"

definition ffwd_exit :: "app \<Rightarrow> app" where
  "ffwd_exit s = os_close (ctl_fd s) (os_close (msg_fd s) s)"

definition main_loop :: "bool \<Rightarrow> int option \<Rightarrow> int option \<Rightarrow> loop_event list \<Rightarrow> (le_reason option) prog" where
  "main_loop up m c es =
     bindp (ffwd_init up m c) (\<lambda>_ s.
     bindp (loop_run es (loop_start s)) (\<lambda>(le, _) s'. Inr (le, if le = None then s' else ffwd_exit s')) s)"

end
