(* ===== verification/Main_Prog.thy ===== *)
theory Main_Prog
  imports Main_Loop
begin

text \<open>
  The program from \<^verbatim>\<open>main\<close> to its end, \<^verbatim>\<open>src/ppcom/src/ppcom.cpp\<close>: \<^verbatim>\<open>set_dtr_rts\<close> and \<^verbatim>\<open>main\<close> after
  the options are parsed.  What \<^verbatim>\<open>open\<close> returns and the outcomes of the two socket connections are
  given from outside.
\<close>

section \<open>DTR and RTS\<close>

definition require :: "string \<Rightarrow> (app \<Rightarrow> int \<times> app) \<Rightarrow> (app \<Rightarrow> app) \<Rightarrow> unit prog" where
  "require what f k s =
     (case f s of (r, s') \<Rightarrow>
        if r < 0 then fatal (what @ term_error s') s' else Inr ((), k s'))"

definition set_rts :: "unit prog" where
  "set_rts s =
     (if lower_rts (opts s) then
        require ''failed to lower RTS of port: '' (term_lower_rts (tty_fd s)) (\<lambda>s. s\<lparr>rts_up := False\<rparr>) s
      else if raise_rts (opts s) then
        require ''failed to raise RTS of port: '' (term_raise_rts (tty_fd s)) (\<lambda>s. s\<lparr>rts_up := True\<rparr>) s
      else Inr ((), s))"

definition set_dtr :: "unit prog" where
  "set_dtr s =
     (if lower_dtr (opts s) then
        require ''failed to lower DTR of port: '' (term_lower_dtr (tty_fd s)) (\<lambda>s. s\<lparr>dtr_up := False\<rparr>) s
      else if raise_dtr (opts s) then
        require ''failed to raise DTR of port: '' (term_raise_dtr (tty_fd s)) (\<lambda>s. s\<lparr>dtr_up := True\<rparr>) s
      else Inr ((), s))"

definition read_lines :: "app \<Rightarrow> app" where
  "read_lines s =
     (case term_get_mctl (tty_fd s) s of
        (None, s') \<Rightarrow> s'
      | (Some m, s') \<Rightarrow>
          if m = MCTL_UNAVAIL then s'
          else s'\<lparr>rts_up := ((m AND MCTL_RTS) \<noteq> 0), dtr_up := ((m AND MCTL_DTR) \<noteq> 0)\<rparr>)"

definition set_dtr_rts :: "unit prog" where
  "set_dtr_rts = bindp set_rts (\<lambda>_. bindp set_dtr (\<lambda>_. upd read_lines))"

section \<open>Start\<close>

text \<open>
  The outcomes of the calls of \<^verbatim>\<open>main\<close> outside the library: \<^verbatim>\<open>open\<close> of the log file and of the port
  (an error, or a descriptor, for the port with the device behind it), the two servers and the two
  connections to them.
\<close>

record main_env =
  me_log :: "nat + int"
  me_tty :: "nat + int \<times> nat"
  me_srv :: bool
  me_msg :: "int option"
  me_ctl :: "int option"

definition open_log :: "main_env \<Rightarrow> unit prog" where
  "open_log e s =
     (case log_filename (opts s) of
        None \<Rightarrow> Inr ((), s)
      | Some f \<Rightarrow>
          (case me_log e of
             Inl n \<Rightarrow> (let s' = s\<lparr>os_errno := n, log_fd := -1\<rparr> in fatal (''cannot open '' @ f @ '': '' @ strerror_of s') s')
           | Inr fd \<Rightarrow> Inr ((), s\<lparr>log_fd := fd\<rparr>)))"

definition port_name :: "app \<Rightarrow> string" where
  "port_name s = (case port (opts s) of None \<Rightarrow> ''(null)'' | Some p \<Rightarrow> p)"

definition open_port :: "main_env \<Rightarrow> unit prog" where
  "open_port e s =
     (case me_tty e of
        Inl n \<Rightarrow> (let s' = s\<lparr>os_errno := n, tty_fd := -1\<rparr> in
                  fatal (''cannot open '' @ port_name s' @ '': '' @ strerror_of s') s')
      | Inr (fd, d) \<Rightarrow> Inr ((), s\<lparr>tty_fd := fd, os_fd := (os_fd s)(fd := Some d)\<rparr>))"

definition lock_port :: "unit prog" where
  "lock_port s =
     (if USE_FLOCK (os_cfg s) \<and> \<not> nolock (opts s) then
        (case syscall (\<lambda>s. s) s of
           (True, s') \<Rightarrow> Inr ((), s')
         | (False, s') \<Rightarrow> fatal (''cannot lock '' @ port_name s' @ '': '' @ strerror_of s') s')
      else Inr ((), s))"

definition add_port :: "unit prog" where
  "add_port s =
     (let o' = opts s; fd = tty_fd s in
      require ''failed to add port: ''
        (if noinit o' then term_add fd
         else term_set fd True (baud o') (parity o') (databits o') (stopbits o') (flow o') True (\<not> noreset o'))
        (\<lambda>s. s) s)"

definition config_port :: "unit prog" where
  "config_port s = require ''failed to config port: '' (term_apply (tty_fd s) False) (\<lambda>s. s) s"

definition init_write_sz :: "app \<Rightarrow> app" where
  "init_write_sz s =
     (case term_get_baudrate (tty_fd s) False s of (b, s') \<Rightarrow> s'\<lparr>tty_write_sz := set_tty_write_sz (fst b)\<rparr>)"

definition warn_mismatch :: "app \<Rightarrow> app" where
  "warn_mismatch s =
     (if \<not> quiet (opts s) \<and> \<not> noinit (opts s) then
        (case show_status True s of (m, s1) \<Rightarrow>
           if m \<noteq> 0 then
             (let s2 = pinfo ''!! Settings mismatch !!'' s1;
                  s3 = (if \<not> noescape (opts s2) then
                          pinfo ('' Type [C-'' @ [KEYC (escape (opts s2))] @ ''] [C-'' @ [KEYC KEY_STATUS] @
                                 ''] to see actual port settings'') s2
                        else s2)
              in pinfo crlf s3)
           else s1)
      else s)"

definition setup_stdin :: "unit prog" where
  "setup_stdin s =
     (if \<not> opt_exit (opts s) then
        (if isatty STI s then
           bindp (require ''failed to add I/O device: '' (term_add STI) (\<lambda>s. s)) (\<lambda>_.
           bindp (upd (\<lambda>s. snd (term_set_raw STI s))) (\<lambda>_.
           require ''failed to set I/O device to raw mode: '' (term_apply STI False) (\<lambda>s. s))) s
         else Inr ((), pinfo (''!! STDIN is not a TTY !! Continue anyway...'' @ crlf) s))
      else Inr ((), os_close STI s))"

definition alloc_queue :: "unit prog" where
  "alloc_queue s =
     (case syscall (\<lambda>s. s) s of
        (False, s') \<Rightarrow> fatal ''out of memory'' s'
      | (True, s') \<Rightarrow> Inr ((), s'\<lparr>tty_q := \<lparr>q_sz = TTY_Q_SZ_MIN, q_buff = []\<rparr>\<rparr>))"

definition prime_queue :: "unit prog" where
  "prime_queue s =
     (case initstring (opts s) of
        None \<Rightarrow> Inr ((), s)
      | Some t \<Rightarrow>
          bindp (\<lambda>s.
            if noinit (opts s) then Inr ((), pinfo (''Ignoring init-string (--noinit)'' @ crlf) s)
            else bindp (tty_q_push t) (\<lambda>k s. if k \<noteq> length t then fatal ''initstring too long!'' s else Inr ((), s)) s)
            (\<lambda>_. upd (set_opts (\<lambda>o'. o'\<lparr>initstring := None\<rparr>))) s)"

definition greet :: "app \<Rightarrow> app" where
  "greet s =
     pinfo (''Terminal ready'' @ crlf)
       (if \<not> noescape (opts s) then
          pinfo (''Type [C-'' @ [KEYC (escape (opts s))] @ ''] [C-'' @ [KEYC KEY_HELP] @
                 ''] to see available commands'' @ crlf) s
        else s)"

definition startup :: "main_env \<Rightarrow> unit prog" where
  "startup e =
     bindp (require ''term_lib_init failed: '' term_lib_init (\<lambda>s. s)) (\<lambda>_.
     bindp (open_log e) (\<lambda>_.
     bindp (open_port e) (\<lambda>_.
     bindp lock_port (\<lambda>_.
     bindp add_port (\<lambda>_.
     bindp set_dtr_rts (\<lambda>_.
     bindp config_port (\<lambda>_.
     bindp set_dtr_rts (\<lambda>_.
     bindp (upd init_write_sz) (\<lambda>_.
     bindp (upd warn_mismatch) (\<lambda>_.
     bindp setup_stdin (\<lambda>_.
     bindp alloc_queue (\<lambda>_.
     bindp prime_queue (\<lambda>_.
     upd greet)))))))))))))"

section \<open>The whole program\<close>

text \<open>The end of \<^verbatim>\<open>main\<close>; returning from it runs the exit handlers.\<close>

definition terminate :: "le_reason \<Rightarrow> app \<Rightarrow> halt" where
  "terminate ler s0 =
     (let s1 = pinfo (''Terminating...'' @ crlf) (pinfo crlf s0);
          s2 = cleanup (\<not> (ler = LE_CMD \<or> ler = LE_SIGNAL)) (noreset (opts s1)) (hangup (opts s1)) s1
      in
      if ler = LE_SIGNAL then exit_prog EXIT_FAILURE (pinfo (''Picocom was killed'' @ crlf) s2)
      else exit_prog EXIT_SUCCESS (pinfo (''Thanks for using ppcom'' @ crlf) s2))"

text \<open>\<open>Inr\<close>: the program is still in its loop when the events are used up.\<close>

definition main_prog :: "main_env \<Rightarrow> loop_event list \<Rightarrow> unit prog" where
  "main_prog e es =
     bindp (startup e) (\<lambda>_.
     bindp (main_loop (me_srv e) (me_msg e) (me_ctl e) es) (\<lambda>le s.
       case le of None \<Rightarrow> Inr ((), s) | Some ler \<Rightarrow> Inl (terminate ler s)))"

end
