(* ===== verification/Loop_Lemmas.thy ===== *)
theory Loop_Lemmas
  imports Main_Prog Cmd_Props
begin

text \<open>
  Lemmas on the main loop: what its four parts change, the port output queue as a FIFO
  (interpretation of \<open>fifo\<close>), the escape sequences as a lexer.
\<close>

section \<open>Output only\<close>

text \<open>Only output, on any descriptor, and only more of it.\<close>

definition only_out :: "app \<Rightarrow> app \<Rightarrow> bool" where
  "only_out s s' \<longleftrightarrow>
     (\<exists>f w e. s' = s\<lparr>os_out := f, os_wres := w, os_errno := e\<rparr>)"

lemma only_outI: "same_but_out fd s s' \<Longrightarrow> only_out s s'"
  unfolding same_but_out_def only_out_def by blast

lemma only_out_refl [simp]: "only_out s s"
  by (rule only_outI [OF same_but_out_refl])

lemma only_out_trans: "only_out s s1 \<Longrightarrow> only_out s1 s2 \<Longrightarrow> only_out s s2"
  unfolding only_out_def by auto blast

lemma only_out_sel:
  assumes "only_out s s'"
  shows "opts s' = opts s" "tty_q s' = tty_q s" "tty_fd s' = tty_fd s" "tbl s' = tbl s" "os_cfg s' = os_cfg s"
    "os_in s' = os_in s" "os_fd s' = os_fd s" "os_dev s' = os_dev s" "os_evs s' = os_evs s" "os_faults s' = os_faults s"
    "dtr_up s' = dtr_up s" "rts_up s' = rts_up s" "tty_write_sz s' = tty_write_sz s" "log_fd s' = log_fd s"
    "sig_exit s' = sig_exit s" "children s' = children s" "os_drv s' = os_drv s" "msg_fd s' = msg_fd s"
    "ctl_fd s' = ctl_fd s" "term_errno s' = term_errno s" "q_len s' = q_len s"
  using assms by (auto simp: only_out_def tbl_def q_len_def)

section \<open>Reading\<close>

text \<open>The bytes a script still delivers.\<close>

definition rd_bytes :: "rd list \<Rightarrow> byte list" where
  "rd_bytes rs = concat (List.map (\<lambda>r. case r of RdData bs \<Rightarrow> bs | RdErr _ \<Rightarrow> []) rs)"

lemma rd_bytes_simps [simp]:
  "rd_bytes [] = []" "rd_bytes (RdData bs # rs) = bs @ rd_bytes rs" "rd_bytes (RdErr e # rs) = rd_bytes rs"
  by (simp_all add: rd_bytes_def)

text \<open>Reading changes the script of the descriptor, and the error code.\<close>

definition read_from :: "int \<Rightarrow> app \<Rightarrow> app \<Rightarrow> bool" where
  "read_from fd s s' \<longleftrightarrow> (\<exists>r e. s' = s\<lparr>os_in := (os_in s)(fd := r), os_errno := e\<rparr>)"

lemma read_from_refl: "read_from fd s s"
  unfolding read_from_def by (intro exI [of _ "os_in s fd"] exI [of _ "os_errno s"]) simp

lemma read_from_trans: "read_from fd s s1 \<Longrightarrow> read_from fd s1 s2 \<Longrightarrow> read_from fd s s2"
  unfolding read_from_def by auto blast

lemma read_from_sel:
  assumes "read_from fd s s'"
  shows "opts s' = opts s" "tty_q s' = tty_q s" "tty_fd s' = tty_fd s" "tbl s' = tbl s" "os_cfg s' = os_cfg s"
    "os_out s' = os_out s" "os_faults s' = os_faults s" "os_evs s' = os_evs s" "os_fd s' = os_fd s" "os_dev s' = os_dev s"
    "tty_write_sz s' = tty_write_sz s" "log_fd s' = log_fd s" "sig_exit s' = sig_exit s" "msg_fd s' = msg_fd s"
    "ctl_fd s' = ctl_fd s" "g \<noteq> fd \<Longrightarrow> os_in s' g = os_in s g" "os_wres s' = os_wres s"
  using assms by (auto simp: read_from_def tbl_def)

lemma os_read_from: "read_from fd s (snd (os_read fd n s))"
proof (cases "os_in s fd")
  case Nil
  then show ?thesis by (simp add: os_read_def read_from_refl)
next
  case (Cons r rs)
  then show ?thesis
  proof (cases r)
    case (RdData bs)
    then show ?thesis using Cons
      by (auto simp: os_read_def read_from_def intro!: exI [of _ "if length bs \<le> n then rs else RdData (drop n bs) # rs"]
          exI [of _ "os_errno s"])
  qed (auto simp: os_read_def read_from_def)
qed

lemma os_read_bytes:
  "0 < n \<Longrightarrow> os_read fd n s = (r, s') \<Longrightarrow>
     rd_bytes (os_in s fd) = (case r of Inr bs \<Rightarrow> bs | Inl _ \<Rightarrow> []) @ rd_bytes (os_in s' fd)"
  by (auto simp: os_read_def split: list.splits rd.splits)

lemma read_retry_result:
  "0 < n \<Longrightarrow> read_retry fd n s = (r, s') \<Longrightarrow>
     read_from fd s s' \<and>
     rd_bytes (os_in s fd) = (case r of Inr bs \<Rightarrow> bs | Inl _ \<Rightarrow> []) @ rd_bytes (os_in s' fd)"
proof (induction fd n s arbitrary: r s' rule: read_retry.induct)
  case (1 fd n s)
  obtain r1 s1 where r1: "os_read fd n s = (r1, s1)" by fastforce
  have f: "read_from fd s s1" using os_read_from [of fd s n] r1 by simp
  note b = os_read_bytes [OF 1(2) r1]
  show ?case
  proof (cases "r1 = Inl EINTR")
    case True
    then have "read_retry fd n s1 = (r, s')" using 1(3) r1 by (subst (asm) read_retry.simps) simp
    from 1(1) [OF r1 [symmetric] refl True 1(2) this] show ?thesis
      using b True read_from_trans [OF f] by auto
  next
    case False
    then have "(r, s') = (r1, s1)" using 1(3) r1 by (subst (asm) read_retry.simps) simp
    then show ?thesis using f b by simp
  qed
qed

section \<open>The port output queue is a FIFO\<close>

definition port_enq :: "byte list \<Rightarrow> app \<Rightarrow> nat \<Rightarrow> app \<Rightarrow> bool" where
  "port_enq bs s k s' \<longleftrightarrow> tty_q_push bs s = Inr (k, s')"

text \<open>The bytes one call of \<^verbatim>\<open>write\<close> takes out of the queue.\<close>

definition port_chunk :: "app \<Rightarrow> byte list" where
  "port_chunk s =
     (let q = q_buff (tty_q s);
          sz = (if int (length q) < tty_write_sz s then int (length q) else tty_write_sz s)
      in take (nat sz) q)"

definition port_deq :: "app \<Rightarrow> nat \<Rightarrow> app \<Rightarrow> bool" where
  "port_deq s n s' \<longleftrightarrow> tty_output s = Inr ((), s') \<and> int n = fst (write_retry (tty_fd s) (port_chunk s) s)"

lemma write_log_same: "write_log bs s = Inr ((), s') \<Longrightarrow> same_but_out (log_fd s) s s'"
  using writen_same [of "log_fd s" s bs] by (auto simp: write_log_def split: prod.splits if_splits)

lemma opt_writes:
  assumes "bindp (upd (\<lambda>s. if c s then snd (writen_ni (msg_fd s) bs s) else s)) (\<lambda>_.
           bindp (\<lambda>s. if d s then write_log bs s else Inr ((), s)) k) s = Inr (r, s')"
  shows "\<exists>s2. only_out s s2 \<and> k () s2 = Inr (r, s') \<and>
           (\<forall>fd. fd \<noteq> msg_fd s \<and> fd \<noteq> log_fd s \<longrightarrow> os_out s2 fd = os_out s fd)"
proof -
  define s1 where "s1 = (if c s then snd (writen_ni (msg_fd s) bs s) else s)"
  have 1: "same_but_out (msg_fd s) s s1" by (simp add: s1_def writen_same)
  note l = same_app(8) [OF 1] same_app(14) [OF 1]
  obtain s2 where s2: "(if d s1 then write_log bs s1 else Inr ((), s1)) = Inr ((), s2)" "k () s2 = Inr (r, s')"
    using assms by (auto simp: bindp_Inr s1_def [symmetric])
  have 2: "same_but_out (log_fd s1) s1 s2"
    using s2(1) write_log_same [of bs s1 s2] by (auto split: if_splits)
  show ?thesis
    using only_out_trans [OF only_outI [OF 1] only_outI [OF 2]] s2(2) same_app(20) [OF 1] same_app(20) [OF 2] l
    by (intro exI [of _ s2]) auto
qed

lemma tty_output_result:
  assumes "tty_output s = Inr ((), s')"
  shows "\<exists>n s2. 0 < n \<and> n \<le> length (port_chunk s) \<and> port_deq s n s' \<and> only_out s s2 \<and>
           s' = s2\<lparr>tty_q := (tty_q s)\<lparr>q_buff := drop n (q_buff (tty_q s))\<rparr>\<rparr> \<and>
           (tty_fd s \<noteq> msg_fd s \<and> tty_fd s \<noteq> log_fd s \<longrightarrow>
              os_out s' (tty_fd s) = os_out s (tty_fd s) @ take n (q_buff (tty_q s)))"
proof -
  let ?q = "q_buff (tty_q s)" and ?p = "port_chunk s"
  obtain n s1 where w: "write_retry (tty_fd s) ?p s = (n, s1)" by fastforce
  have n: "0 < n" using assms w by (auto simp: tty_output_def port_chunk_def Let_def split: if_splits)
  have s1: "same_but_out (tty_fd s) s s1" using write_retry_same [of "tty_fd s" s ?p] w by simp
  note q1 = same_app(2) [OF s1]
  have wr: "n \<le> int (length ?p)" "os_out s1 (tty_fd s) = os_out s (tty_fd s) @ take (nat n) ?p"
    using write_retry_result [of "tty_fd s" ?p s] w by simp_all
  have tk: "take (nat n) ?p = take (nat n) ?q"
    using wr(1) n by (simp add: port_chunk_def Let_def min_def split: if_splits)
  have "bindp (upd (\<lambda>s. if lecho (opts s) \<and> msg_fd s > 0 then snd (writen_ni (msg_fd s) (take (nat n) ?q) s) else s)) (\<lambda>_.
        bindp (\<lambda>s. if lecho (opts s) \<and> log_filename (opts s) \<noteq> None then write_log (take (nat n) ?q) s else Inr ((), s)) (\<lambda>_.
        upd (\<lambda>s. s\<lparr>tty_q := (tty_q s)\<lparr>q_buff := drop (nat n) (q_buff (tty_q s))\<rparr>\<rparr>))) s1 = Inr ((), s')"
    using assms n w by (auto simp: tty_output_def port_chunk_def Let_def split: if_splits)
  from opt_writes [OF this] obtain s2 where s2: "only_out s1 s2"
    "s' = s2\<lparr>tty_q := (tty_q s2)\<lparr>q_buff := drop (nat n) (q_buff (tty_q s2))\<rparr>\<rparr>"
    "\<forall>fd. fd \<noteq> msg_fd s1 \<and> fd \<noteq> log_fd s1 \<longrightarrow> os_out s2 fd = os_out s1 fd"
    by (auto simp: upd_def)
  have o: "only_out s s2" using only_out_trans [OF only_outI [OF s1] s2(1)] .
  show ?thesis
    using n wr tk w assms s2 o only_out_sel(2) [OF o] same_app(14,18) [OF s1]
    by (intro exI [of _ "nat n"] exI [of _ s2]) (auto simp: port_deq_def)
qed

interpretation port_queue: fifo "\<lambda>s. q_buff (tty_q s)" "\<lambda>s. q_ok s \<and> omap (opts s) = m" port_enq port_deq
  "do_map_stages m"
proof
  fix s s' k and xs :: "byte list"
  assume "q_ok s \<and> omap (opts s) = m" "port_enq xs s k s'"
  then show "(q_ok s' \<and> omap (opts s') = m) \<and> k \<le> length xs \<and>
      q_buff (tty_q s') = q_buff (tty_q s) @ concat (List.map (do_map_stages m) (take k xs))"
    using push_result [of s xs k s'] pushed_sel(1) [of s s'] by (auto simp: port_enq_def)
next
  fix s s' n
  assume a: "q_ok s \<and> omap (opts s) = m" "port_deq s n s'"
  then obtain k s2 where k: "port_deq s k s'" "k \<le> length (port_chunk s)" "only_out s s2"
    "s' = s2\<lparr>tty_q := (tty_q s)\<lparr>q_buff := drop k (q_buff (tty_q s))\<rparr>\<rparr>"
    using tty_output_result [of s s'] by (auto simp: port_deq_def)
  then have "k = n" using a(2) by (simp add: port_deq_def)
  moreover have "length (port_chunk s) \<le> length (q_buff (tty_q s))" by (simp add: port_chunk_def Let_def)
  ultimately show "(q_ok s' \<and> omap (opts s') = m) \<and> n \<le> length (q_buff (tty_q s)) \<and>
      q_buff (tty_q s') = drop n (q_buff (tty_q s))"
    using a(1) k only_out_sel(1,5) [OF k(3)] by (auto simp: q_ok_def q_len_def)
qed

section \<open>The escape sequences as a lexer\<close>

datatype key_act = Push byte | Cmd byte

fun lex_keys :: "byte \<Rightarrow> bool \<Rightarrow> cmd_state \<Rightarrow> byte list \<Rightarrow> key_act list \<times> cmd_state" where
  "lex_keys esc noesc st [] = ([], st)"
| "lex_keys esc noesc ST_TRANSPARENT (c # cs) =
     (if \<not> noesc \<and> c = esc then lex_keys esc noesc ST_COMMAND cs
      else case lex_keys esc noesc ST_TRANSPARENT cs of (as, st) \<Rightarrow> (Push c # as, st))"
| "lex_keys esc noesc ST_COMMAND (c # cs) =
     (case lex_keys esc noesc ST_TRANSPARENT cs of (as, st) \<Rightarrow> ((if c = esc then Push c else Cmd c) # as, st))"

lemma lex_keys_append:
  "lex_keys esc noesc st (a @ b) =
     (case lex_keys esc noesc st a of (x, st1) \<Rightarrow>
        case lex_keys esc noesc st1 b of (y, st2) \<Rightarrow> (x @ y, st2))"
  by (induction esc noesc st a rule: lex_keys.induct) (auto split: prod.splits)

text \<open>A stream in which every escape character is doubled is passed on as it was.\<close>

definition double_escape :: "byte \<Rightarrow> byte list \<Rightarrow> byte list" where
  "double_escape esc bs = concat (List.map (\<lambda>c. if c = esc then [c, c] else [c]) bs)"

lemma lex_double_escape:
  "lex_keys esc noesc ST_TRANSPARENT (double_escape esc bs) =
     (List.map Push (if noesc then double_escape esc bs else bs), ST_TRANSPARENT)"
  by (induction bs) (auto simp: double_escape_def)

definition push_prog :: "byte \<Rightarrow> unit prog" where
  "push_prog c = bindp (tty_q_push [c]) bell_unless"

text \<open>Carrying the actions out, up to the first command that ends the program.\<close>

fun run_acts :: "key_act list \<Rightarrow> bool prog" where
  "run_acts [] = ret False"
| "run_acts (Push c # as) = bindp (push_prog c) (\<lambda>_. run_acts as)"
| "run_acts (Cmd c # as) = bindp (do_command c) (\<lambda>q. if q then ret True else run_acts as)"

subsection \<open>No command changes the escape character\<close>

lemma app_more:
  fixes s :: app
  assumes "os.more s' = os.more s"
  shows "opts s' = opts s"
  using assms by (cases s; cases s') simp

lemma os_write_more [simp]: "os.more (snd (os_write fd bs s)) = os.more s"
  by (simp add: os_write_def Let_def split: list.split)

lemma os_read_more [simp]: "os.more (snd (os_read fd n s)) = os.more s"
  by (simp add: os_read_def split: list.split rd.split)

lemma readline_key_more [simp]: "os.more (snd (readline_key fdo cap c b s)) = os.more s"
  by (simp add: readline_key_def cput_def cdel_def xput_def xdel_def Let_def)

lemma readline_loop_more: "os.more (snd (readline_loop fdi fdo cap b s)) = os.more s"
proof (induction fdi fdo cap b s rule: readline_loop.induct)
  case (1 fdi fdo cap b s)
  obtain r s1 where r: "os_read fdi 1 s = (r, s1)" by fastforce
  have m: "os.more s1 = os.more s" by (metis os_read_more r snd_conv)
  show ?case
  proof (cases r)
    case (Inl e)
    then show ?thesis using m by (subst readline_loop.simps) (simp add: r del: One_nat_def)
  next
    case (Inr cs)
    show ?thesis
    proof (cases cs)
      case Nil
      then show ?thesis using m Inr by (subst readline_loop.simps) (simp add: r del: One_nat_def)
    next
      case (Cons c rest)
      obtain k s2 where k: "readline_key fdo cap c b s1 = (k, s2)" by fastforce
      have m2: "os.more s2 = os.more s" by (metis readline_key_more k m snd_conv)
      show ?thesis
      proof (cases k)
        case (Inl b')
        show ?thesis using 1 [OF r [symmetric] Inr Cons k [symmetric] Inl] m2 k Inr Cons Inl
          by (subst readline_loop.simps) (simp add: r del: One_nat_def)
      next
        case (Inr q)
        then show ?thesis using m2 k \<open>r = Inr cs\<close> Cons by (subst readline_loop.simps) (simp add: r del: One_nat_def)
      qed
    qed
  qed
qed

lemma readline_opts [simp]: fixes s :: app shows "opts (snd (fd_readline fdi fdo n s)) = opts s"
  by (rule app_more) (simp add: fd_readline_def readline_loop_more)

lemmas term_opts [simp] =
  aside_ops [THEN aside_app(1)] aside_set [THEN aside_app(1)] aside_get [THEN aside_app(1)]

lemma read_baud_opts: "opts (snd (read_baud s)) = opts s"
proof (induction s rule: read_baud.induct)
  case (1 s)
  obtain r s1 where r: "fd_readline STI STO 9 (say STO (crlf @ ''*** baud: '') s) = (r, s1)" by fastforce
  have o: "opts s1 = opts s" by (metis readline_opts r snd_conv say_sel(1))
  show ?case
  proof (cases r)
    case None
    then show ?thesis using o unfolding read_baud.simps [of s] r by simp
  next
    case (Some l)
    then show ?thesis using o 1 [OF r [symmetric] Some refl]
      unfolding read_baud.simps [of s] r by (simp add: Let_def case_prod_unfold)
  qed
qed

lemma read_hex_opts: "opts (snd (read_hex sz s)) = opts s"
proof (induction sz s rule: read_hex.induct)
  case (1 sz s)
  obtain r s1 where r: "fd_readline STI STO 256 (say STO (crlf @ ''*** hex: '') s) = (r, s1)" by fastforce
  have o: "opts s1 = opts s" by (metis readline_opts r snd_conv say_sel(1))
  show ?case
  proof (cases r)
    case None
    then show ?thesis using o unfolding read_hex.simps [of sz s] r by simp
  next
    case (Some l)
    then show ?thesis using o 1 [OF r [symmetric] Some refl]
      unfolding read_hex.simps [of sz s] r by (simp add: Let_def split: option.split)
  qed
qed

lemma read_filename_opts [simp]: "opts (snd (read_filename s)) = opts s"
  by (simp add: read_filename_def case_prod_unfold)

lemma apply_setting_opts:
  assumes "\<And>s. opts (snd (f s)) = opts s" "\<And>s. opts (snd (g s)) = opts s"
  shows "opts (snd (apply_setting f g s)) = opts s"
  by (simp add: apply_setting_def Let_def assms)

lemma report_opts [simp]: "opts (report_setting n b x y s) = opts s"
  by (simp add: report_setting_def)

text \<open>The options a command never touches.\<close>

definition esc_same :: "app \<Rightarrow> app \<Rightarrow> bool" where
  "esc_same s s' \<longleftrightarrow> escape (opts s') = escape (opts s) \<and> noescape (opts s') = noescape (opts s)"

lemma esc_same_opts: "opts s' = opts s \<Longrightarrow> esc_same s s'"
  by (simp add: esc_same_def)

lemma esc_same_trans: "esc_same s s1 \<Longrightarrow> esc_same s1 s2 \<Longrightarrow> esc_same s s2"
  by (simp add: esc_same_def)

lemma cmd_setting_esc:
  "esc_same s (cmd_flow s)" "esc_same s (cmd_parity s)" "esc_same s (cmd_bits s)" "esc_same s (cmd_stop s)"
  by (simp_all add: esc_same_def cmd_flow_def cmd_parity_def cmd_bits_def cmd_stop_def Let_def case_prod_unfold
      apply_setting_opts)

lemma cmd_baud_esc: "esc_same s (cmd_baud c s)"
  by (simp add: esc_same_def cmd_baud_def Let_def case_prod_unfold apply_setting_opts read_baud_opts)

lemma cmd_line_esc: "esc_same s (cmd_pulse s)" "esc_same s (cmd_tog_dtr s)" "esc_same s (cmd_tog_rts s)"
  "esc_same s (cmd_lecho s)" "esc_same s (cmd_break s)"
  by (simp_all add: esc_same_def cmd_pulse_def cmd_tog_dtr_def cmd_tog_rts_def cmd_lecho_def cmd_break_def Let_def
      case_prod_unfold)

lemma syscall_opts: "syscall f s = (b, s') \<Longrightarrow> (\<And>s. opts (f s) = opts s) \<Longrightarrow> opts (s' :: app) = opts s"
  by (auto simp: syscall_def split: list.splits if_splits)

lemma run_cmd_opts: "opts (snd (run_cmd fd cmd extra s)) = opts s"
proof -
  obtain b s1 where b: "syscall (\<lambda>s. s) s = (b, s1)" by fastforce
  have o: "opts s1 = opts s" using syscall_opts [OF b] by simp
  have ch: "opts (snd (child_status e (after_child c s1))) = opts s1" for e c
    by (simp add: child_status_def split: child_end.split list.split)
  show ?thesis
    using o by (cases b) (simp_all add: run_cmd_def b Let_def case_prod_unfold ch split: wait_status.split)
qed

lemma cmd_xfer_esc: "esc_same s (cmd_xfer c s)"
proof -
  obtain r s1 where r: "read_filename s = (r, s1)" by fastforce
  then have "opts s1 = opts s" by (metis read_filename_opts snd_conv)
  then show ?thesis
    by (simp add: esc_same_def cmd_xfer_def r run_cmd_opts Let_def split: option.split)
qed

lemma stat_opts [simp]: "opts (statpf qt t s) = opts s" "opts (snd (stat_line qt nm b x y r)) = opts (snd r)"
  by (simp_all add: stat_line_def case_prod_unfold statpf_def)

lemma show_status_opts: "opts (snd (show_status qt s)) = opts s"
  by (simp add: show_status_def Let_def case_prod_unfold split: option.split)

lemma show_keys_opts: "opts (show_keys s) = opts s"
proof -
  have "opts (fold (\<lambda>(k, t). say STO (f k t)) ks s0) = opts s0"
    for f :: "byte \<Rightarrow> string \<Rightarrow> string" and ks and s0 :: app
    by (induction ks arbitrary: s0) auto
  then show ?thesis by (simp add: show_keys_def Let_def)
qed

lemma q_grow_opts: "q_grow s = Inr (b, s') \<Longrightarrow> opts s' = opts s"
proof (induction s rule: q_grow.induct)
  case (1 s)
  show ?case
  proof (cases "q_len s + M_MAXMAP > q_sz (tty_q s)")
    case True
    then show ?thesis
      using 1 by (subst (asm) q_grow.simps) (auto simp: Let_def dest!: syscall_opts split: if_splits prod.splits bool.splits)
  next
    case False
    then show ?thesis using 1(2) by (subst (asm) q_grow.simps) simp
  qed
qed

lemma push_loop_opts: "tty_q_push_loop bs i s = Inr (k, s') \<Longrightarrow> opts s' = opts s"
proof (induction bs arbitrary: i s)
  case (Cons c cs)
  obtain room s1 where g: "q_grow s = Inr (room, s1)" using Cons.prems by (auto simp: bindp_Inr)
  have o: "opts s1 = opts s" by (rule q_grow_opts [OF g])
  show ?case
  proof (cases room)
    case False
    then show ?thesis using Cons.prems g o by (auto simp: bindp_def)
  next
    case True
    let ?s2 = "s1\<lparr>tty_q := (tty_q s1)\<lparr>q_buff := q_buff (tty_q s1) @ do_map_stages (omap (opts s1)) c\<rparr>\<rparr>"
    obtain s3 where s3: "(if lecho (opts ?s2) then map_and_write STO (emap (opts ?s2)) c ?s2 else Inr ((), ?s2)) = Inr ((), s3)"
      "tty_q_push_loop cs (i + 1) s3 = Inr (k, s')"
      using Cons.prems g True by (auto simp: bindp_Inr do_map_prog_Inr)
    have "opts s3 = opts ?s2"
      using s3(1) same_app(1) [OF map_and_write_same [of STO "emap (opts ?s2)" c ?s2 s3]] by (auto split: if_splits)
    then show ?thesis using Cons.IH [OF s3(2)] o by simp
  qed
qed simp

lemma push_opts: "tty_q_push bs s = Inr (k, s') \<Longrightarrow> opts s' = opts s"
  unfolding tty_q_push_def by (rule push_loop_opts)

lemma cmd_hex_esc: "cmd_hex s = Inr (u, s') \<Longrightarrow> esc_same s s'"
  using read_hex_opts [of HEXBUF_SZ s]
  by (auto simp: cmd_hex_def bindp_Inr upd_def esc_same_def case_prod_unfold dest!: push_opts split: if_splits)

lemma do_command_esc: "do_command c s = Inr (q, s') \<Longrightarrow> esc_same s s'"
  using cmd_setting_esc [of s] cmd_baud_esc [of s c] cmd_line_esc [of s] cmd_xfer_esc [of s c] cmd_hex_esc [of s]
    esc_same_opts [OF show_keys_opts [of s]] esc_same_opts [OF show_status_opts [of False s]] esc_same_opts [of s s]
  unfolding do_command_def
  by (auto simp: bindp_Inr esc_same_def [of s "set_opts _ _"] split: if_splits)

lemma push_prog_opts: "push_prog c s = Inr (u, s') \<Longrightarrow> opts s' = opts s"
  by (auto simp: push_prog_def bindp_Inr bell_unless_def upd_def dest!: push_opts split: if_splits)

text \<open>Reading keys is lexing them and carrying the actions out.\<close>

lemma bindp_assoc: "bindp (bindp m f) g s = bindp m (\<lambda>x. bindp (f x) g) s"
  by (simp add: bindp_def split: sum.split prod.split)

lemma bindp_cong:
  assumes "\<And>x s'. m s = Inr (x, s') \<Longrightarrow> f x s' = g x s'"
  shows "bindp m f s = bindp m g s"
  using assms by (simp add: bindp_def split: sum.split prod.split)

lemma sti_chars_lex:
  "sti_chars bs st s =
     bindp (run_acts (fst (lex_keys (escape (opts s)) (noescape (opts s)) st bs)))
       (\<lambda>q. ret (q, if q then ST_TRANSPARENT else snd (lex_keys (escape (opts s)) (noescape (opts s)) st bs))) s"
proof (induction bs arbitrary: st s)
  case (Cons c cs)
  let ?e = "escape (opts s)" and ?n = "noescape (opts s)"
  let ?k = "\<lambda>st. bindp (run_acts (fst (lex_keys ?e ?n st cs))) (\<lambda>q. ret (q, if q then ST_TRANSPARENT else snd (lex_keys ?e ?n st cs)))"
  have ih: "sti_chars cs st s' = ?k st s'" if "esc_same s s'" for st s'
  proof -
    have e: "escape (opts s') = ?e" "noescape (opts s') = ?n" using that by (simp_all add: esc_same_def)
    show ?thesis using Cons.IH [of st s'] unfolding e .
  qed
  have push: "bindp (bindp (tty_q_push [c]) (\<lambda>k. bindp (bell_unless k) (\<lambda>_. ret (False, st')))) (\<lambda>(q, st'). if q then ret (True, st') else sti_chars cs st') s =
      bindp (push_prog c) (\<lambda>_. ?k st') s" for st'
  proof -
    have "bindp (bindp (tty_q_push [c]) (\<lambda>k. bindp (bell_unless k) (\<lambda>_. ret (False, st')))) (\<lambda>(q, st'). if q then ret (True, st') else sti_chars cs st') s =
        bindp (push_prog c) (\<lambda>_. sti_chars cs st') s"
      by (simp add: push_prog_def bindp_def ret_def split: sum.split prod.split)
    also have "\<dots> = bindp (push_prog c) (\<lambda>_. ?k st') s"
      by (rule bindp_cong) (simp add: ih esc_same_opts push_prog_opts)
    finally show ?thesis .
  qed
  have cmd: "bindp (bindp (do_command c) (\<lambda>q. ret (q, ST_TRANSPARENT))) (\<lambda>(q, st'). if q then ret (True, st') else sti_chars cs st') s =
      bindp (do_command c) (\<lambda>q. if q then ret (True, ST_TRANSPARENT) else ?k ST_TRANSPARENT) s"
  proof -
    have "bindp (bindp (do_command c) (\<lambda>q. ret (q, ST_TRANSPARENT))) (\<lambda>(q, st'). if q then ret (True, st') else sti_chars cs st') s =
        bindp (do_command c) (\<lambda>q. if q then ret (True, ST_TRANSPARENT) else sti_chars cs ST_TRANSPARENT) s"
      by (simp add: bindp_def ret_def split: sum.split prod.split)
    also have "\<dots> = bindp (do_command c) (\<lambda>q. if q then ret (True, ST_TRANSPARENT) else ?k ST_TRANSPARENT) s"
      by (rule bindp_cong) (auto simp: ih do_command_esc)
    finally show ?thesis .
  qed
  obtain as st1 where l: "lex_keys ?e ?n ST_TRANSPARENT cs = (as, st1)" by fastforce
  have P: "bindp (push_prog c) (\<lambda>_. ?k ST_TRANSPARENT) s =
      bindp (run_acts (Push c # as)) (\<lambda>q. ret (q, if q then ST_TRANSPARENT else st1)) s"
    unfolding l fst_conv snd_conv run_acts.simps bindp_assoc ..
  have C: "bindp (do_command c) (\<lambda>q. if q then ret (True, ST_TRANSPARENT) else ?k ST_TRANSPARENT) s =
      bindp (run_acts (Cmd c # as)) (\<lambda>q. ret (q, if q then ST_TRANSPARENT else st1)) s"
    unfolding l fst_conv snd_conv run_acts.simps bindp_assoc by (rule bindp_cong) (simp add: bindp_def ret_def)
  have m: "sti_chars (c # cs) st s = bindp f (\<lambda>(q, st'). if q then ret (True, st') else sti_chars cs st') s"
    if "sti_char c st s = f s" for f
    using that by (simp add: bindp_def)
  show ?case
  proof (cases st)
    case ST_COMMAND
    show ?thesis
    proof (cases "c = ?e")
      case True
      have "sti_chars (c # cs) st s = bindp (push_prog c) (\<lambda>_. ?k ST_TRANSPARENT) s"
        unfolding push [symmetric] by (rule m) (use True ST_COMMAND in \<open>simp add: sti_char_def\<close>)
      then show ?thesis unfolding P using True ST_COMMAND l by (simp cong: if_cong)
    next
      case False
      have "sti_chars (c # cs) st s = bindp (do_command c) (\<lambda>q. if q then ret (True, ST_TRANSPARENT) else ?k ST_TRANSPARENT) s"
        unfolding cmd [symmetric] by (rule m) (use False ST_COMMAND in \<open>simp add: sti_char_def\<close>)
      then show ?thesis unfolding C using False ST_COMMAND l by (simp cong: if_cong)
    qed
  next
    case ST_TRANSPARENT
    show ?thesis
    proof (cases "\<not> ?n \<and> c = ?e")
      case True
      have "sti_chars (c # cs) st s = sti_chars cs ST_COMMAND s"
        using True ST_TRANSPARENT by (simp add: sti_char_def bindp_def)
      then show ?thesis using ih [OF esc_same_opts [OF refl], of ST_COMMAND] True ST_TRANSPARENT
        by (simp cong: if_cong)
    next
      case False
      have "sti_chars (c # cs) st s = bindp (push_prog c) (\<lambda>_. ?k ST_TRANSPARENT) s"
        unfolding push [symmetric] by (rule m) (use False ST_TRANSPARENT in \<open>auto simp: sti_char_def\<close>)
      moreover have "lex_keys ?e ?n st (c # cs) = (Push c # as, st1)"
        using False ST_TRANSPARENT l by auto
      ultimately show ?thesis unfolding P by (simp del: lex_keys.simps run_acts.simps cong: if_cong)
    qed
  qed
qed (simp add: bindp_def ret_def)

end
