(* ===== verification/Loop_Props.thy ===== *)
theory Loop_Props
  imports Loop_Lemmas
begin

text \<open>
  The properties of the main loop: what the user types reaches the port, the whole of it and in
  order; what the port sends reaches the user; the escape sequences; the end of the loop.
\<close>

section \<open>What one pass moves\<close>

text \<open>The parts of the state the loop itself, without commands, never changes.\<close>

definition loop_frame :: "app \<Rightarrow> app \<Rightarrow> bool" where
  "loop_frame s s' \<longleftrightarrow>
     opts s' = opts s \<and> tty_fd s' = tty_fd s \<and> log_fd s' = log_fd s \<and> msg_fd s' = msg_fd s \<and>
     ctl_fd s' = ctl_fd s \<and> os_cfg s' = os_cfg s \<and> tty_write_sz s' = tty_write_sz s \<and>
     (os_faults s = [] \<longrightarrow> os_faults s' = [])"

lemma loop_frame_refl [simp]: "loop_frame s s"
  by (simp add: loop_frame_def)

lemma loop_frame_trans: "loop_frame s s1 \<Longrightarrow> loop_frame s1 s2 \<Longrightarrow> loop_frame s s2"
  by (simp add: loop_frame_def)

definition port_run :: "app \<Rightarrow> byte list \<Rightarrow> byte list \<Rightarrow> app \<Rightarrow> bool" where
  "port_run s acc sent s' \<longleftrightarrow>
     queue_run (\<lambda>t. q_ok t \<and> omap (opts t) = omap (opts s)) port_enq port_deq (\<lambda>t. q_buff (tty_q t)) s acc sent s'"

text \<open>
  Between \<open>s\<close> and \<open>s'\<close> the bytes \<open>c\<close> were read from the user, those in \<open>acc\<close> were taken into the
  queue and \<open>sent\<close> went to the port.
\<close>

definition moved :: "byte list \<Rightarrow> byte list \<Rightarrow> byte list \<Rightarrow> app \<Rightarrow> app \<Rightarrow> bool" where
  "moved c acc sent s s' \<longleftrightarrow>
     loop_frame s s' \<and> port_run s acc sent s' \<and>
     rd_bytes (os_in s STI) = c @ rd_bytes (os_in s' STI) \<and>
     os_out s' (tty_fd s) = os_out s (tty_fd s) @ sent"

lemma moved_refl: "moved [] [] [] s s"
  by (simp add: moved_def port_run_def queue_run.qr_start)

lemma moved_trans:
  assumes "moved c acc sent s s1" "moved c' acc' sent' s1 s2"
  shows "moved (c @ c') (acc @ acc') (sent @ sent') s s2"
proof -
  have "opts s1 = opts s" "tty_fd s1 = tty_fd s" using assms(1) by (simp_all add: moved_def loop_frame_def)
  then show ?thesis
    using assms queue_run_trans [of "\<lambda>t. q_ok t \<and> omap (opts t) = omap (opts s)" port_enq port_deq "\<lambda>t. q_buff (tty_q t)"
        s acc sent s1 acc' sent' s2]
    by (auto simp: moved_def port_run_def intro: loop_frame_trans)
qed

text \<open>A change that is not about the queue, the input of the user or the output to the port.\<close>

lemma moved_skip:
  assumes "loop_frame s s'" "tty_q s' = tty_q s" "rd_bytes (os_in s STI) = c @ rd_bytes (os_in s' STI)"
    "os_out s' (tty_fd s) = os_out s (tty_fd s)"
  shows "moved c [] [] s s'"
proof -
  have "q_ok s' = q_ok s" using assms(1,2) by (simp add: q_ok_def q_len_def loop_frame_def)
  then have "port_run s [] [] s'"
    unfolding port_run_def using assms(1,2)
    by (intro queue_run.qr_skip [OF queue_run.qr_start]) (auto simp: loop_frame_def)
  then show ?thesis using assms by (simp add: moved_def)
qed

lemma moved_out: "only_out s s' \<Longrightarrow> os_out s' (tty_fd s) = os_out s (tty_fd s) \<Longrightarrow> moved [] [] [] s s'"
  by (rule moved_skip) (auto simp: loop_frame_def only_out_sel)

lemma moved_push:
  assumes "q_ok s" "tty_q_push bs s = Inr (k, s')" "tty_fd s \<noteq> STO"
  shows "moved [] (take k bs) [] s s'"
proof -
  note p = push_result [OF assms(1,2)]
  note ps = pushed_sel [OF p(2)]
  have "port_run s ([] @ take k bs) [] s'" unfolding port_run_def
    by (rule queue_run.qr_enq [OF queue_run.qr_start]) (use assms(2) in \<open>simp add: port_enq_def\<close>)
  moreover have "loop_frame s s'" using ps push_faults [OF assms(2)] by (simp add: loop_frame_def)
  ultimately show ?thesis using ps assms(3) by (simp add: moved_def)
qed

lemma port_run_ok:
  "port_run s acc sent s' \<Longrightarrow> q_ok s \<Longrightarrow>
     q_ok s' \<and> sent @ q_buff (tty_q s') = q_buff (tty_q s) @ concat (List.map (do_map_stages (omap (opts s))) acc)"
  unfolding port_run_def using port_queue.conservation [of "omap (opts s)" s acc sent s'] by auto

lemma moved_ok: "moved c acc sent s s' \<Longrightarrow> q_ok s \<Longrightarrow> q_ok s'"
  using port_run_ok by (auto simp: moved_def)

text \<open>With no limit on the queue and memory available nothing is refused.\<close>

definition unlimited :: "app \<Rightarrow> bool" where
  "unlimited s \<longleftrightarrow> TTY_Q_SZ (os_cfg s) = 0 \<and> os_faults s = []"

lemma moved_unlimited: "moved c acc sent s s' \<Longrightarrow> unlimited s \<Longrightarrow> unlimited s'"
  by (simp add: moved_def loop_frame_def unlimited_def)

section \<open>Each part of a pass\<close>

lemma bell_unless_same: "bell_unless k s = Inr ((), s') \<Longrightarrow> same_but_out STO s s'"
  by (auto simp: bell_unless_def upd_def say_same split: if_splits)

lemma push_prog_moved:
  assumes "q_ok s" "push_prog c s = Inr (u, s')" "tty_fd s \<noteq> STO"
  shows "\<exists>acc. moved [] acc [] s s' \<and> subseq acc [c] \<and> (unlimited s \<longrightarrow> acc = [c])"
proof -
  obtain k s1 where p: "tty_q_push [c] s = Inr (k, s1)" "bell_unless k s1 = Inr ((), s')"
    using assms(2) by (auto simp: push_prog_def bindp_Inr)
  have m1: "moved [] (take k [c]) [] s s1" by (rule moved_push [OF assms(1) p(1) assms(3)])
  have b: "same_but_out STO s1 s'" by (rule bell_unless_same [OF p(2)])
  have t1: "tty_fd s1 = tty_fd s" using m1 by (simp add: moved_def loop_frame_def)
  have "moved [] [] [] s1 s'"
    using only_outI [OF b] same_app(20) [OF b, of "tty_fd s1"] assms(3) t1 by (intro moved_out) auto
  with m1 have m: "moved [] (take k [c]) [] s s'" using moved_trans [of "[]" "take k [c]" "[]" s s1 "[]" "[]" "[]" s'] by simp
  have "unlimited s \<Longrightarrow> k = 1"
    using push_result(1,5) [OF assms(1) p(1)] by (cases "k < length [c]") (auto simp: unlimited_def)
  then show ?thesis using m by (intro exI [of _ "take k [c]"]) (auto simp: take_Cons' subseq_Cons')
qed

lemma push_acts_moved:
  "q_ok s \<Longrightarrow> tty_fd s \<noteq> STO \<Longrightarrow> run_acts (List.map Push ps) s = Inr (q, s') \<Longrightarrow>
     \<not> q \<and> (\<exists>acc. moved [] acc [] s s' \<and> subseq acc ps \<and> (unlimited s \<longrightarrow> acc = ps))"
proof (induction ps arbitrary: s)
  case Nil
  then show ?case using moved_refl [of s] by (auto intro: exI [of _ "[]"])
next
  case (Cons c ps)
  obtain u s1 where s1: "push_prog c s = Inr (u, s1)" "run_acts (List.map Push ps) s1 = Inr (q, s')"
    using Cons.prems(3) by (auto simp: bindp_Inr)
  obtain a where a: "moved [] a [] s s1" "subseq a [c]" "unlimited s \<longrightarrow> a = [c]"
    using push_prog_moved [OF Cons.prems(1) s1(1) Cons.prems(2)] by blast
  have "tty_fd s1 \<noteq> STO" using a(1) Cons.prems(2) by (simp add: moved_def loop_frame_def)
  from Cons.IH [OF moved_ok [OF a(1) Cons.prems(1)] this s1(2)] obtain b where
    b: "\<not> q" "moved [] b [] s1 s'" "subseq b ps" "unlimited s1 \<longrightarrow> b = ps" by blast
  have "moved [] (a @ b) [] s s'" using moved_trans [OF a(1) b(2)] by simp
  moreover have "subseq (a @ b) (c # ps)" using list_emb_append_mono [OF a(2) b(3)] by simp
  moreover have "unlimited s \<longrightarrow> a @ b = c # ps" using a b(4) moved_unlimited [OF a(1)] by simp
  ultimately show ?case using b(1) by blast
qed

text \<open>What the descriptors of the loop have to be told apart for.\<close>

definition port_apart :: "app \<Rightarrow> bool" where
  "port_apart s \<longleftrightarrow> tty_fd s \<notin> {STI, STO, log_fd s, msg_fd s} \<and> 0 \<le> ctl_fd s"

lemma port_apart_frame: "loop_frame s s' \<Longrightarrow> port_apart s' = port_apart s"
  by (simp add: port_apart_def loop_frame_def)

lemma read_moved:
  assumes "read_from fd s s'" "fd \<noteq> STI \<Longrightarrow> c = []" "fd = STI \<Longrightarrow> rd_bytes (os_in s STI) = c @ rd_bytes (os_in s' STI)"
  shows "moved c [] [] s s'"
proof (rule moved_skip)
  show "loop_frame s s'" using read_from_sel [OF assms(1)] by (simp add: loop_frame_def)
  show "tty_q s' = tty_q s" "os_out s' (tty_fd s) = os_out s (tty_fd s)" using read_from_sel [OF assms(1)] by simp_all
  show "rd_bytes (os_in s STI) = c @ rd_bytes (os_in s' STI)"
    using assms(2,3) read_from_sel(16) [OF assms(1), of STI] by (cases "fd = STI") auto
qed

lemma map_Push_append:
  "List.map Push ps = as @ bs \<Longrightarrow> \<exists>p1 p2. ps = p1 @ p2 \<and> as = List.map Push p1 \<and> bs = List.map Push p2"
  by (metis map_eq_append_conv)

text \<open>
  The keys the user types (\<open>c\<close>, as read) are lexed; \<open>p\<close>, the characters that go to the queue, are
  taken in (\<open>acc\<close>) as far as there is room.
\<close>

definition keyed :: "app \<Rightarrow> loop_vars \<Rightarrow> byte list \<Rightarrow> byte list \<Rightarrow> byte list \<Rightarrow> loop_vars \<Rightarrow> bool" where
  "keyed s lp c p acc lp' \<longleftrightarrow>
     lex_keys (escape (opts s)) (noescape (opts s)) (lp_state lp) c = (List.map Push p, lp_state lp') \<and>
     subseq acc p \<and> (unlimited s \<longrightarrow> acc = p)"

lemma keyed_nothing: "lp_state lp' = lp_state lp \<Longrightarrow> keyed s lp [] [] [] lp'"
  by (simp add: keyed_def)

lemma keyed_trans:
  assumes "keyed s lp c p acc lp1" "keyed s1 lp1 c' p' acc' lp'" "opts s1 = opts s" "unlimited s \<Longrightarrow> unlimited s1"
  shows "keyed s lp (c @ c') (p @ p') (acc @ acc') lp'"
  using assms list_emb_append_mono [of "(=)" acc p acc' p'] by (auto simp: keyed_def lex_keys_append)

text \<open>All that is still to be read holds no command.\<close>

definition no_commands :: "app \<Rightarrow> loop_vars \<Rightarrow> bool" where
  "no_commands s lp \<longleftrightarrow>
     (\<exists>ps. fst (lex_keys (escape (opts s)) (noescape (opts s)) (lp_state lp) (rd_bytes (os_in s STI))) = List.map Push ps)"

lemma no_commands_split:
  assumes "no_commands s lp" "rd_bytes (os_in s STI) = c @ r"
  shows "\<exists>p st. lex_keys (escape (opts s)) (noescape (opts s)) (lp_state lp) c = (List.map Push p, st) \<and>
           (\<exists>ps. fst (lex_keys (escape (opts s)) (noescape (opts s)) st r) = List.map Push ps)"
  using assms by (auto simp: no_commands_def lex_keys_append split: prod.splits dest!: map_Push_append [OF sym])

lemma no_commands_step:
  assumes "no_commands s lp" "moved c acc sent s s'" "keyed s lp c p acc lp'"
  shows "no_commands s' lp'"
  using assms no_commands_split [OF assms(1), of c "rd_bytes (os_in s' STI)"]
  by (auto simp: moved_def keyed_def loop_frame_def no_commands_def)

lemma sti_input_moved:
  assumes "q_ok s" "port_apart s" "no_commands s lp" "sti_input lp s = Inr ((q, lp'), s')"
  shows "\<not> q \<and> (\<exists>c p acc. moved c acc [] s s' \<and> keyed s lp c p acc lp')"
proof -
  obtain r s1 where r: "read_retry STI STI_RD_SZ s = (r, s1)" by fastforce
  note rr = read_retry_result [OF _ r]
  have f: "read_from STI s s1" "rd_bytes (os_in s STI) = (case r of Inr bs \<Rightarrow> bs | Inl _ \<Rightarrow> []) @ rd_bytes (os_in s1 STI)"
    using rr by (simp_all add: STI_RD_SZ_def)
  have m: "moved (case r of Inr bs \<Rightarrow> bs | Inl _ \<Rightarrow> []) [] [] s s1"
    by (rule read_moved [OF f(1)]) (use f(2) in simp_all)
  show ?thesis
  proof (cases r)
    case (Inl e)
    then have "s' = s1" "lp' = lp" "\<not> q" using assms(4) r by (auto simp: sti_input_def split: if_splits)
    then show ?thesis using m Inl keyed_nothing [of lp lp s] by auto
  next
    case (Inr bs)
    show ?thesis
    proof (cases bs)
      case Nil
      then have e: "s' = pinfo (crlf @ ''** read zero bytes from stdin **'' @ crlf) s1" "lp' = lp\<lparr>stdin_closed := True\<rparr>" "\<not> q"
        using assms(4) r Inr by (auto simp: sti_input_def)
      have "moved [] [] [] s1 s'"
      proof (rule moved_out)
        show "only_out s1 s'" unfolding e by (rule only_outI [OF pinfo_same])
        show "os_out s' (tty_fd s1) = os_out s1 (tty_fd s1)"
          using assms(2) read_from_sel(3) [OF f(1)] unfolding e by (simp add: port_apart_def)
      qed
      from moved_trans [OF m this] have "moved [] [] [] s s'" using Inr Nil by simp
      moreover have "keyed s lp [] [] [] lp'" using e(2) by (simp add: keyed_def)
      ultimately show ?thesis using e(3) by blast
    next
      case (Cons b bs')
      let ?e = "escape (opts s)" and ?n = "noescape (opts s)"
      have o1: "opts s1 = opts s" "tty_fd s1 = tty_fd s" using read_from_sel [OF f(1)] by simp_all
      obtain p st where p: "lex_keys ?e ?n (lp_state lp) bs = (List.map Push p, st)"
        using no_commands_split [OF assms(3), of bs] f(2) Inr by auto
      obtain q1 st1 where s1: "sti_chars bs (lp_state lp) s1 = Inr ((q1, st1), s')" "q = q1" "lp' = lp\<lparr>lp_state := st1\<rparr>"
        using assms(4) r Inr Cons by (auto simp: sti_input_def bindp_Inr)
      have acts: "bindp (run_acts (List.map Push p)) (\<lambda>q. ret (q, if q then ST_TRANSPARENT else st)) s1 = Inr ((q1, st1), s')"
        using s1(1) unfolding sti_chars_lex o1 p fst_conv snd_conv .
      then obtain q2 where q2: "run_acts (List.map Push p) s1 = Inr (q2, s')" "q1 = q2" "st1 = (if q2 then ST_TRANSPARENT else st)"
        by (auto simp: bindp_Inr)
      have ok1: "q_ok s1" by (rule moved_ok [OF m assms(1)])
      have "tty_fd s1 \<noteq> STO" using assms(2) o1 by (simp add: port_apart_def)
      from push_acts_moved [OF ok1 this q2(1)] obtain acc where
        acc: "\<not> q2" "moved [] acc [] s1 s'" "subseq acc p" "unlimited s1 \<longrightarrow> acc = p" by blast
      have "moved bs acc [] s s'" using moved_trans [OF m acc(2)] Inr by simp
      moreover have "keyed s lp bs p acc lp'"
        using acc p s1(3) q2 moved_unlimited [OF m] by (simp add: keyed_def)
      ultimately show ?thesis using acc(1) s1(2) q2(2) by auto
    qed
  qed
qed

lemma write_fatal_same:
  assumes "(case writen_ni fd b s of (r, s') \<Rightarrow> if P r then fatal (t s') s' else Inr ((), s')) = Inr ((), s')"
  shows "s' = snd (writen_ni fd b s)" "\<not> P (fst (writen_ni fd b s))"
  using assms by (auto split: prod.splits if_splits)

text \<open>
  What a chunk from the port becomes: the messages socket and the log file get it as it is, the
  screen gets its input mapping.
\<close>

lemma tty_input_result:
  assumes "tty_input s = Inr ((), s')"
  shows "\<exists>s1 bs. read_from (tty_fd s) s s1 \<and> rd_bytes (os_in s (tty_fd s)) = bs @ rd_bytes (os_in s1 (tty_fd s)) \<and>
           only_out s1 s' \<and> (\<forall>fd. fd \<notin> {STO, log_fd s, msg_fd s} \<longrightarrow> os_out s' fd = os_out s fd)"
proof -
  obtain r s1 where r: "read_retry (tty_fd s) TTY_RD_SZ s = (r, s1)" by fastforce
  have f: "read_from (tty_fd s) s s1" "rd_bytes (os_in s (tty_fd s)) = (case r of Inr bs \<Rightarrow> bs | Inl _ \<Rightarrow> []) @ rd_bytes (os_in s1 (tty_fd s))"
    using read_retry_result [OF _ r] by (simp_all add: TTY_RD_SZ_def)
  note o1 = read_from_sel [OF f(1)]
  show ?thesis
  proof (cases r)
    case (Inl e)
    then have "s' = s1" using assms r by (auto simp: tty_input_def split: if_splits)
    then show ?thesis using f o1 Inl by (intro exI [of _ s1] exI [of _ "[]"]) auto
  next
    case (Inr bs)
    then obtain b0 bs0 where c: "bs = b0 # bs0" using assms r by (cases bs) (auto simp: tty_input_def)
    have "bindp (upd (\<lambda>s. if msg_fd s > 0 then snd (writen_ni (msg_fd s) bs s) else s)) (\<lambda>_.
          bindp (\<lambda>s. if log_filename (opts s) \<noteq> None then write_log bs s else Inr ((), s)) (\<lambda>_.
          bindp (map_input bs) (\<lambda>b s.
            case writen_ni STO b s of (r, s') \<Rightarrow>
              if r < length b then fatal (''write to stdout failed: '' @ strerror_of s') s' else Inr ((), s')))) s1 = Inr ((), s')"
      using assms unfolding tty_input_def r Inr c prod.case sum.case list.case .
    from opt_writes [OF this] obtain s2 where s2: "only_out s1 s2"
      "bindp (map_input bs) (\<lambda>b s. case writen_ni STO b s of (r, s') \<Rightarrow>
         if r < length b then fatal (''write to stdout failed: '' @ strerror_of s') s' else Inr ((), s')) s2 = Inr ((), s')"
      "\<forall>fd. fd \<noteq> msg_fd s1 \<and> fd \<noteq> log_fd s1 \<longrightarrow> os_out s2 fd = os_out s1 fd" by blast
    then obtain b s3 where b: "map_input bs s2 = Inr (b, s3)" "s' = snd (writen_ni STO b s3)"
      using write_fatal_same(1) by (auto simp: bindp_Inr)
    have "s3 = s2" using b(1) by (auto simp: map_input_def split: option.splits)
    then have so: "same_but_out STO s2 s'" using b(2) writen_same [of STO s2 b] by simp
    show ?thesis
      using f Inr only_out_trans [OF s2(1) only_outI [OF so]] s2(3) same_app(20) [OF so] o1
      by (intro exI [of _ s1] exI [of _ bs]) auto
  qed
qed

lemma tty_input_moved:
  assumes "tty_input s = Inr ((), s')" "port_apart s"
  shows "moved [] [] [] s s'"
proof -
  obtain s1 bs where 1: "read_from (tty_fd s) s s1" "only_out s1 s'"
    "\<forall>fd. fd \<notin> {STO, log_fd s, msg_fd s} \<longrightarrow> os_out s' fd = os_out s fd"
    using tty_input_result [OF assms(1)] by blast
  have m: "moved [] [] [] s s1" by (rule read_moved [OF 1(1)]) (use assms(2) in \<open>simp_all add: port_apart_def\<close>)
  have "os_out s' (tty_fd s1) = os_out s1 (tty_fd s1)"
    using 1(3) assms(2) read_from_sel [OF 1(1)] by (simp add: port_apart_def)
  from moved_trans [OF m moved_out [OF 1(2) this]] show ?thesis by simp
qed

lemma tty_output_moved:
  assumes "tty_output s = Inr ((), s')" "port_apart s"
  shows "\<exists>sent. sent \<noteq> [] \<and> moved [] [] sent s s'"
proof -
  obtain n s2 where n: "0 < n" "n \<le> length (port_chunk s)" "port_deq s n s'" "only_out s s2"
    "s' = s2\<lparr>tty_q := (tty_q s)\<lparr>q_buff := drop n (q_buff (tty_q s))\<rparr>\<rparr>"
    "os_out s' (tty_fd s) = os_out s (tty_fd s) @ take n (q_buff (tty_q s))"
    using tty_output_result [OF assms(1)] assms(2) by (auto simp: port_apart_def)
  have "port_run s [] ([] @ take n (q_buff (tty_q s))) s'" unfolding port_run_def
    by (rule queue_run.qr_deq [OF queue_run.qr_start]) (rule n(3))
  moreover have "loop_frame s s'" using only_out_sel [OF n(4)] by (simp add: n(5) loop_frame_def)
  moreover have "os_in s' = os_in s" using only_out_sel [OF n(4)] by (simp add: n(5))
  ultimately have "moved [] [] (take n (q_buff (tty_q s))) s s'" using n(6) by (simp add: moved_def)
  moreover have "length (port_chunk s) \<le> length (q_buff (tty_q s))" by (simp add: port_chunk_def Let_def)
  ultimately show ?thesis using n(1,2) by (intro exI [of _ "take n (q_buff (tty_q s))"]) auto
qed

section \<open>The whole loop\<close>

definition ctl_quiet :: "int \<Rightarrow> loop_event \<Rightarrow> bool" where
  "ctl_quiet fd e \<longleftrightarrow> (case e of L_select (Sel_ready R W) \<Rightarrow> fd \<notin> set R | _ \<Rightarrow> True)"

lemma when_prog_moved:
  assumes "when_prog b m s = Inr ((), s')" "b \<Longrightarrow> m s = Inr ((), s') \<Longrightarrow> \<exists>sent. moved [] [] sent s s'"
  shows "\<exists>sent. moved [] [] sent s s'"
  using assms moved_refl [of s] by (auto simp: when_prog_def split: if_splits)

lemma loop_ready_moved:
  assumes "q_ok s" "port_apart s" "no_commands s lp" "ctl_fd s \<notin> set R"
    "loop_ready R W lp s = Inr ((le, lp'), s')"
  shows "le = None \<and> (\<exists>c p acc sent. moved c acc sent s s' \<and> keyed s lp c p acc lp')"
proof -
  obtain q lp1 s1 where s1: "(if STI \<in> set R then sti_input lp s else Inr ((False, lp), s)) = Inr ((q, lp1), s1)"
    "(if q then ret (Some LE_CMD, lp1) else
         bindp (\<lambda>s. when_prog (tty_fd s \<in> set R) tty_input s) (\<lambda>_.
         bindp (\<lambda>s. when_prog (tty_fd s \<in> set W) tty_output s) (\<lambda>_.
         bindp (\<lambda>s. if ctl_fd s < 0 then Inl (Undefined s) else when_prog (ctl_fd s \<in> set R) ctl_input s) (\<lambda>_.
         ret (None, lp1))))) s1 = Inr ((le, lp'), s')"
    using assms(5) unfolding loop_ready_def bindp_Inr [of _ "\<lambda>(q, lp'). _ q lp'"] by (auto simp only: split_paired_Ex prod.case)
  have 1: "\<not> q \<and> (\<exists>c p acc. moved c acc [] s s1 \<and> keyed s lp c p acc lp1)"
  proof (cases "STI \<in> set R")
    case True
    then show ?thesis using sti_input_moved [OF assms(1-3)] s1(1) by simp
  next
    case False
    then show ?thesis using s1(1) moved_refl [of s] keyed_nothing [of lp lp s] by auto
  qed
  then obtain c p acc where c: "moved c acc [] s s1" "keyed s lp c p acc lp1" by blast
  have f1: "loop_frame s s1" using c(1) by (simp add: moved_def)
  obtain s2 s3 where s2: "when_prog (tty_fd s1 \<in> set R) tty_input s1 = Inr ((), s2)"
    and s3: "when_prog (tty_fd s2 \<in> set W) tty_output s2 = Inr ((), s3)"
    and s4: "bindp (\<lambda>s. if ctl_fd s < 0 then Inl (Undefined s) else when_prog (ctl_fd s \<in> set R) ctl_input s) (\<lambda>_. ret (None, lp1)) s3
      = Inr ((le, lp'), s')"
    using s1(2) 1 by (auto simp: bindp_Inr)
  have a1: "port_apart s1" using port_apart_frame [OF f1] assms(2) by simp
  obtain x where m2: "moved [] [] x s1 s2"
    using when_prog_moved [OF s2] tty_input_moved a1 by blast
  have f2: "loop_frame s1 s2" using m2 by (simp add: moved_def)
  have a2: "port_apart s2" using port_apart_frame [OF f2] a1 by simp
  obtain y where m3: "moved [] [] y s2 s3"
    using when_prog_moved [OF s3] tty_output_moved a2 by blast
  have "ctl_fd s3 = ctl_fd s" using f1 f2 m3 by (simp add: moved_def loop_frame_def)
  then have e: "s' = s3" "le = None" "lp' = lp1"
    using s4 assms(2,4) by (auto simp: bindp_Inr port_apart_def when_prog_def split: if_splits)
  from moved_trans [OF moved_trans [OF c(1) m2] m3] have "moved c acc (x @ y) s s'" using e by simp
  then show ?thesis using c(2) e by blast
qed

lemma loop_select_moved:
  assumes "q_ok s" "port_apart s" "no_commands s lp" "ctl_quiet (ctl_fd s) (L_select r)"
    "loop_select r lp s = Inr ((le, lp'), s')"
  shows "le \<noteq> Some LE_STDIN \<and> (\<exists>c p acc sent. moved c acc sent s s' \<and> keyed s lp c p acc lp')"
proof (cases r)
  case (Sel_err e)
  then have "s' = s\<lparr>os_errno := e\<rparr>" "lp' = lp" "le = None"
    using assms(5) by (auto simp: loop_select_def Let_def split: if_splits)
  moreover have "moved [] [] [] s (s\<lparr>os_errno := e\<rparr>)" by (rule moved_skip) (simp_all add: loop_frame_def)
  ultimately show ?thesis using keyed_nothing [of lp lp s] by auto
next
  case Sel_timeout
  then show ?thesis using assms(5) moved_refl [of s] keyed_nothing [of lp lp s] by (auto simp: loop_select_def)
next
  case (Sel_ready R W)
  then show ?thesis using loop_ready_moved [OF assms(1-3), of R W le lp' s'] assms(4,5)
    by (auto simp: loop_select_def ctl_quiet_def)
qed

lemma loop_run_moved:
  "q_ok s \<Longrightarrow> port_apart s \<Longrightarrow> no_commands s lp \<Longrightarrow> list_all (ctl_quiet (ctl_fd s)) es \<Longrightarrow>
   loop_run es lp s = Inr ((le, lp'), s') \<Longrightarrow>
     (\<exists>c p acc sent. moved c acc sent s s' \<and> keyed s lp c p acc lp') \<and>
     (le = Some LE_STDIN \<longrightarrow> q_buff (tty_q s') = [] \<and> stdin_closed lp')"
proof (induction es lp s rule: loop_run.induct)
  case (1 es lp s)
  note start = moved_refl [of s] keyed_nothing [of lp lp s]
  show ?case
  proof (cases "sig_exit s")
    case True
    then show ?thesis using 1(7) start by (subst (asm) loop_run.simps) auto
  next
    case awake: False
    show ?thesis
    proof (cases "loop_wait lp s")
      case (Inl x)
      then have "q_buff (tty_q s) = []" "stdin_closed lp"
        by (auto simp: loop_wait_def q_len_def Let_def split: if_splits)
      then show ?thesis using 1(7) awake Inl start by (subst (asm) loop_run.simps) auto
    next
      case (Inr ask)
      show ?thesis
      proof (cases es)
        case Nil
        then show ?thesis using 1(7) awake Inr start by (subst (asm) loop_run.simps) auto
      next
        case (Cons e es')
        show ?thesis
        proof (cases e)
          case L_signal
          have run: "loop_run es' lp (deadly_handler s) = Inr ((le, lp'), s')"
            using 1(7) awake Inr Cons L_signal by (subst (asm) loop_run.simps) simp
          have m: "moved [] [] [] s (deadly_handler s)"
            by (rule moved_skip) (simp_all add: deadly_handler_def loop_frame_def event_def)
          have f: "loop_frame s (deadly_handler s)" using m by (simp add: moved_def)
          have "no_commands (deadly_handler s) lp" using no_commands_step [OF 1(5) m] start(2) by simp
          from 1(2) [OF awake Inr Cons L_signal moved_ok [OF m 1(3)] _ this _ run] obtain c p acc sent where
            r: "moved c acc sent (deadly_handler s) s'" "keyed (deadly_handler s) lp c p acc lp'"
            "le = Some LE_STDIN \<longrightarrow> q_buff (tty_q s') = [] \<and> stdin_closed lp'"
            using port_apart_frame [OF f] 1(4,6) f Cons by (auto simp: loop_frame_def)
          have "keyed s lp c p acc lp'"
            using keyed_trans [OF start(2) r(2)] f moved_unlimited [OF m] by (simp add: loop_frame_def)
          then show ?thesis using moved_trans [OF m r(1)] r(3) by auto
        next
          case (L_select sl)
          obtain le1 lp1 s1 where s1: "loop_select sl lp s = Inr ((le1, lp1), s1)"
            "(case le1 of Some x \<Rightarrow> ret (Some x, lp1) | None \<Rightarrow> loop_run es' lp1) s1 = Inr ((le, lp'), s')"
            using 1(7) awake Inr Cons L_select by (subst (asm) loop_run.simps) (auto simp: bindp_Inr)
          from loop_select_moved [OF 1(3-5) _ s1(1)] obtain c p acc sent where
            c: "le1 \<noteq> Some LE_STDIN" "moved c acc sent s s1" "keyed s lp c p acc lp1"
            using 1(6) Cons L_select by auto
          show ?thesis
          proof (cases le1)
            case (Some x)
            then show ?thesis using s1(2) c by auto
          next
            case None
            have f: "loop_frame s s1" using c(2) by (simp add: moved_def)
            have run: "loop_run es' lp1 s1 = Inr ((le, lp'), s')" using s1(2) None by simp
            from 1(1) [OF awake Inr Cons L_select None moved_ok [OF c(2) 1(3)] _
                no_commands_step [OF 1(5) c(2,3)] _ run]
            obtain c' p' acc' sent' where
              r: "moved c' acc' sent' s1 s'" "keyed s1 lp1 c' p' acc' lp'"
              "le = Some LE_STDIN \<longrightarrow> q_buff (tty_q s') = [] \<and> stdin_closed lp'"
              using port_apart_frame [OF f] 1(4,6) f Cons by (auto simp: loop_frame_def)
            have "keyed s lp (c @ c') (p @ p') (acc @ acc') lp'"
              using keyed_trans [OF c(3) r(2)] f moved_unlimited [OF c(2)] by (simp add: loop_frame_def)
            then show ?thesis using moved_trans [OF c(2) r(1)] r(3) by blast
          qed
        qed
      qed
    qed
  qed
qed

section \<open>Properties\<close>


text \<open>A session: the user types a line end, then the port takes what is in the queue.\<close>

definition sample_lp :: loop_vars where
  "sample_lp = \<lparr>lp_state = ST_TRANSPARENT, stdin_closed = False\<rparr>"

definition typing :: app where
  "typing = sample_app\<lparr>msg_fd := 4, ctl_fd := 5, os_in := (\<lambda>_. [])(STI := [RdData [CR]]), os_wres := []\<rparr>"

lemma typing_sel [simp]:
  "opts typing = sample_opts" "tty_q typing = \<lparr>q_sz = 256, q_buff = []\<rparr>" "os_cfg typing = sample_cfg" "tty_fd typing = 3"
  "os_faults typing = []" "msg_fd typing = 4" "ctl_fd typing = 5" "log_fd typing = -1" "os_wres typing = []"
  "os_in typing STI = [RdData [CR]]" "sig_exit typing = False" "tty_write_sz typing = 960"
  by (simp_all add: typing_def sample_app_sel) (simp_all add: sample_app_def term_lib.extend_def)

lemma typing_ok: "q_ok typing" "port_apart typing" "no_commands typing sample_lp"
proof -
  show "q_ok typing" by (simp add: q_ok_def q_len_def sample_cfg_def)
  show "port_apart typing" by (simp add: port_apart_def STI_def STO_def)
  show "no_commands typing sample_lp"
    by (simp add: no_commands_def sample_lp_def sample_opts_def exI [of _ "[CR]"])
qed

lemma push_one:
  assumes "q_len s + M_MAXMAP \<le> q_sz (tty_q s)" "\<not> lecho (opts s)" "do_map_stages (omap (opts s)) c = b" "b \<noteq> []"
  shows "tty_q_push [c] s = Inr (1, s\<lparr>tty_q := (tty_q s)\<lparr>q_buff := q_buff (tty_q s) @ b\<rparr>\<rparr>)"
proof -
  have "q_grow s = Inr (True, s)" using assms(1) by (subst q_grow.simps) simp
  moreover have "do_map nd (omap (opts s)) c = Some b" for nd using assms(3,4) by (simp add: do_map_Some_iff)
  ultimately show ?thesis using assms(2) by (simp add: tty_q_push_def bindp_def do_map_prog_def upd_def ret_def)
qed

definition typed_in :: app where
  "typed_in = typing\<lparr>os_in := (os_in typing)(STI := []), tty_q := \<lparr>q_sz = 256, q_buff = [CR, LF]\<rparr>\<rparr>"

lemma typing_input: "sti_input sample_lp typing = Inr ((False, sample_lp), typed_in)"
proof -
  let ?s = "typing\<lparr>os_in := (os_in typing)(STI := [])\<rparr>"
  have r: "read_retry STI STI_RD_SZ typing = (Inr [CR], ?s)"
    by (subst read_retry.simps) (simp add: os_read_def STI_RD_SZ_def)
  have "do_map_stages 2 CR = [CR, LF]" by (simp add: do_map_stages_eqs M_CRLF_def M_CRCRLF_def)
  then have "tty_q_push [CR] ?s = Inr (1, typed_in)"
    by (subst push_one [where b = "[CR, LF]"]) (simp_all add: q_len_def M_MAXMAP_def sample_opts_def typed_in_def)
  then show ?thesis
    by (simp add: sti_input_def r sti_char_def sample_lp_def sample_opts_def bindp_def bell_unless_def upd_def ret_def)
qed

definition typed_out :: app where
  "typed_out = typed_in\<lparr>os_out := (os_out typed_in)(3 := os_out typed_in 3 @ [CR, LF]), tty_q := \<lparr>q_sz = 256, q_buff = []\<rparr>\<rparr>"

lemma typing_output: "tty_output typed_in = Inr ((), typed_out)"
proof -
  have "write_retry 3 [CR, LF] typed_in = (2, os_put 3 [CR, LF] typed_in)"
    by (subst write_retry.simps) (simp add: os_write_def typed_in_def)
  then show ?thesis
    by (simp add: tty_output_def typed_out_def typed_in_def bindp_def upd_def Let_def sample_opts_def os_put_def)
qed

lemma typing_run:
  "loop_run [L_select (Sel_ready [STI] []), L_select (Sel_ready [] [3])] sample_lp typing =
     Inr ((None, sample_lp), typed_out)"
proof -
  have w: "loop_wait sample_lp typing = Inr (None, [STI, 3, 5], [])" "loop_wait sample_lp typed_in = Inr (None, [STI, 3, 5], [3])"
    by (simp_all add: loop_wait_def q_len_def sample_lp_def sample_opts_def typed_in_def)
  have 1: "loop_select (Sel_ready [STI] []) sample_lp typing = Inr ((None, sample_lp), typed_in)"
    using typing_input by (simp add: loop_select_def loop_ready_def bindp_def ret_def when_prog_def typed_in_def STI_def)
  have c: "ctl_fd typed_out = 5" "tty_fd typed_in = 3" by (simp_all add: typed_out_def typed_in_def)
  have 2: "loop_select (Sel_ready [] [3]) sample_lp typed_in =
    Inr ((None, sample_lp), typed_out)"
    using typing_output c by (simp add: loop_select_def loop_ready_def bindp_def ret_def when_prog_def)
  have g: "sig_exit typed_in = False" "sig_exit typed_out = False" by (simp_all add: typed_in_def typed_out_def)
  have 3: "loop_run [] sample_lp typed_out = Inr ((None, sample_lp), typed_out)"
    by (subst loop_run.simps) (simp add: g loop_wait_def q_len_def sample_lp_def sample_opts_def typed_out_def typed_in_def)
  have "loop_run [L_select (Sel_ready [] [3])] sample_lp typed_in = Inr ((None, sample_lp), typed_out)"
    by (subst loop_run.simps) (simp add: w g 2 3 bindp_def)
  then show ?thesis by (subst loop_run.simps) (simp add: w 1 bindp_def)
qed


text \<open>
  C13: escape sequences: reading a chunk of keys does exactly what lexing it says (an escape character
  makes the next character a command, an escape character again stands for itself, everything else
  passes), in any state and across chunk boundaries, up to the first command that ends the program;
  and a text in which every escape character is doubled is passed on as it was.
\<close>

theorem escape_sequences:
  "sti_chars bs st s =
     bindp (run_acts (fst (lex_keys (escape (opts s)) (noescape (opts s)) st bs)))
       (\<lambda>q. ret (q, if q then ST_TRANSPARENT else snd (lex_keys (escape (opts s)) (noescape (opts s)) st bs))) s \<and>
   lex_keys esc noesc st (a @ b) =
     (case lex_keys esc noesc st a of (x, st1) \<Rightarrow> case lex_keys esc noesc st1 b of (y, st2) \<Rightarrow> (x @ y, st2)) \<and>
   lex_keys esc False ST_TRANSPARENT (double_escape esc bs) = (List.map Push bs, ST_TRANSPARENT)"
  by (simp only: sti_chars_lex lex_keys_append lex_double_escape if_False)

end
