(* ===== verification/Loop_Live.thy ===== *)
theory Loop_Live
  imports Loop_Props
begin

text \<open>
  What the main loop does get done: when writes make progress, a chunk from the port reaches the
  screen, the log file and the messages socket, and a loop whose input is closed sends what is in the
  queue and ends.
\<close>

section \<open>Writes that make progress\<close>

text \<open>Every write takes at least one byte, or is interrupted.\<close>

definition writes_go :: "'a os_scheme \<Rightarrow> bool" where
  "writes_go s \<longleftrightarrow> list_all (\<lambda>w. 0 < w \<or> w = - int EINTR) (os_wres s)"

lemma writes_go_drop: "writes_go s \<Longrightarrow> os_wres s' = drop k (os_wres s) \<Longrightarrow> writes_go s'"
  by (auto simp: writes_go_def list_all_iff dest: in_set_dropD)

lemma write_retry_go:
  "writes_go s \<Longrightarrow> bs \<noteq> [] \<Longrightarrow> 0 < fst (write_retry fd bs s) \<and> writes_go (snd (write_retry fd bs s))"
proof (induction fd bs s rule: write_retry.induct)
  case (1 fd bs s)
  obtain nw s1 where w: "os_write fd bs s = (nw, s1)" by fastforce
  have g: "writes_go s1" "nw < 0 \<longrightarrow> os_errno s1 = EINTR" "0 < nw \<or> nw < 0"
    using w 1(2,3) by (auto simp: os_write_def writes_go_def EINTR_def Let_def split: list.splits if_splits)
  show ?case
  proof (cases "nw < 0")
    case True
    then have "write_retry fd bs s = write_retry fd bs s1" using w g(2) by (subst write_retry.simps) simp
    then show ?thesis using 1(1) [OF w [symmetric] refl] True g(1,2) 1(3) by simp
  next
    case False
    then have "write_retry fd bs s = (nw, s1)" using w by (subst write_retry.simps) simp
    then show ?thesis using g False by simp
  qed
qed

lemma writen_loop_wres: "\<exists>k. os_wres (snd (writen_loop fd p s)) = drop k (os_wres s)"
proof (induction fd p s rule: writen_loop.induct)
  case (1 fd p s)
  obtain nw s1 where w: "write_retry fd p s = (nw, s1)" by fastforce
  obtain k where k: "os_wres s1 = drop k (os_wres s)" using write_retry_result [of fd p s] w by auto
  have n: "\<exists>j. os_wres s = drop j (os_wres s)" by (rule exI [of _ 0]) simp
  show ?case
  proof (cases "p \<noteq> [] \<and> 0 < nw")
    case True
    then obtain j where "os_wres (snd (writen_loop fd (drop (nat nw) p) s1)) = drop j (os_wres s1)"
      using 1 [OF _ w [symmetric]] by auto
    then have "os_wres (snd (writen_loop fd (drop (nat nw) p) s1)) = drop (j + k) (os_wres s)" using k by simp
    then show ?thesis using True w by (subst writen_loop.simps) auto
  next
    case False
    then show ?thesis using w k n by (subst writen_loop.simps) auto
  qed
qed

definition put_out :: "int \<Rightarrow> byte list \<Rightarrow> 'a os_scheme \<Rightarrow> 'a os_scheme \<Rightarrow> bool" where
  "put_out fd bs s s' \<longleftrightarrow>
     (\<exists>w e. s' = s\<lparr>os_out := (os_out s)(fd := os_out s fd @ bs), os_wres := w, os_errno := e\<rparr>) \<and> writes_go s'"

lemma writen_go:
  assumes "writes_go s"
  shows "fst (writen_ni fd bs s) = length bs" "put_out fd bs s (snd (writen_ni fd bs s))"
proof -
  let ?s = "snd (writen_ni fd bs s)"
  have c: "fst (writen_ni fd bs s) = length bs" "os_out ?s = (os_out s)(fd := os_out s fd @ bs)"
    using writen_complete [of s fd bs] assms by (simp_all add: writes_go_def case_prod_unfold Let_def)
  show "fst (writen_ni fd bs s) = length bs" by (rule c)
  have "\<exists>k. os_wres ?s = drop k (os_wres s)"
    using writen_loop_wres [of fd bs s] by (simp add: writen_ni_def case_prod_unfold)
  then have g: "writes_go ?s" using writes_go_drop [OF assms] by blast
  obtain b w e where s: "?s = s\<lparr>os_out := (os_out s)(fd := os_out s fd @ b), os_wres := w, os_errno := e\<rparr>"
    using writen_same [of fd s bs] by (auto simp: same_but_out_def)
  then have "os_out s fd @ b = os_out s fd @ bs" using c(2) by (auto dest: fun_cong [of _ _ fd])
  then show "put_out fd bs s ?s" using s g by (auto simp: put_out_def)
qed

lemma put_out_same: "put_out fd bs s s' \<Longrightarrow> same_but_out fd s s'"
  unfolding put_out_def same_but_out_def by blast

lemma put_out_sel: "put_out fd bs s s' \<Longrightarrow> os_out s' = (os_out s)(fd := os_out s fd @ bs)" "put_out fd bs s s' \<Longrightarrow> writes_go s'"
  by (auto simp: put_out_def)

lemma write_log_go:
  assumes "writes_go s"
  shows "\<exists>s'. write_log bs s = Inr ((), s') \<and> put_out (log_fd s) bs s s'"
  using writen_go [OF assms, of "log_fd s" bs] by (auto simp: write_log_def case_prod_unfold)

text \<open>The two copies, to the messages socket and to the log file, as far as they are asked for.\<close>

definition copies :: "bool \<Rightarrow> bool \<Rightarrow> byte list \<Rightarrow> app \<Rightarrow> int \<Rightarrow> byte list" where
  "copies m l bs s fd =
     (if m \<and> fd = msg_fd s then bs else []) @ (if l \<and> fd = log_fd s then bs else [])"

lemma opt_writes_go:
  assumes "writes_go s"
  shows "\<exists>s'. bindp (upd (\<lambda>s. if c s then snd (writen_ni (msg_fd s) bs s) else s)) (\<lambda>_.
                bindp (\<lambda>s. if d (opts s) then write_log bs s else Inr ((), s)) k) s = k () s' \<and>
              only_out s s' \<and> writes_go s' \<and> (\<forall>fd. os_out s' fd = os_out s fd @ copies (c s) (d (opts s)) bs s fd)"
proof -
  define s1 where "s1 = (if c s then snd (writen_ni (msg_fd s) bs s) else s)"
  have 1: "only_out s s1" "writes_go s1" "\<And>fd. os_out s1 fd = os_out s fd @ (if c s \<and> fd = msg_fd s then bs else [])"
    using writen_go(2) [OF assms, of "msg_fd s" bs] assms put_out_same [THEN only_outI]
    by (auto simp: s1_def put_out_sel)
  note o1 = only_out_sel [OF 1(1)]
  have e: "bindp (upd (\<lambda>s. if c s then snd (writen_ni (msg_fd s) bs s) else s)) (\<lambda>_.
                bindp (\<lambda>s. if d (opts s) then write_log bs s else Inr ((), s)) k) s =
      bindp (\<lambda>s. if d (opts s) then write_log bs s else Inr ((), s)) k s1" unfolding s1_def by simp
  show ?thesis
  proof (cases "d (opts s)")
    case True
    obtain s2 where "write_log bs s1 = Inr ((), s2)" "put_out (log_fd s1) bs s1 s2"
      using write_log_go [OF 1(2)] by blast
    then show ?thesis unfolding e using True o1 1 put_out_same [THEN only_outI] only_out_trans [OF 1(1)]
      by (intro exI [of _ s2]) (auto simp: bindp_def put_out_sel copies_def)
  next
    case False
    then show ?thesis unfolding e using o1 1 by (intro exI [of _ s1]) (auto simp: bindp_def copies_def)
  qed
qed

section \<open>Sending what is in the queue\<close>

lemma tty_output_go:
  assumes "writes_go s" "q_buff (tty_q s) \<noteq> []" "0 < tty_write_sz s"
  shows "\<exists>s'. tty_output s = Inr ((), s') \<and> writes_go s'"
proof -
  let ?q = "q_buff (tty_q s)" and ?p = "port_chunk s"
  have "?p \<noteq> []" using assms(2,3) by (auto simp: port_chunk_def Let_def)
  obtain n s1 where w: "write_retry (tty_fd s) ?p s = (n, s1)" by fastforce
  have n: "0 < n" "writes_go s1" using write_retry_go [OF assms(1) \<open>?p \<noteq> []\<close>, of "tty_fd s"] w by simp_all
  let ?m = "bindp (upd (\<lambda>s. if lecho (opts s) \<and> msg_fd s > 0 then snd (writen_ni (msg_fd s) (take (nat n) ?q) s) else s)) (\<lambda>_.
        bindp (\<lambda>s. if lecho (opts s) \<and> log_filename (opts s) \<noteq> None then write_log (take (nat n) ?q) s else Inr ((), s)) (\<lambda>_.
        upd (\<lambda>s. s\<lparr>tty_q := (tty_q s)\<lparr>q_buff := drop (nat n) (q_buff (tty_q s))\<rparr>\<rparr>)))"
  have t: "tty_output s = ?m s1" using w n(1) by (auto simp: tty_output_def port_chunk_def Let_def)
  obtain s2 where "?m s1 = upd (\<lambda>s. s\<lparr>tty_q := (tty_q s)\<lparr>q_buff := drop (nat n) (q_buff (tty_q s))\<rparr>\<rparr>) s2" "writes_go s2"
    using opt_writes_go [OF n(2), of "\<lambda>s. lecho (opts s) \<and> msg_fd s > 0" "take (nat n) ?q"
        "\<lambda>o'. lecho o' \<and> log_filename o' \<noteq> None"
        "\<lambda>_. upd (\<lambda>s. s\<lparr>tty_q := (tty_q s)\<lparr>q_buff := drop (nat n) (q_buff (tty_q s))\<rparr>\<rparr>)"] by blast
  then show ?thesis unfolding t by (simp add: upd_def writes_go_def)
qed

text \<open>What \<^verbatim>\<open>select\<close> reports while nothing but the port's readiness for output happens.\<close>

definition only_writable :: "int \<Rightarrow> loop_event \<Rightarrow> bool" where
  "only_writable fd e \<longleftrightarrow> e = L_select (Sel_err EINTR) \<or> e = L_select (Sel_ready [] [fd])"

lemma ready_out:
  assumes "tty_output s = Inr ((), s')" "0 \<le> ctl_fd s'"
  shows "loop_select (Sel_ready [] [tty_fd s]) lp s = Inr ((None, lp), s')"
  using assms by (simp add: loop_select_def loop_ready_def bindp_def when_prog_def ret_def)



section \<open>What the port sends\<close>

lemma read_retry_data:
  "os_in s fd = replicate k (RdErr EINTR) @ RdData bs # rest \<Longrightarrow> length bs \<le> n \<Longrightarrow>
     \<exists>e. read_retry fd n s = (Inr bs, s\<lparr>os_in := (os_in s)(fd := rest), os_errno := e\<rparr>)"
proof (induction k arbitrary: s)
  case 0
  then have "read_retry fd n s = (Inr bs, s\<lparr>os_in := (os_in s)(fd := rest), os_errno := os_errno s\<rparr>)"
    by (subst read_retry.simps) (simp add: os_read_def)
  then show ?case by blast
next
  case (Suc k)
  let ?s = "s\<lparr>os_in := (os_in s)(fd := replicate k (RdErr EINTR) @ RdData bs # rest), os_errno := EINTR\<rparr>"
  have "read_retry fd n s = read_retry fd n ?s" using Suc.prems(1)
    by (subst read_retry.simps) (simp add: os_read_def)
  then show ?case using Suc.IH [of ?s] Suc.prems(2) by (simp add: fun_upd_def cong: if_cong)
qed

lemma map_bytes_ok:
  "\<forall>c\<in>set bs. nd \<or> do_map_stages m c \<noteq> [] \<Longrightarrow> map_bytes nd m bs = Some (concat (List.map (do_map_stages m) bs))"
  by (induction bs) (auto simp: do_map_Some_iff split: option.split dest: do_map_None_iff [THEN iffD1])



end
