(* ===== verification/End_Props.thy ===== *)
theory End_Props
  imports Loop_Live
begin

text \<open>
  How the program ends: \<^verbatim>\<open>cleanup\<close> followed by the exit handler of the terminal library, and what
  the port is left with.
\<close>

section \<open>The exit handler and the terminals themselves\<close>

lemma exit_slot_ok:
  assumes "os_faults s = []" "slot_fd i s \<noteq> -1"
  shows "os_faults (exit_slot i s) = []" "os_drv (exit_slot i s) = os_drv s"
    "os_fd (exit_slot i s) = (os_fd s)(slot_fd i s := None)"
    "dv_tio (os_dev (exit_slot i s) d) =
       (if os_fd s (slot_fd i s) = Some d then os_drv s d (to_termios2 (term_orig s ! i)) else dv_tio (os_dev s d))"
proof -
  let ?fd = "slot_fd i s"
  define s1 where "s1 = snd (term_drain ?fd s)"
  define s2 where "s2 = snd (tcflush ?fd TCIFLUSH s1)"
  have s1: "os_faults s1 = []" "os_drv s1 = os_drv s" "os_fd s1 = os_fd s" "os_dev s1 = os_dev s" "term_orig s1 = term_orig s"
  proof -
    have "os_fd s ?fd = None \<or> (\<exists>d. os_fd s ?fd = Some d)" by (cases "os_fd s ?fd") auto
    then have "\<exists>e t. s1 = s\<lparr>os_errno := e, term_errno := t\<rparr> \<or> s1 = usleep DRAIN_DELAY (event (E_drain ?fd) s)"
    proof (cases "slot_of ?fd s")
      case None
      then show ?thesis
        by (intro exI [of _ "os_errno s"] exI [of _ "find_err s"]) (simp add: s1_def term_drain_def with_slot_eq)
    next
      case (Some j)
      show ?thesis
      proof (cases "os_fd s ?fd")
        case None
        then have "retry_eintr (\<lambda>_. event (E_drain ?fd)) ?fd s = (False, s\<lparr>os_errno := ENOTTY\<rparr>)"
          by (subst retry_eintr.simps) (simp add: tty_call_def ENOTTY_def EINTR_def)
        then show ?thesis using Some
          by (intro exI [of _ ENOTTY] exI [of _ TERM_EDRAIN]) (simp add: s1_def term_drain_def with_slot_eq check_def fail_def)
      next
        case (Some d')
        then show ?thesis using drain_ok [of ?fd s d'] \<open>slot_of ?fd s = Some j\<close> assms(1) by (simp add: s1_def)
      qed
    qed
    then show "os_faults s1 = []" "os_drv s1 = os_drv s" "os_fd s1 = os_fd s" "os_dev s1 = os_dev s" "term_orig s1 = term_orig s"
      using assms(1) by (auto simp: usleep_def event_def)
  qed
  have s2: "os_faults s2 = []" "os_drv s2 = os_drv s" "os_fd s2 = os_fd s" "os_dev s2 = os_dev s" "term_orig s2 = term_orig s"
    using s1 by (auto simp: s2_def tcflush_def tty_call_def syscall_def event_def split: option.split)
  obtain ok s3 where r: "retry_eintr (setattr_act ?fd TCSANOW (term_orig s2 ! i)) ?fd s2 = (ok, s3)" by fastforce
  have s3: "os_faults s3 = []" "os_drv s3 = os_drv s" "os_fd s3 = os_fd s"
    "dv_tio (os_dev s3 d) = (if os_fd s ?fd = Some d then os_drv s d (to_termios2 (term_orig s ! i)) else dv_tio (os_dev s d))"
    using r s2 by (subst (asm) retry_eintr.simps,
        auto simp: tty_call_def syscall_def setattr_act_def ENOTTY_def EINTR_def split: option.splits)+
  define s5 where "s5 = (let s4 = (if ok then s3 else reset_failed_msg ''term_exitfunc'' ?fd crlf s3) in
     if USE_FLOCK (os_cfg s4) then event (E_unlock ?fd) s4 else s4)"
  have s5: "os_faults s5 = []" "os_drv s5 = os_drv s" "os_fd s5 = os_fd s" "os_dev s5 = os_dev s3"
    using s3 by (simp_all add: s5_def reset_failed_msg_def Let_def)
  have "exit_slot i s = set_fd i (-1) (os_close ?fd s5)"
    using assms(2) r by (simp add: exit_slot_def s1_def s2_def s5_def Let_def)
  then show "os_faults (exit_slot i s) = []" "os_drv (exit_slot i s) = os_drv s"
    "os_fd (exit_slot i s) = (os_fd s)(slot_fd i s := None)"
    "dv_tio (os_dev (exit_slot i s) d) =
       (if os_fd s (slot_fd i s) = Some d then os_drv s d (to_termios2 (term_orig s ! i)) else dv_tio (os_dev s d))"
    using s5 s3 by (simp_all add: os_close_def)
qed

text \<open>The device \<open>d\<close> is behind the slot \<open>j\<close> only.\<close>

lemma exit_fold_ok:
  assumes "os_faults s = []" "\<forall>i<length (term_fd s). slot_fd i s \<noteq> -1 \<and> os_fd s (slot_fd i s) = Some d \<longrightarrow> i = j"
  shows "n \<le> length (term_fd s) \<Longrightarrow>
     os_faults (fold exit_slot [0..<n] s) = [] \<and> os_drv (fold exit_slot [0..<n] s) = os_drv s \<and>
     os_fd (fold exit_slot [0..<n] s) = (\<lambda>g. if g \<noteq> -1 \<and> g \<in> set (take n (term_fd s)) then None else os_fd s g) \<and>
     dv_tio (os_dev (fold exit_slot [0..<n] s) d) =
       (if j < n \<and> slot_fd j s \<noteq> -1 \<and> os_fd s (slot_fd j s) = Some d
        then os_drv s d (to_termios2 (term_orig s ! j)) else dv_tio (os_dev s d))"
proof (induction n)
  case (Suc n)
  let ?s = "fold exit_slot [0..<n] s"
  note ih = Suc.IH [OF Suc_leD [OF Suc.prems]]
  have "tbl ?s = (term_init s, replicate n (-1) @ drop n (term_fd s), term_orig s, term_curr s, term_next s)"
    using Suc.prems by (intro fold_clear [of exit_slot, OF exit_slot_tbl]) simp
  then have n: "slot_fd n ?s = slot_fd n s" "term_orig ?s = term_orig s"
    using Suc.prems by (simp_all add: tbl_def nth_append)
  have tk: "take (Suc n) (term_fd s) = take n (term_fd s) @ [slot_fd n s]"
    using Suc.prems by (simp add: take_Suc_conv_app_nth)
  show ?case
  proof (cases "slot_fd n s = -1")
    case True
    then have e: "exit_slot n ?s = ?s" using n by (simp add: exit_slot_def)
    have f: "fold exit_slot [0..<Suc n] s = ?s" using e by simp
    show ?thesis unfolding f using ih True tk by (auto simp: less_Suc_eq)
  next
    case False
    note st = exit_slot_ok [of ?s n, OF ih [THEN conjunct1], unfolded n(1), OF False]
    have f: "fold exit_slot [0..<Suc n] s = exit_slot n ?s" by simp
    have new: "slot_fd n s \<notin> set (take n (term_fd s))" if "os_fd s (slot_fd n s) = Some d"
    proof
      assume "slot_fd n s \<in> set (take n (term_fd s))"
      then obtain i where i: "i < n" "i < length (term_fd s)" "slot_fd i s = slot_fd n s" by (auto simp: in_set_conv_nth)
      then have "i = j" "n = j" using assms(2) False that Suc.prems by auto
      then show False using i(1) by simp
    qed
    have nj: "n = j" if "os_fd s (slot_fd n s) = Some d" using assms(2) False that Suc.prems by auto
    show ?thesis unfolding f tk
      using ih st(1,2,3) st(4) [of d] n(2) new nj False
      by (auto simp: fun_eq_iff less_Suc_eq)
  qed
qed (use assms(1) in simp)

section \<open>The port during cleanup\<close>

text \<open>
  The descriptor \<open>fd\<close>, with the device \<open>d\<close> to itself, is managed, with the original settings \<open>o'\<close>
  and the next settings \<open>n\<close>; calls succeed and the driver accepts what it is given.
\<close>

definition held :: "int \<Rightarrow> nat \<Rightarrow> termios \<Rightarrow> termios \<Rightarrow> 'a term_lib_scheme \<Rightarrow> bool" where
  "held fd d o' n s \<longleftrightarrow>
     table_ok s \<and> term_init s \<and> (\<exists>cu. amap s fd = Some (o', cu, n)) \<and> os_fd s fd = Some d \<and> os_faults s = [] \<and>
     (\<forall>k. os_drv s d k = k) \<and> (\<forall>g. amap s g \<noteq> None \<and> os_fd s g = Some d \<longrightarrow> g = fd)"

lemma held_cong:
  assumes "tbl s' = tbl s" "os_fd s' = os_fd s" "os_faults s' = os_faults s" "os_drv s' = os_drv s"
  shows "held fd d o' n s' = held fd d o' n s"
  using tbl_amap [OF assms(1)] tbl_table_ok [OF assms(1)] assms(2-) tbl_eqD(1) [OF assms(1)] by (simp add: held_def)

lemma held_slot: "held fd d o' n s \<Longrightarrow> \<exists>i. slot_of fd s = Some i"
  by (auto simp: held_def amap_Some)

lemma held_pinfo [simp]: "held fd d o' n (pinfo t s) = held fd d o' n s"
  by (rule held_cong) simp_all

lemma pinfo_dev [simp]: "os_dev (pinfo t s) = os_dev s" "os_evs (pinfo t s) = os_evs s"
  by simp_all

lemma held_drain:
  assumes "held fd d o' n s"
  shows "held fd d o' n (snd (term_drain fd s))"
    "os_evs (snd (term_drain fd s)) = os_evs s @ [E_drain fd, E_usleep DRAIN_DELAY]"
proof -
  have "term_drain fd s = (0, usleep DRAIN_DELAY (event (E_drain fd) s))"
    using drain_ok [of fd s d] assms held_slot [OF assms] by (auto simp: held_def)
  moreover have "held fd d o' n (usleep DRAIN_DELAY (event (E_drain fd) s)) = held fd d o' n s"
    by (rule held_cong) (simp_all add: usleep_def tbl_def)
  ultimately show "held fd d o' n (snd (term_drain fd s))"
    "os_evs (snd (term_drain fd s)) = os_evs s @ [E_drain fd, E_usleep DRAIN_DELAY]"
    using assms by (simp_all add: usleep_def)
qed

lemma held_flush:
  assumes "held fd d o' n s"
  shows "held fd d o' n (snd (term_flush fd s))" "os_evs (snd (term_flush fd s)) = os_evs s @ [E_flush fd TCIOFLUSH]"
proof -
  have "term_flush fd s = (0, event (E_flush fd TCIOFLUSH) s)"
    using assms held_slot [OF assms] slot_ofD by (auto simp: held_def term_flush_def with_slot_eq check_def calls_ok)
  moreover have "held fd d o' n (event (E_flush fd TCIOFLUSH) s) = held fd d o' n s"
    by (rule held_cong) (simp_all add: tbl_def)
  ultimately show "held fd d o' n (snd (term_flush fd s))"
    "os_evs (snd (term_flush fd s)) = os_evs s @ [E_flush fd TCIOFLUSH]"
    using assms by simp_all
qed

lemma held_amap:
  assumes "held fd d o' n s" "amap s' = (amap s)(fd \<mapsto> (o2, c2, n2))" "table_ok s'" "term_init s'" "os_fd s' = os_fd s"
    "os_faults s' = []" "os_drv s' = os_drv s"
  shows "held fd d o2 n2 s'"
  using assms by (auto simp: held_def)

lemma held_fake_flush:
  assumes "held fd d o' n s"
  shows "held fd d o' n (snd (term_fake_flush fd s))" "\<exists>es. os_evs (snd (term_fake_flush fd s)) = os_evs s @ es"
proof -
  define t where "t = of_termios2 (dv_tio (os_dev s d))"
  obtain cu i where i: "slot_of fd s = Some i" "amap s fd = Some (o', cu, n)" "fd \<noteq> -1"
    using assms by (auto simp: held_def amap_Some)
  have h: "table_ok s" "os_fd s fd = Some d" "os_faults s = []" using assms by (simp_all add: held_def)
  have len: "i < length (term_curr s)"
    using slot_of_less [OF h(1) i(1)] h(1) by (simp add: table_ok_def)
  let ?s1 = "setattr_act fd TCSANOW (no_flow t) d (set_curr i t s)"
  let ?s3 = "setattr_act fd TCSANOW t d (usleep DRAIN_DELAY (event (E_drain fd) ?s1))"
  have r: "term_fake_flush fd s = (0, ?s3)"
    using h len
    by (simp add: term_fake_flush_def with_slot_eq i(1) check_def check_get_def calls_ok t_def DRAIN_DELAY_def)
  have "held fd d o' n ?s3"
  proof (rule held_amap [OF assms])
    show "amap ?s3 = (amap s)(fd \<mapsto> (o', t, n))" using h(1) i by (simp add: amap_set_curr upd_curr_def)
    show "table_ok ?s3" "term_init ?s3" using assms by (simp_all add: held_def)
  qed (use assms in \<open>simp_all add: held_def setattr_act_def usleep_def set_curr_def\<close>)
  then show "held fd d o' n (snd (term_fake_flush fd s))" by (simp add: r)
  show "\<exists>es. os_evs (snd (term_fake_flush fd s)) = os_evs s @ es" by (simp add: r)
qed

lemma set_hupcl_bits:
  assumes "set_hupcl_tio h n = Inr n'"
  shows "but_hupcl n' = but_hupcl n" "bit (c_cflag n') 10 = h"
proof -
  have "(w OR HUPCL) AND NOT HUPCL = w AND NOT HUPCL" for w by (rule bit_eqI) (auto simp: bit_simps)
  then show "but_hupcl n' = but_hupcl n" "bit (c_cflag n') 10 = h"
    using assms by (auto simp: set_hupcl_tio_def but_hupcl_def flag_ops upd_cflag_def split: if_splits)
qed

lemma held_set_hupcl:
  assumes "held fd d o' n s"
  shows "\<exists>n'. held fd d o' n' (snd (term_set_hupcl fd h s)) \<and> but_hupcl n' = but_hupcl n \<and> bit (c_cflag n') 10 = h"
    "os_evs (snd (term_set_hupcl fd h s)) = os_evs s"
proof -
  obtain n' where n': "set_hupcl_tio h n = Inr n'" using set_flags_Inr(2) by blast
  obtain cu where a: "table_ok s" "amap s fd = Some (o', cu, n)" "fd \<noteq> -1" using assms by (auto simp: held_def amap_Some)
  let ?s = "snd (edit_next fd (\<lambda>_. set_hupcl_tio h) s)"
  note hw = edit_next_hw [of fd "\<lambda>_. set_hupcl_tio h" s, unfolded hw_def]
  have "amap ?s = (amap s)(fd \<mapsto> (o', cu, n'))" "table_ok ?s" "term_init ?s = term_init s"
    using edit_next_cases [OF a(1,3), of "\<lambda>_. set_hupcl_tio h"] a(2) n' edit_next_keeps by simp_all
  then have "held fd d o' n' ?s"
    using hw assms by (intro held_amap [OF assms]) (simp_all add: held_def)
  then show "\<exists>n'. held fd d o' n' (snd (term_set_hupcl fd h s)) \<and> but_hupcl n' = but_hupcl n \<and> bit (c_cflag n') 10 = h"
    using set_hupcl_bits [OF n'] by (auto simp: term_set_hupcl_def)
  show "os_evs (snd (term_set_hupcl fd h s)) = os_evs s" using hw by (simp add: term_set_hupcl_def)
qed

lemma held_apply:
  assumes "held fd d o' n s"
  defines "s' \<equiv> snd (term_apply fd True s)" and "t \<equiv> of_termios2 (to_termios2 n)"
  shows "held fd d (copy_hupcl t o') t s'" "dv_tio (os_dev s' d) = to_termios2 n" "\<exists>es. os_evs s' = os_evs s @ es"
proof -
  obtain cu where a: "table_ok s" "amap s fd = Some (o', cu, n)" "os_fd s fd = Some d" "os_faults s = []"
    "\<And>k. os_drv s d k = k" "term_init s" using assms(1) by (auto simp: held_def)
  have t: "t = of_termios2 (os_drv s d (to_termios2 n))" using a(5) by (simp add: t_def)
  note ap = term_apply_ok [OF a(1-4) t, of s' True, OF s'_def [THEN meta_eq_to_obj_eq]]
  have "os_drv s' = os_drv s" using aside_ops(2) [of fd True s] unfolding aside_def s'_def by simp
  then show "held fd d (copy_hupcl t o') t s'"
    using ap a(6) by (intro held_amap [OF assms(1)]) simp_all
  show "dv_tio (os_dev s' d) = to_termios2 n" "\<exists>es. os_evs s' = os_evs s @ es" using ap a(5) by simp_all
qed

section \<open>Cleanup\<close>

text \<open>The first part of \<^verbatim>\<open>cleanup\<close>: drain, flush, set \<^verbatim>\<open>HUPCL\<close> and apply.\<close>

definition settle :: "bool \<Rightarrow> bool \<Rightarrow> app \<Rightarrow> app" where
  "settle drain h s0 =
     (let fd = tty_fd s0;
          s1 = (if drain then snd (term_drain fd s0) else s0);
          s2 = snd (term_flush fd s1);
          s3 = (if flow (opts s2) \<noteq> FC_NONE then snd (term_fake_flush fd s2) else s2);
          s4 = snd (term_set_hupcl fd h s3)
      in snd (term_apply fd True s4))"

definition let_go :: "int \<Rightarrow> app \<Rightarrow> app" where
  "let_go fd s =
     (let s6 = pinfo (''Skipping tty reset...'' @ crlf) s;
          s7 = snd (term_erase fd s6);
          s8 = (if USE_FLOCK (os_cfg s7) then event (E_unlock fd) s7 else s7)
      in (os_close fd s8)\<lparr>tty_fd := -1\<rparr>)"

definition drop_rest :: "app \<Rightarrow> app" where
  "drop_rest s1 =
     (let s2 = set_opts (\<lambda>o'. o'\<lparr>initstring := None\<rparr>) s1;
          s3 = s2\<lparr>tty_q := (tty_q s2)\<lparr>q_buff := []\<rparr>\<rparr>
      in if log_filename (opts s3) \<noteq> None then os_close (log_fd s3) s3 else s3)"

lemma cleanup_parts:
  assumes "0 \<le> tty_fd s"
  shows "cleanup drain nrst hup s =
     drop_rest (let s5 = settle drain (\<not> nrst \<or> hup) s in if nrst then let_go (tty_fd s) s5 else s5)"
  using assms unfolding cleanup_def settle_def let_go_def drop_rest_def Let_def by (simp only: if_True)

lemma settle_aside: "aside (settle drain h s) = aside s"
proof -
  let ?fd = "tty_fd s"
  define s1 where "s1 = (if drain then snd (term_drain ?fd s) else s)"
  define s2 where "s2 = snd (term_flush ?fd s1)"
  define s3 where "s3 = (if flow (opts s2) \<noteq> FC_NONE then snd (term_fake_flush ?fd s2) else s2)"
  define s4 where "s4 = snd (term_set_hupcl ?fd h s3)"
  have "settle drain h s = snd (term_apply ?fd True s4)"
    by (simp add: settle_def Let_def s4_def s3_def s2_def s1_def)
  moreover have "aside s1 = aside s" "aside s2 = aside s1" "aside s3 = aside s2" "aside s4 = aside s3"
    by (simp_all add: s1_def s2_def s3_def s4_def)
  ultimately show ?thesis by simp
qed

lemma let_go_log: "log_fd (let_go fd s) = log_fd s"
proof -
  have "log_fd (snd (term_erase fd t)) = log_fd t" for t :: app by (rule aside_app(4)) simp
  then show ?thesis by (simp add: let_go_def os_close_def Let_def event_def)
qed

lemma settle_held:
  assumes "held (tty_fd s) d o' n s"
  shows "\<exists>o2 t n'. held (tty_fd s) d o2 t (settle drain h s) \<and> dv_tio (os_dev (settle drain h s) d) = to_termios2 n' \<and>
           but_hupcl n' = but_hupcl n \<and> bit (c_cflag n') 10 = h \<and> but_hupcl o2 = but_hupcl o' \<and> bit (c_cflag o2) 10 = h \<and>
           (\<exists>es. os_evs (settle drain h s) = os_evs s @ (if drain then [E_drain (tty_fd s), E_usleep DRAIN_DELAY] else []) @
                   E_flush (tty_fd s) TCIOFLUSH # es)"
proof -
  let ?fd = "tty_fd s"
  define s1 where "s1 = (if drain then snd (term_drain ?fd s) else s)"
  define s2 where "s2 = snd (term_flush ?fd s1)"
  define s3 where "s3 = (if flow (opts s2) \<noteq> FC_NONE then snd (term_fake_flush ?fd s2) else s2)"
  define s4 where "s4 = snd (term_set_hupcl ?fd h s3)"
  have w: "settle drain h s = snd (term_apply ?fd True s4)"
    by (simp add: settle_def Let_def s4_def s3_def s2_def s1_def)
  have 1: "held ?fd d o' n s1" "os_evs s1 = os_evs s @ (if drain then [E_drain ?fd, E_usleep DRAIN_DELAY] else [])"
    using held_drain [OF assms] assms by (simp_all add: s1_def)
  have 2: "held ?fd d o' n s2" "os_evs s2 = os_evs s1 @ [E_flush ?fd TCIOFLUSH]"
    using held_flush [OF 1(1)] by (simp_all add: s2_def)
  have 3: "held ?fd d o' n s3" "\<exists>es. os_evs s3 = os_evs s2 @ es"
    using held_fake_flush [OF 2(1)] 2(1) by (simp_all add: s3_def)
  obtain n' where 4: "held ?fd d o' n' s4" "but_hupcl n' = but_hupcl n" "bit (c_cflag n') 10 = h" "os_evs s4 = os_evs s3"
    using held_set_hupcl [OF 3(1), of h] by (auto simp: s4_def)
  let ?t = "of_termios2 (to_termios2 n')"
  note 5 = held_apply [OF 4(1)]
  have "bit (c_cflag (copy_hupcl ?t o')) 10 = h" using 4(3) by (simp add: copy_hupcl_def flag_ops)
  moreover obtain es where "os_evs (settle drain h s) = os_evs s @ (if drain then [E_drain ?fd, E_usleep DRAIN_DELAY] else []) @
      E_flush ?fd TCIOFLUSH # es"
    using 1(2) 2(2) 3(2) 4(4) 5(3) by (auto simp: w)
  ultimately show ?thesis using 4(2,3) 5(1,2) unfolding w by (intro exI [of _ "copy_hupcl ?t o'"] exI [of _ ?t] exI [of _ n']) auto
qed

lemma drop_rest_sel:
  assumes "log_fd s \<noteq> fd"
  shows "tbl (drop_rest s) = tbl s" "os_fd (drop_rest s) fd = os_fd s fd" "os_faults (drop_rest s) = os_faults s"
    "os_drv (drop_rest s) = os_drv s" "os_dev (drop_rest s) = os_dev s" "os_fd (drop_rest s) g = Some d \<Longrightarrow> os_fd s g = Some d"
    "\<exists>es. os_evs (drop_rest s) = os_evs s @ es"
  using assms by (auto simp: drop_rest_def set_opts_def os_close_def tbl_def Let_def split: if_splits)

text \<open>The exit handler: with the port still managed its original settings are set.\<close>

lemma exit_held:
  assumes "held fd d o' n s" "fd \<noteq> -1"
  shows "dv_tio (os_dev (term_exitfunc s) d) = to_termios2 o'" "os_fd (term_exitfunc s) fd = None"
    "amap (term_exitfunc s) = Map.empty" "\<exists>es. os_evs (term_exitfunc s) = os_evs s @ es"
proof -
  have h: "table_ok s" "term_init s" "os_fd s fd = Some d" "os_faults s = []" "\<And>k. os_drv s d k = k"
    "\<And>g. amap s g \<noteq> None \<Longrightarrow> os_fd s g = Some d \<Longrightarrow> g = fd" using assms(1) by (auto simp: held_def)
  obtain i where i: "slot_of fd s = Some i" "o' = term_orig s ! i" using assms(1) by (auto simp: held_def amap_Some)
  have sl: "slot_fd i s = fd" "i < MAX_TERMS" using slot_ofD [OF i(1)] slot_of_less [OF h(1) i(1)] by auto
  have len: "length (term_fd s) = MAX_TERMS" using h(1) by (simp add: table_ok_def)
  have u: "j = i" if j: "j < length (term_fd s)" "slot_fd j s \<noteq> -1" "os_fd s (slot_fd j s) = Some d" for j
  proof -
    have s: "slot_of (slot_fd j s) s = Some j"
      using slot_of_managed [OF h(1) j(2), of j] h(2) j(1) len by simp
    then have "slot_fd j s = fd" using h(6) [of "slot_fd j s"] j(2,3) by (simp add: amap_def)
    then show "j = i" using s i(1) by simp
  qed
  then have "\<forall>j<length (term_fd s). slot_fd j s \<noteq> -1 \<and> os_fd s (slot_fd j s) = Some d \<longrightarrow> j = i" by blast
  note f = exit_fold_ok [OF h(4) this, of MAX_TERMS]
  have e: "term_exitfunc s = fold exit_slot [0..<MAX_TERMS] s" using h(2) by (simp add: term_exitfunc_def)
  have "fd \<in> set (term_fd s)" using sl len by (metis nth_mem)
  then show "dv_tio (os_dev (term_exitfunc s) d) = to_termios2 o'" "os_fd (term_exitfunc s) fd = None"
    using f sl h(3) assms(2) len unfolding e i(2) by (simp_all add: h(5))
  show "amap (term_exitfunc s) = Map.empty" by (rule exit_all(1) [OF h(1,2)])
  show "\<exists>es. os_evs (term_exitfunc s) = os_evs s @ es"
    using exit_fold_evs [of MAX_TERMS s] h(2) len by (auto simp: term_exitfunc_def)
qed

text \<open>With the port let go nothing is set on it any more.\<close>

definition gone :: "int \<Rightarrow> nat \<Rightarrow> 'a term_lib_scheme \<Rightarrow> bool" where
  "gone fd d s \<longleftrightarrow> table_ok s \<and> term_init s \<and> os_faults s = [] \<and> (\<forall>g. amap s g \<noteq> None \<longrightarrow> os_fd s g \<noteq> Some d) \<and> os_fd s fd = None"

lemma gone_pinfo [simp]: "gone fd d (pinfo t s) = gone fd d s"
  using tbl_amap [OF pinfo_sel(4), of t s] tbl_table_ok [OF pinfo_sel(4), of t s] tbl_eqD(1) [OF pinfo_sel(4), of t s]
  by (simp add: gone_def)

lemma drop_rest_held:
  assumes "held fd d o' n s" "log_fd s \<noteq> fd"
  shows "held fd d o' n (drop_rest s)"
proof -
  note d = drop_rest_sel [OF assms(2)]
  have "amap (drop_rest s) = amap s" "table_ok (drop_rest s) = table_ok s" "term_init (drop_rest s) = term_init s"
    using tbl_amap [OF d(1)] tbl_table_ok [OF d(1)] tbl_eqD(1) [OF d(1)] by simp_all
  then show ?thesis using assms(1) d(2-4,6) unfolding held_def by metis
qed

lemma drop_rest_gone:
  assumes "gone fd d s" "log_fd s \<noteq> fd"
  shows "gone fd d (drop_rest s)"
proof -
  note r = drop_rest_sel [OF assms(2)]
  have "amap (drop_rest s) = amap s" "table_ok (drop_rest s) = table_ok s" "term_init (drop_rest s) = term_init s"
    using tbl_amap [OF r(1)] tbl_table_ok [OF r(1)] tbl_eqD(1) [OF r(1)] by simp_all
  then show ?thesis using assms(1) r(2,3,6) unfolding gone_def by metis
qed

lemma exit_let_go:
  assumes "gone fd d s"
  shows "dv_tio (os_dev (term_exitfunc s) d) = dv_tio (os_dev s d)" "os_fd (term_exitfunc s) fd = None"
    "amap (term_exitfunc s) = Map.empty" "\<exists>es. os_evs (term_exitfunc s) = os_evs s @ es"
proof -
  have h: "table_ok s" "term_init s" "os_faults s = []" "\<And>g. amap s g \<noteq> None \<Longrightarrow> os_fd s g \<noteq> Some d" "os_fd s fd = None"
    using assms by (auto simp: gone_def)
  have len: "length (term_fd s) = MAX_TERMS" using h(1) by (simp add: table_ok_def)
  have u: "j = MAX_TERMS" if j: "j < length (term_fd s)" "slot_fd j s \<noteq> -1" "os_fd s (slot_fd j s) = Some d" for j
    using h(2) h(4) [of "slot_fd j s"] slot_of_managed [OF h(1) j(2), of j] j len by (simp add: amap_def)
  show "dv_tio (os_dev (term_exitfunc s) d) = dv_tio (os_dev s d)" "os_fd (term_exitfunc s) fd = None"
    using exit_fold_ok [where d = d and j = MAX_TERMS and n = MAX_TERMS, OF h(3)] u h(2,5) len
    by (simp_all add: term_exitfunc_def)
  show "amap (term_exitfunc s) = Map.empty" by (rule exit_all(1) [OF h(1,2)])
  show "\<exists>es. os_evs (term_exitfunc s) = os_evs s @ es"
    using exit_fold_evs [of MAX_TERMS s] h(2) len by (auto simp: term_exitfunc_def)
qed

section \<open>Properties\<close>

lemma let_go_ok:
  assumes "held fd d o' n s" "fd \<noteq> -1"
  shows "gone fd d (let_go fd s)" "os_dev (let_go fd s) = os_dev s" "\<exists>es. os_evs (let_go fd s) = os_evs s @ es"
proof -
  let ?p = "pinfo (''Skipping tty reset...'' @ crlf) s"
  have h: "held fd d o' n ?p" using assms(1) by simp
  obtain i where i: "slot_of fd ?p = Some i" using held_slot [OF h] by blast
  note er = erase_ok [OF i]
  let ?e = "set_fd i (-1) ?p"
  have t: "table_ok ?p" "term_init ?p" "os_faults ?p = []" using h by (simp_all add: held_def)
  have e: "table_ok ?e" "amap ?e = (amap ?p)(fd := None)"
    using amap_clear [OF t(1) i] t(1) assms(2) by simp_all
  define l where "l = os_close fd (if USE_FLOCK (os_cfg ?e) then event (E_unlock fd) ?e else ?e)"
  have g: "let_go fd s = l\<lparr>tty_fd := -1\<rparr>" unfolding let_go_def Let_def er snd_conv l_def ..
  have l: "tbl l = tbl ?e" "os_faults l = []" "os_fd l = (os_fd ?p)(fd := None)" "os_dev l = os_dev ?p" "\<exists>es. os_evs l = os_evs ?p @ es"
    using t(3) by (auto simp: l_def os_close_def tbl_def set_fd_def)
  have tl: "tbl (let_go fd s) = tbl ?e" unfolding g using l(1) by (simp add: tbl_def)
  have 1: "table_ok (let_go fd s)" "term_init (let_go fd s)"
    using tbl_table_ok [OF tl] e(1) tbl_eqD(1) [OF tl] t(2) by (simp_all add: set_fd_def)
  have 2: "os_faults (let_go fd s) = []" "os_fd (let_go fd s) fd = None" using l by (simp_all add: g)
  show "os_dev (let_go fd s) = os_dev s" using l by (simp add: g)
  show "\<exists>es. os_evs (let_go fd s) = os_evs s @ es" using l(5) by (simp add: g)
  have "os_fd (let_go fd s) x \<noteq> Some d" if "amap (let_go fd s) x \<noteq> None" for x
    using h tbl_amap [OF tl] e(2) l(3) that by (auto simp: g held_def split: if_splits)
  then show "gone fd d (let_go fd s)" using 1 2 by (simp add: gone_def)
qed


lemma sample_held: "held 3 1 (of_termios2 sample_tio) (of_termios2 sample_tio) sample_app"
proof -
  have u: "g = 3" if "os_fd sample_app g = Some 1" for g
    using that by (simp add: sample_app_def term_lib.extend_def sample_def split: if_splits)
  have i: "term_init sample_app" "os_drv sample_app 1 k = k" for k
    by (simp_all add: sample_app_def term_lib.extend_def sample_def)
  show ?thesis
    unfolding held_def
    by (intro conjI sample_app_terms(1) i allI impI) (use sample_app_terms(2,4) sample_app_sel(5) u in blast)+
qed


end
