(* ===== verification/Ffwd_Server.thy ===== *)
theory Ffwd_Server
  imports Fdio
begin

text \<open>
  The message and control servers: the class \<^verbatim>\<open>ffwd\<close> of \<^verbatim>\<open>src/ppcom/src/ffwd.cpp\<close> with
  \<^verbatim>\<open>SocketServer\<close> and \<^verbatim>\<open>Epoll\<close> of \<^verbatim>\<open>src/libffwd\<close>.  Each server keeps the list of its clients; what one
  client sends is passed on to the others.  The results of \<^verbatim>\<open>socket\<close>, \<^verbatim>\<open>bind\<close>, \<^verbatim>\<open>listen\<close>, \<^verbatim>\<open>accept\<close>
  and \<^verbatim>\<open>epoll_wait\<close> are given from outside; which descriptors are open and which the epoll instance
  watches is part of the state.
\<close>

section \<open>State\<close>

record sock_server =
  server_port :: int
  server_fd :: int
  client_fds :: "int list"

record epoll_st =
  st_index :: int
  st_events :: "32 word"
  st_infd :: int
  st_outfd :: int
  st_data :: bool

text \<open>The callbacks there are; the ones of clients carry the descriptor bound with \<^verbatim>\<open>std::bind\<close>.\<close>

datatype callback = Cb_accept_msg | Cb_accept_ctl | Cb_msg int | Cb_ctl int

record ffwd = os +
  srv_msg :: sock_server
  srv_ctl :: sock_server
  cbs :: "int \<rightharpoonup> callback"
  vec_epoll_st :: "epoll_st list"
  ff_msgfd :: int
  ff_ctlfd :: int
  fd_open :: "int set"
  fd_watched :: "int set"
  ff_stack :: "byte list"

text \<open>An exception that nothing catches, or behaviour the language does not define.\<close>

datatype ff_halt = Threw string | Undef

type_synonym 'r fprog = "ffwd \<Rightarrow> ff_halt + 'r \<times> ffwd"

definition bindf :: "'r fprog \<Rightarrow> ('r \<Rightarrow> 'q fprog) \<Rightarrow> 'q fprog" where
  "bindf m f s = (case m s of Inl h \<Rightarrow> Inl h | Inr (r, s') \<Rightarrow> f r s')"

definition SRV_PORT :: int where "SRV_PORT = 9800"
definition SRV_BUF :: nat where "SRV_BUF = 1024"
definition EPOLLIN :: "32 word" where "EPOLLIN = 1"

definition new_server :: "int \<Rightarrow> sock_server" where
  "new_server p = \<lparr>server_port = p, server_fd = -1, client_fds = []\<rparr>"

text \<open>A closed descriptor is no longer watched.\<close>

definition ff_close :: "int \<Rightarrow> ffwd \<Rightarrow> ffwd" where
  "ff_close fd s = (os_close fd s)\<lparr>fd_open := fd_open s - {fd}, fd_watched := fd_watched s - {fd}\<rparr>"

section \<open>The servers' sockets\<close>

datatype start_env = Sock_fail | Bind_fail int | Listen_fail int | Listening int

text \<open>\<^verbatim>\<open>SocketServer::start\<close>; after a failing \<^verbatim>\<open>bind\<close> or \<^verbatim>\<open>listen\<close> the closed descriptor stays in place.\<close>

definition sv_start :: "start_env \<Rightarrow> sock_server \<Rightarrow> ffwd \<Rightarrow> (bool \<times> sock_server) \<times> ffwd" where
  "sv_start e sv s =
     (case e of
        Sock_fail \<Rightarrow> ((False, sv\<lparr>server_fd := -1\<rparr>), s)
      | Bind_fail fd \<Rightarrow> ((False, sv\<lparr>server_fd := fd\<rparr>), ff_close fd (s\<lparr>fd_open := insert fd (fd_open s)\<rparr>))
      | Listen_fail fd \<Rightarrow> ((False, sv\<lparr>server_fd := fd\<rparr>), ff_close fd (s\<lparr>fd_open := insert fd (fd_open s)\<rparr>))
      | Listening fd \<Rightarrow> ((True, sv\<lparr>server_fd := fd\<rparr>), s\<lparr>fd_open := insert fd (fd_open s)\<rparr>))"

definition sv_stop :: "sock_server \<Rightarrow> ffwd \<Rightarrow> sock_server \<times> ffwd" where
  "sv_stop sv s =
     (if server_fd sv \<ge> 0 then (sv\<lparr>server_fd := -1\<rparr>, ff_close (server_fd sv) s) else (sv, s))"

text \<open>\<^verbatim>\<open>acceptClient\<close>: -1 when \<^verbatim>\<open>accept\<close> fails (\<open>None\<close>).\<close>

definition sv_accept :: "int option \<Rightarrow> sock_server \<Rightarrow> ffwd \<Rightarrow> (int \<times> sock_server) \<times> ffwd" where
  "sv_accept r sv s =
     (case r of
        None \<Rightarrow> ((-1, sv), s)
      | Some fd \<Rightarrow> ((fd, sv\<lparr>client_fds := client_fds sv @ [fd]\<rparr>), s\<lparr>fd_open := insert fd (fd_open s)\<rparr>))"

text \<open>\<^verbatim>\<open>removeClient\<close> takes the first such client out; without one it runs off its end with no value.\<close>

definition sv_remove :: "int \<Rightarrow> sock_server \<Rightarrow> ffwd \<Rightarrow> ff_halt + (int \<times> sock_server) \<times> ffwd" where
  "sv_remove fd sv s =
     (if fd \<in> set (client_fds sv) then
        Inr ((0, sv\<lparr>client_fds := remove1 fd (client_fds sv)\<rparr>), ff_close fd s)
      else Inl Undef)"

section \<open>Epoll\<close>

definition ep_add :: "int \<Rightarrow> 32 word \<Rightarrow> callback \<Rightarrow> unit fprog" where
  "ep_add fd ev cb s =
     (if fd \<notin> fd_open s \<or> fd \<in> fd_watched s then Inl (Threw ''Failed to add file descriptor to epoll'')
      else Inr ((), s\<lparr>fd_watched := insert fd (fd_watched s),
                      vec_epoll_st := vec_epoll_st s @
                        [\<lparr>st_index = fd, st_events = ev, st_infd = fd, st_outfd = -1, st_data = False\<rparr>],
                      cbs := (cbs s)(fd \<mapsto> cb)\<rparr>))"

text \<open>A failing \<^verbatim>\<open>epoll_ctl\<close> in \<^verbatim>\<open>remove\<close> throws and is caught; the callback is removed all the same.\<close>

definition ep_remove :: "int \<Rightarrow> ffwd \<Rightarrow> ffwd" where
  "ep_remove fd s = s\<lparr>fd_watched := fd_watched s - {fd}, cbs := (cbs s)(fd := None)\<rparr>"

fun st_by_fd :: "epoll_st list \<Rightarrow> int \<Rightarrow> epoll_st option" where
  "st_by_fd [] fd = None"
| "st_by_fd (x # xs) fd = (if st_infd x = fd then Some x else st_by_fd xs fd)"

section \<open>Passing on\<close>

text \<open>
  The loop over the clients: the two ends of the program's own connection and the sender are left
  out; results of \<^verbatim>\<open>write\<close> are not looked at.
\<close>

fun pass_on :: "int \<Rightarrow> int \<Rightarrow> byte list \<Rightarrow> int list \<Rightarrow> ffwd \<Rightarrow> ffwd" where
  "pass_on own fd txt [] s = s"
| "pass_on own fd txt (c # cs) s =
     (if c = own \<or> c = fd then pass_on own fd txt cs s
      else if c > 0 then pass_on own fd txt cs (snd (os_write c txt s))
      else pass_on own fd txt cs s)"

text \<open>The text of a buffer ends at its first NUL.\<close>

definition c_text :: "byte list \<Rightarrow> byte list" where
  "c_text bs = takeWhile (\<lambda>b. b \<noteq> EOS) bs"

text \<open>
  What a callback reads: the text to pass on and whether the client is still there.  A full buffer
  has no room for the NUL; after a failing read or at the end the buffer is whatever is on the stack.
\<close>

definition srv_read :: "int \<Rightarrow> ffwd \<Rightarrow> ff_halt + (bool \<times> byte list) \<times> ffwd" where
  "srv_read fd s =
     (case os_read fd SRV_BUF s of
        (Inr bs, s') \<Rightarrow>
          if bs = [] then Inr ((False, c_text (ff_stack s')), s')
          else if length bs = SRV_BUF then Inl Undef
          else Inr ((True, c_text bs), s')
      | (Inl e, s') \<Rightarrow> Inr ((False, c_text (ff_stack s')), s'))"

definition callback_msg :: "int \<Rightarrow> unit fprog" where
  "callback_msg fd =
     bindf (srv_read fd) (\<lambda>(there, txt).
     bindf (\<lambda>s. if there then Inr ((), s)
                else (case sv_remove fd (srv_msg s) s of
                        Inl h \<Rightarrow> Inl h
                      | Inr ((_, sv), s1) \<Rightarrow> Inr ((), ep_remove fd (ff_close fd (s1\<lparr>srv_msg := sv\<rparr>))))) (\<lambda>_ s.
     Inr ((), pass_on (ff_msgfd s) fd txt (client_fds (srv_msg s)) s)))"

definition callback_ctl :: "int \<Rightarrow> unit fprog" where
  "callback_ctl fd =
     bindf (srv_read fd) (\<lambda>(there, txt).
     bindf (\<lambda>s. if there then Inr ((), s)
                else (case sv_remove fd (srv_ctl s) s of
                        Inl h \<Rightarrow> Inl h
                      | Inr ((_, sv), s1) \<Rightarrow> Inr ((), ep_remove fd (ff_close fd (s1\<lparr>srv_ctl := sv\<rparr>))))) (\<lambda>_ s.
     Inr ((), pass_on (ff_ctlfd s) fd txt (client_fds (srv_ctl s)) s)))"

text \<open>The callbacks of the listening sockets.\<close>

definition accept_msg :: "int option \<Rightarrow> unit fprog" where
  "accept_msg r s =
     (case sv_accept r (srv_msg s) s of
        ((fd, sv), s1) \<Rightarrow>
          (let s2 = s1\<lparr>srv_msg := sv\<rparr> in
           if fd \<noteq> -1 then ep_add fd EPOLLIN (Cb_msg fd) s2 else Inr ((), s2)))"

definition accept_ctl :: "int option \<Rightarrow> unit fprog" where
  "accept_ctl r s =
     (case sv_accept r (srv_ctl s) s of
        ((fd, sv), s1) \<Rightarrow>
          (let s2 = s1\<lparr>srv_ctl := sv\<rparr> in
           if fd \<noteq> -1 then ep_add fd EPOLLIN (Cb_ctl fd) s2 else Inr ((), s2)))"

section \<open>The server thread\<close>

text \<open>
  One ready descriptor: whether it is readable, and what \<^verbatim>\<open>accept\<close> would return on it.
\<close>

record ep_event =
  ev_fd :: int
  ev_in :: bool
  ev_accept :: "int option"

definition run_cb :: "callback \<Rightarrow> int option \<Rightarrow> unit fprog" where
  "run_cb cb acc =
     (case cb of
        Cb_accept_msg \<Rightarrow> accept_msg acc
      | Cb_accept_ctl \<Rightarrow> accept_ctl acc
      | Cb_msg fd \<Rightarrow> callback_msg fd
      | Cb_ctl fd \<Rightarrow> callback_ctl fd)"

fun ep_wait :: "ep_event list \<Rightarrow> int list fprog" where
  "ep_wait [] s = Inr ([], s)"
| "ep_wait (e # es) s =
     (if \<not> ev_in e then ep_wait es s
      else
        bindf (\<lambda>s.
          case cbs s (ev_fd e) of
            None \<Rightarrow> Inr ((), s)
          | Some cb \<Rightarrow>
              (case st_by_fd (vec_epoll_st s) (ev_fd e) of
                 None \<Rightarrow> Inr ((), s)
               | Some st \<Rightarrow> run_cb cb (ev_accept e) s)) (\<lambda>_.
        bindf (ep_wait es) (\<lambda>fds s. Inr (ev_fd e # fds, s))) s)"

text \<open>The thread: one list of ready descriptors per round of its endless loop.\<close>

fun srv_thread :: "ep_event list list \<Rightarrow> unit fprog" where
  "srv_thread [] s = Inr ((), s)"
| "srv_thread (b # bs) s = bindf (ep_wait b) (\<lambda>_. srv_thread bs) s"

section \<open>Start and stop\<close>

definition start_srv :: "start_env \<Rightarrow> start_env \<Rightarrow> unit fprog" where
  "start_srv em ec s =
     (case sv_start em (srv_msg s) s of
        ((_, svm), s1) \<Rightarrow>
     (case sv_start ec (srv_ctl s1) (s1\<lparr>srv_msg := svm\<rparr>) of
        ((_, svc), s2) \<Rightarrow>
          bindf (ep_add (server_fd svm) EPOLLIN Cb_accept_msg) (\<lambda>_.
          ep_add (server_fd svc) EPOLLIN Cb_accept_ctl) (s2\<lparr>srv_ctl := svc\<rparr>)))"

definition stop_srv :: "ffwd \<Rightarrow> ffwd" where
  "stop_srv s =
     (case sv_stop (srv_ctl s) s of
        (svc, s1) \<Rightarrow>
     (case sv_stop (srv_msg s1) (s1\<lparr>srv_ctl := svc\<rparr>) of
        (svm, s2) \<Rightarrow> s2\<lparr>srv_msg := svm\<rparr>))"

end
