(* ===== verification/Ffwd_Props.thy ===== *)
theory Ffwd_Props
  imports Ffwd_Server Main_Loop
begin

text \<open>
  The properties of the servers: who gets what, the invariant of the tables, the ways out of defined
  behaviour.
\<close>

section \<open>Passing on\<close>

lemma bindf_Inr: "bindf m f s = Inr (r, s') \<longleftrightarrow> (\<exists>q s1. m s = Inr (q, s1) \<and> f q s1 = Inr (r, s'))"
  by (auto simp: bindf_def split: sum.splits prod.splits)

text \<open>Everything but the output, the write script and the error code.\<close>

definition srv_part :: "ffwd \<Rightarrow> sock_server \<times> sock_server \<times> (int \<rightharpoonup> callback) \<times> epoll_st list \<times> int set" where
  "srv_part s = (srv_msg s, srv_ctl s, cbs s, vec_epoll_st s, fd_watched s)"

lemma os_write_srv:
  "os.more (snd (os_write c t s)) = os.more s" "os_in (snd (os_write c t s)) = os_in s"
  by (simp_all add: os_write_def Let_def split: list.split)

lemma ffwd_more:
  fixes s :: ffwd
  assumes "os.more s' = os.more s"
  shows "srv_part s' = srv_part s" "fd_open s' = fd_open s" "ff_msgfd s' = ff_msgfd s" "ff_ctlfd s' = ff_ctlfd s"
    "ff_stack s' = ff_stack s"
  using assms by (cases s; cases s'; simp add: srv_part_def)+

lemma pass_on_more: "os.more (pass_on own fd t cs s) = os.more s \<and> os_in (pass_on own fd t cs s) = os_in s"
  by (induction own fd t cs s rule: pass_on.induct) (simp_all add: os_write_srv)

lemma pass_on_part:
  "srv_part (pass_on own fd t cs s) = srv_part s" "fd_open (pass_on own fd t cs s) = fd_open s"
  by (rule ffwd_more [OF pass_on_more [THEN conjunct1]])+

lemma pass_on_out:
  "os_wres s = [] \<Longrightarrow> distinct cs \<Longrightarrow>
     os_out (pass_on own fd t cs s) g =
       os_out s g @ (if g \<in> set cs \<and> g \<noteq> own \<and> g \<noteq> fd \<and> 0 < g then t else [])"
proof (induction own fd t cs s rule: pass_on.induct)
  case (2 own fd t c cs s)
  have w: "os_write c t s = (int (length t), os_put c t s)" using 2(4) by (simp add: os_write_def)
  show ?case
  proof (cases "c = own \<or> c = fd")
    case True
    then show ?thesis using 2(1) [OF True 2(4)] 2(5) by auto
  next
    case False
    show ?thesis
    proof (cases "0 < c")
      case True
      have "os_wres (snd (os_write c t s)) = []" using w 2(4) by (simp add: os_put_def)
      from 2(2) [OF False True this] show ?thesis using False True 2(5) w by auto
    next
      case neg: False
      from 2(3) [OF False neg 2(4)] show ?thesis using False neg 2(5) by auto
    qed
  qed
qed simp

section \<open>The tables\<close>

text \<open>
  Each client is in one list, once, is open and watched, and has the callback of its server; every
  callback belongs to a watched descriptor; a callback of a client belongs to a client.
\<close>

definition srv_ok :: "ffwd \<Rightarrow> bool" where
  "srv_ok s \<longleftrightarrow>
     distinct (client_fds (srv_msg s) @ client_fds (srv_ctl s)) \<and>
     fd_watched s \<subseteq> fd_open s \<and> dom (cbs s) = fd_watched s \<and>
     (\<forall>fd. fd \<in> set (client_fds (srv_msg s)) \<longleftrightarrow> cbs s fd = Some (Cb_msg fd)) \<and>
     (\<forall>fd. fd \<in> set (client_fds (srv_ctl s)) \<longleftrightarrow> cbs s fd = Some (Cb_ctl fd)) \<and>
     (\<forall>fd g. cbs s fd = Some (Cb_msg g) \<or> cbs s fd = Some (Cb_ctl g) \<longrightarrow> g = fd) \<and>
     (\<forall>fd\<in>fd_watched s. st_by_fd (vec_epoll_st s) fd \<noteq> None)"

lemma srv_ok_part: "srv_part s' = srv_part s \<Longrightarrow> fd_watched s \<subseteq> fd_open s' \<Longrightarrow> srv_ok s \<Longrightarrow> srv_ok s'"
  by (simp add: srv_part_def srv_ok_def)

lemma st_by_fd_append: "st_by_fd (xs @ ys) fd = (case st_by_fd xs fd of None \<Rightarrow> st_by_fd ys fd | Some x \<Rightarrow> Some x)"
  by (induction xs) auto

lemma accept_msg_ok:
  assumes "srv_ok s" "\<And>fd. r = Some fd \<Longrightarrow> 0 \<le> fd \<and> fd \<notin> fd_open s"
  shows "\<exists>s'. accept_msg r s = Inr ((), s') \<and> srv_ok s' \<and>
           client_fds (srv_msg s') = client_fds (srv_msg s) @ (case r of None \<Rightarrow> [] | Some fd \<Rightarrow> [fd]) \<and> srv_ctl s' = srv_ctl s"
proof (cases r)
  case None
  then show ?thesis using assms(1) by (simp add: accept_msg_def sv_accept_def Let_def srv_ok_def)
next
  case (Some fd)
  then have f: "fd \<noteq> -1" "fd \<notin> fd_open s" "fd \<notin> fd_watched s" "cbs s fd = None"
    using assms by (auto simp: srv_ok_def)
  show ?thesis
    using assms(1) f Some
    by (simp add: accept_msg_def sv_accept_def ep_add_def Let_def)
       (auto simp: srv_ok_def st_by_fd_append split: option.split if_splits)
qed

lemma accept_ctl_ok:
  assumes "srv_ok s" "\<And>fd. r = Some fd \<Longrightarrow> 0 \<le> fd \<and> fd \<notin> fd_open s"
  shows "\<exists>s'. accept_ctl r s = Inr ((), s') \<and> srv_ok s' \<and>
           client_fds (srv_ctl s') = client_fds (srv_ctl s) @ (case r of None \<Rightarrow> [] | Some fd \<Rightarrow> [fd]) \<and> srv_msg s' = srv_msg s"
proof (cases r)
  case None
  then show ?thesis using assms(1) by (simp add: accept_ctl_def sv_accept_def Let_def srv_ok_def)
next
  case (Some fd)
  then have f: "fd \<noteq> -1" "fd \<notin> fd_open s" "fd \<notin> fd_watched s" "cbs s fd = None"
    using assms by (auto simp: srv_ok_def)
  show ?thesis
    using assms(1) f Some
    by (simp add: accept_ctl_def sv_accept_def ep_add_def Let_def)
       (auto simp: srv_ok_def st_by_fd_append split: option.split if_splits)
qed

text \<open>A client that leaves.\<close>

lemma close_sel [simp]:
  "srv_msg (ff_close fd s) = srv_msg s" "srv_ctl (ff_close fd s) = srv_ctl s" "cbs (ff_close fd s) = cbs s"
  "vec_epoll_st (ff_close fd s) = vec_epoll_st s" "ff_msgfd (ff_close fd s) = ff_msgfd s" "ff_ctlfd (ff_close fd s) = ff_ctlfd s"
  "fd_open (ff_close fd s) = fd_open s - {fd}" "fd_watched (ff_close fd s) = fd_watched s - {fd}"
  "os_out (ff_close fd s) = os_out s" "os_in (ff_close fd s) = os_in s" "os_wres (ff_close fd s) = os_wres s"
  by (simp_all add: ff_close_def os_close_def event_def)

lemma leave_msg_ok:
  assumes "srv_ok s" "fd \<in> set (client_fds (srv_msg s))"
  shows "srv_ok (ep_remove fd (ff_close fd ((ff_close fd s)\<lparr>srv_msg := srv_msg s\<lparr>client_fds := remove1 fd (client_fds (srv_msg s))\<rparr>\<rparr>)))"
proof -
  have d: "distinct (client_fds (srv_msg s))" "fd \<notin> set (client_fds (srv_ctl s))" using assms by (auto simp: srv_ok_def)
  have r: "set (remove1 fd (client_fds (srv_msg s))) = set (client_fds (srv_msg s)) - {fd}"
    using d(1) by (rule set_remove1_eq)
  show ?thesis using assms(1) d r unfolding srv_ok_def ep_remove_def
    by (auto simp: distinct_remove1)
qed

lemma leave_ctl_ok:
  assumes "srv_ok s" "fd \<in> set (client_fds (srv_ctl s))"
  shows "srv_ok (ep_remove fd (ff_close fd ((ff_close fd s)\<lparr>srv_ctl := srv_ctl s\<lparr>client_fds := remove1 fd (client_fds (srv_ctl s))\<rparr>\<rparr>)))"
proof -
  have d: "distinct (client_fds (srv_ctl s))" "fd \<notin> set (client_fds (srv_msg s))" using assms by (auto simp: srv_ok_def)
  have r: "set (remove1 fd (client_fds (srv_ctl s))) = set (client_fds (srv_ctl s)) - {fd}"
    using d(1) by (rule set_remove1_eq)
  show ?thesis using assms(1) d r unfolding srv_ok_def ep_remove_def
    by (auto simp: distinct_remove1)
qed

section \<open>The two kinds of clients, in one\<close>

definition own_end :: "callback \<Rightarrow> ffwd \<Rightarrow> int" where
  "own_end cb s = (case cb of Cb_ctl _ \<Rightarrow> ff_ctlfd s | _ \<Rightarrow> ff_msgfd s)"

definition clients_of :: "callback \<Rightarrow> ffwd \<Rightarrow> int list" where
  "clients_of cb s = (case cb of Cb_ctl _ \<Rightarrow> client_fds (srv_ctl s) | _ \<Rightarrow> client_fds (srv_msg s))"

definition is_client :: "callback \<Rightarrow> bool" where
  "is_client cb = (case cb of Cb_msg _ \<Rightarrow> True | Cb_ctl _ \<Rightarrow> True | _ \<Rightarrow> False)"

text \<open>\<open>t\<close> went to every client of the same server but the sender and the program's own.\<close>

definition passed :: "callback \<Rightarrow> int \<Rightarrow> byte list \<Rightarrow> ffwd \<Rightarrow> ffwd \<Rightarrow> bool" where
  "passed cb fd t s s' \<longleftrightarrow>
     (\<forall>g. os_out s' g = os_out s g @ (if g \<in> set (clients_of cb s) \<and> g \<noteq> own_end cb s \<and> g \<noteq> fd \<and> 0 < g then t else []))"

lemma os_read_ffwd:
  "os.more (snd (os_read fd n s)) = os.more s" "os_out (snd (os_read fd n s)) = os_out s"
  "os_wres (snd (os_read fd n s)) = os_wres s"
  by (simp_all add: os_read_def split: list.split rd.split)

lemma srv_read_cases:
  assumes "srv_read fd s = Inr ((there, t), s1)"
  shows "os.more s1 = os.more s" "os_out s1 = os_out s" "os_wres s1 = os_wres s"
proof -
  obtain r s2 where r: "os_read fd SRV_BUF s = (r, s2)" by fastforce
  have "s1 = s2" using assms r by (auto simp: srv_read_def split: sum.splits if_splits)
  then show "os.more s1 = os.more s" "os_out s1 = os_out s" "os_wres s1 = os_wres s"
    using os_read_ffwd [of fd SRV_BUF s] r by simp_all
qed

text \<open>A callback of a client, whichever: it reads, and the client stays or leaves.\<close>

lemma client_cb:
  assumes ok: "srv_ok s" and cb: "cbs s fd = Some cb" "is_client cb"
    and r: "srv_read fd s = Inr ((there, t), s1)"
  shows "\<exists>s'. run_cb cb acc s = Inr ((), s') \<and> srv_ok s' \<and>
           set (clients_of cb s') = (if there then set (clients_of cb s) else set (clients_of cb s) - {fd}) \<and>
           (cbs s' fd = None \<longleftrightarrow> \<not> there) \<and> (os_wres s = [] \<longrightarrow> passed cb fd t s s')"
proof -
  note m = srv_read_cases [OF r]
  note p = ffwd_more [OF m(1)]
  have ok1: "srv_ok s1" using srv_ok_part [OF p(1) _ ok] p(2) ok by (simp add: srv_ok_def)
  note sel = p(1) [unfolded srv_part_def, simplified]
  consider (msg) "cb = Cb_msg fd" | (ctl) "cb = Cb_ctl fd"
    using cb ok by (cases cb) (auto simp: is_client_def srv_ok_def)
  then show ?thesis
  proof cases
    case msg
    have mem: "fd \<in> set (client_fds (srv_msg s1))" using ok cb(1) msg sel by (auto simp: srv_ok_def)
    define s2 where "s2 = (if there then s1 else
      ep_remove fd (ff_close fd ((ff_close fd s1)\<lparr>srv_msg := srv_msg s1\<lparr>client_fds := remove1 fd (client_fds (srv_msg s1))\<rparr>\<rparr>)))"
    have ok2: "srv_ok s2" using ok1 leave_msg_ok [OF ok1 mem] by (simp add: s2_def)
    have run: "run_cb cb acc s = Inr ((), pass_on (ff_msgfd s2) fd t (client_fds (srv_msg s2)) s2)"
      using r mem msg by (simp add: run_cb_def callback_msg_def bindf_def sv_remove_def s2_def)
    have d1: "distinct (client_fds (srv_msg s1))" using ok1 by (simp add: srv_ok_def)
    have c2: "set (client_fds (srv_msg s2)) = (if there then set (client_fds (srv_msg s)) else set (client_fds (srv_msg s)) - {fd})"
      "distinct (client_fds (srv_msg s2))" "ff_msgfd s2 = ff_msgfd s" "os_out s2 = os_out s" "os_wres s2 = os_wres s"
      "(cbs s2 fd = None) = (\<not> there)"
      using d1 sel p(3) m cb(1) by (auto simp: s2_def ep_remove_def set_remove1_eq distinct_remove1)
    let ?s' = "pass_on (ff_msgfd s2) fd t (client_fds (srv_msg s2)) s2"
    note q = pass_on_part [of "ff_msgfd s2" fd t "client_fds (srv_msg s2)" s2]
    note q1 = q(1) [unfolded srv_part_def, simplified]
    have "srv_ok ?s'" using srv_ok_part [OF q(1) _ ok2] q(2) ok2 by (simp add: srv_ok_def)
    moreover have "os_wres s = [] \<Longrightarrow> passed cb fd t s ?s'"
      using pass_on_out [OF _ c2(2), where s = s2 and own = "ff_msgfd s2" and fd = fd and t = t] c2 msg by (auto simp: passed_def clients_of_def own_end_def)
    ultimately show ?thesis using run c2 q1 msg by (intro exI [of _ ?s']) (simp add: clients_of_def)
  next
    case ctl
    have mem: "fd \<in> set (client_fds (srv_ctl s1))" using ok cb(1) ctl sel by (auto simp: srv_ok_def)
    define s2 where "s2 = (if there then s1 else
      ep_remove fd (ff_close fd ((ff_close fd s1)\<lparr>srv_ctl := srv_ctl s1\<lparr>client_fds := remove1 fd (client_fds (srv_ctl s1))\<rparr>\<rparr>)))"
    have ok2: "srv_ok s2" using ok1 leave_ctl_ok [OF ok1 mem] by (simp add: s2_def)
    have run: "run_cb cb acc s = Inr ((), pass_on (ff_ctlfd s2) fd t (client_fds (srv_ctl s2)) s2)"
      using r mem ctl by (simp add: run_cb_def callback_ctl_def bindf_def sv_remove_def s2_def)
    have d1: "distinct (client_fds (srv_ctl s1))" using ok1 by (simp add: srv_ok_def)
    have c2: "set (client_fds (srv_ctl s2)) = (if there then set (client_fds (srv_ctl s)) else set (client_fds (srv_ctl s)) - {fd})"
      "distinct (client_fds (srv_ctl s2))" "ff_ctlfd s2 = ff_ctlfd s" "os_out s2 = os_out s" "os_wres s2 = os_wres s"
      "(cbs s2 fd = None) = (\<not> there)"
      using d1 sel p(4) m cb(1) by (auto simp: s2_def ep_remove_def set_remove1_eq distinct_remove1)
    let ?s' = "pass_on (ff_ctlfd s2) fd t (client_fds (srv_ctl s2)) s2"
    note q = pass_on_part [of "ff_ctlfd s2" fd t "client_fds (srv_ctl s2)" s2]
    note q1 = q(1) [unfolded srv_part_def, simplified]
    have "srv_ok ?s'" using srv_ok_part [OF q(1) _ ok2] q(2) ok2 by (simp add: srv_ok_def)
    moreover have "os_wres s = [] \<Longrightarrow> passed cb fd t s ?s'"
      using pass_on_out [OF _ c2(2), where s = s2 and own = "ff_ctlfd s2" and fd = fd and t = t] c2 ctl by (auto simp: passed_def clients_of_def own_end_def)
    ultimately show ?thesis using run c2 q1 ctl by (intro exI [of _ ?s']) (simp add: clients_of_def)
  qed
qed

text \<open>What a callback does when it does not return.\<close>

lemma run_cb_out:
  assumes ok: "srv_ok s" and cb: "cbs s fd = Some cb" and fresh: "\<And>g. acc = Some g \<Longrightarrow> 0 \<le> g \<and> g \<notin> fd_open s"
  shows "case run_cb cb acc s of
           Inl h \<Rightarrow> h = Undef \<and> is_client cb \<and> (\<exists>bs rest. os_in s fd = RdData bs # rest \<and> SRV_BUF \<le> length bs)
         | Inr (_, s') \<Rightarrow> srv_ok s' \<and> \<not> (is_client cb \<and> (\<exists>bs rest. os_in s fd = RdData bs # rest \<and> SRV_BUF \<le> length bs))"
proof (cases "is_client cb")
  case True
  show ?thesis
  proof (cases "\<exists>bs rest. os_in s fd = RdData bs # rest \<and> SRV_BUF \<le> length bs")
    case full: True
    then obtain bs rest where "os_in s fd = RdData bs # rest" "SRV_BUF \<le> length bs" by blast
    then have "srv_read fd s = Inl Undef"
      by (auto simp: srv_read_def os_read_def SRV_BUF_def)
    moreover have "cb = Cb_msg fd \<or> cb = Cb_ctl fd" using ok cb True by (cases cb) (auto simp: is_client_def srv_ok_def)
    ultimately have "run_cb cb acc s = Inl Undef"
      by (auto simp: run_cb_def callback_msg_def callback_ctl_def bindf_def)
    then show ?thesis using True full by simp
  next
    case False
    have "\<exists>x s1. srv_read fd s = Inr (x, s1)"
      using False by (fastforce simp: srv_read_def os_read_def split: list.split rd.split)
    then obtain there t s1 where "srv_read fd s = Inr ((there, t), s1)" by auto
    from client_cb [OF ok cb True this, of acc] show ?thesis using False by auto
  qed
next
  case False
  then consider "cb = Cb_accept_msg" | "cb = Cb_accept_ctl" by (cases cb) (auto simp: is_client_def)
  moreover obtain s1 where "accept_msg acc s = Inr ((), s1)" "srv_ok s1" using accept_msg_ok [OF ok, of acc] fresh by blast
  moreover obtain s2 where "accept_ctl acc s = Inr ((), s2)" "srv_ok s2" using accept_ctl_ok [OF ok, of acc] fresh by blast
  ultimately show ?thesis using False by cases (simp_all add: run_cb_def)
qed

section \<open>Reachable states\<close>

text \<open>
  The steps: a callback of a watched descriptor, with \<^verbatim>\<open>accept\<close> giving a descriptor that was not open;
  and whatever the rest of the process and the outside do that is not about the servers.
\<close>

inductive srv_step :: "ffwd \<Rightarrow> ffwd \<Rightarrow> bool" where
  ss_event: "cbs s fd = Some cb \<Longrightarrow> (\<And>g. acc = Some g \<Longrightarrow> 0 \<le> g \<and> g \<notin> fd_open s) \<Longrightarrow>
    run_cb cb acc s = Inr ((), s') \<Longrightarrow> srv_step s s'"
| ss_env: "srv_part s' = srv_part s \<Longrightarrow> fd_watched s \<subseteq> fd_open s' \<Longrightarrow> srv_step s s'"

text \<open>The state the constructor leaves, and outcomes of \<^verbatim>\<open>socket\<close> the system can give.\<close>

definition srv_new :: "ffwd \<Rightarrow> bool" where
  "srv_new s \<longleftrightarrow>
     srv_msg s = new_server SRV_PORT \<and> srv_ctl s = new_server (SRV_PORT + 1) \<and> cbs s = Map.empty \<and>
     vec_epoll_st s = [] \<and> fd_watched s = {} \<and> -1 \<notin> fd_open s"

definition env_fds :: "start_env \<Rightarrow> int list" where
  "env_fds e = (case e of Sock_fail \<Rightarrow> [] | Bind_fail fd \<Rightarrow> [fd] | Listen_fail fd \<Rightarrow> [fd] | Listening fd \<Rightarrow> [fd])"

definition start_legal :: "start_env \<Rightarrow> start_env \<Rightarrow> ffwd \<Rightarrow> bool" where
  "start_legal em ec s \<longleftrightarrow>
     (\<forall>fd\<in>set (env_fds em @ env_fds ec). 0 \<le> fd \<and> fd \<notin> fd_open s) \<and>
     (case em of Listening fd \<Rightarrow> fd \<notin> set (env_fds ec) | _ \<Rightarrow> True)"

inductive srv_reach :: "ffwd \<Rightarrow> bool" where
  sr_start: "srv_new s0 \<Longrightarrow> start_legal em ec s0 \<Longrightarrow> start_srv em ec s0 = Inr ((), s) \<Longrightarrow> srv_reach s"
| sr_step: "srv_reach s \<Longrightarrow> srv_step s s' \<Longrightarrow> srv_reach s'"

definition listening :: "start_env \<Rightarrow> bool" where
  "listening e = (case e of Listening _ \<Rightarrow> True | _ \<Rightarrow> False)"

lemma start_result:
  assumes "srv_new s" "start_legal em ec s"
  shows "if listening em \<and> listening ec then \<exists>s'. start_srv em ec s = Inr ((), s') \<and> srv_ok s'
         else start_srv em ec s = Inl (Threw ''Failed to add file descriptor to epoll'')"
  using assms
  by (cases em; cases ec)
     (auto simp: start_srv_def sv_start_def ep_add_def bindf_def srv_new_def start_legal_def env_fds_def listening_def
       new_server_def srv_ok_def ff_close_def os_close_def event_def)

lemma reach_srv_ok: "srv_reach s \<Longrightarrow> srv_ok s"
proof (induction rule: srv_reach.induct)
  case (sr_start s0 em ec s)
  then show ?case using start_result [OF sr_start(1,2)] by (auto split: if_splits)
next
  case (sr_step s s')
  show ?case
    using sr_step(2)
  proof cases
    case (ss_event fd cb acc)
    then show ?thesis using run_cb_out [OF sr_step(3) ss_event(1), of acc] by auto
  next
    case ss_env
    then show ?thesis using srv_ok_part [OF _ _ sr_step(3)] by blast
  qed
qed

section \<open>Properties\<close>


text \<open>A message server with the clients 7, 8 and 9, and the control server with none.\<close>

definition sample_srv :: ffwd where
  "sample_srv = os.extend sample_os
     \<lparr>srv_msg = \<lparr>server_port = 9800, server_fd = 4, client_fds = [7, 8, 9]\<rparr>,
      srv_ctl = \<lparr>server_port = 9801, server_fd = 5, client_fds = []\<rparr>,
      cbs = [4 \<mapsto> Cb_accept_msg, 5 \<mapsto> Cb_accept_ctl, 7 \<mapsto> Cb_msg 7, 8 \<mapsto> Cb_msg 8, 9 \<mapsto> Cb_msg 9],
      vec_epoll_st = List.map (\<lambda>fd. \<lparr>st_index = fd, st_events = EPOLLIN, st_infd = fd, st_outfd = -1, st_data = False\<rparr>) [4, 5, 7, 8, 9],
      ff_msgfd = 6, ff_ctlfd = 10, fd_open = {0, 1, 2, 3, 4, 5, 6, 7, 8, 9, 10}, fd_watched = {4, 5, 7, 8, 9}, ff_stack = ''junk''\<rparr>
     \<lparr>os_wres := []\<rparr>"

lemma sample_srv_sel:
  "cbs sample_srv = [4 \<mapsto> Cb_accept_msg, 5 \<mapsto> Cb_accept_ctl, 7 \<mapsto> Cb_msg 7, 8 \<mapsto> Cb_msg 8, 9 \<mapsto> Cb_msg 9]"
  "client_fds (srv_msg sample_srv) = [7, 8, 9]" "client_fds (srv_ctl sample_srv) = []" "os_wres sample_srv = []"
  "os_in sample_srv fd = [RdData ''ab'', RdData [DEL, CR]]" "ff_msgfd sample_srv = 6" "ff_stack sample_srv = ''junk''"
  "fd_open sample_srv = {0, 1, 2, 3, 4, 5, 6, 7, 8, 9, 10}" "fd_watched sample_srv = {4, 5, 7, 8, 9}"
  by (simp_all add: sample_srv_def os.extend_def sample_os_def)

lemma sample_srv_ok: "srv_ok sample_srv"
  unfolding srv_ok_def sample_srv_sel
  by (auto simp: sample_srv_def os.extend_def sample_os_def split: if_splits)



text \<open>The servers right after start.\<close>

definition sample_new :: ffwd where
  "sample_new = sample_srv\<lparr>srv_msg := new_server SRV_PORT, srv_ctl := new_server (SRV_PORT + 1), cbs := Map.empty,
      vec_epoll_st := [], fd_open := {0, 1, 2, 3}, fd_watched := {}\<rparr>"

lemma sample_new_ok: "srv_new sample_new" "start_legal (Listening 4) (Listening 5) sample_new"
  by (simp_all add: srv_new_def sample_new_def start_legal_def env_fds_def)

definition sample_up :: ffwd where
  "sample_up = sample_new\<lparr>srv_msg := (new_server SRV_PORT)\<lparr>server_fd := 4\<rparr>, srv_ctl := (new_server (SRV_PORT + 1))\<lparr>server_fd := 5\<rparr>,
      cbs := [4 \<mapsto> Cb_accept_msg, 5 \<mapsto> Cb_accept_ctl],
      vec_epoll_st := List.map (\<lambda>fd. \<lparr>st_index = fd, st_events = EPOLLIN, st_infd = fd, st_outfd = -1, st_data = False\<rparr>) [4, 5],
      fd_open := {0, 1, 2, 3, 4, 5}, fd_watched := {4, 5}\<rparr>"

lemma sample_start: "start_srv (Listening 4) (Listening 5) sample_new = Inr ((), sample_up)"
  by (simp add: start_srv_def sv_start_def ep_add_def bindf_def sample_new_def sample_up_def insert_commute)


text \<open>
  The servers need both their ports: when \<^verbatim>\<open>socket\<close>, \<^verbatim>\<open>bind\<close> or \<^verbatim>\<open>listen\<close> fails for one of them
  (another instance of the program is running), \<^verbatim>\<open>startSrv\<close>, which ignores the results of
  \<^verbatim>\<open>start\<close>, throws an exception that nothing catches: the main loop does not start and the program
  is aborted, without \<^verbatim>\<open>cleanup\<close> and without the exit handler that puts the terminals back.
\<close>

theorem servers_need_ports:
  assumes "srv_new s" "start_legal em ec s"
  shows "(\<exists>s'. start_srv em ec s = Inr ((), s')) = (listening em \<and> listening ec) \<and>
         (\<not> (listening em \<and> listening ec) \<longrightarrow> start_srv em ec s = Inl (Threw ''Failed to add file descriptor to epoll'')) \<and>
         main_loop False m c es t = Inl (Aborted t)"
  using start_result [OF assms] by (auto simp: main_loop_def ffwd_init_def bindp_def split: if_splits)

lemma servers_need_ports_witness:
  "start_srv (Bind_fail 4) (Listening 5) sample_new = Inl (Threw ''Failed to add file descriptor to epoll'')"
proof -
  have "start_legal (Bind_fail 4) (Listening 5) sample_new"
    by (simp add: sample_new_def start_legal_def env_fds_def)
  from servers_need_ports [OF sample_new_ok(1) this] show ?thesis by (simp add: listening_def)
qed

text \<open>
  A client that goes away is taken out of the tables; but the uninitialised buffer of the failed
  read is passed on all the same: every other client of the server gets what happens to be on the stack.
\<close>

theorem server_client_leaves:
  assumes "srv_ok s" "cbs s fd = Some cb" "is_client cb" "os_in s fd = [] \<or> os_in s fd = RdErr e # rest" "os_wres s = []"
  shows "\<exists>s'. run_cb cb acc s = Inr ((), s') \<and> srv_ok s' \<and> set (clients_of cb s') = set (clients_of cb s) - {fd} \<and>
           cbs s' fd = None \<and>
           (\<forall>g. os_out s' g = os_out s g @
              (if g \<in> set (clients_of cb s) \<and> g \<noteq> own_end cb s \<and> g \<noteq> fd \<and> 0 < g
               then takeWhile (\<lambda>b. b \<noteq> EOS) (ff_stack s) else []))"
proof -
  obtain s1 where "srv_read fd s = Inr ((False, c_text (ff_stack s)), s1)"
    using assms(4) by (auto simp: srv_read_def os_read_def)
  from client_cb [OF assms(1-3) this, of acc] show ?thesis using assms(5) by (auto simp: passed_def c_text_def)
qed

lemma server_client_leaves_witness:
  "\<exists>s'. run_cb (Cb_msg 7) None (sample_srv\<lparr>os_in := (\<lambda>_. [])\<rparr>) = Inr ((), s') \<and> set (client_fds (srv_msg s')) = {8, 9} \<and>
        os_out s' 8 = os_out sample_srv 8 @ ''junk''"
proof -
  let ?s = "sample_srv\<lparr>os_in := (\<lambda>_. [])\<rparr>"
  have "srv_ok ?s" by (rule srv_ok_part [OF _ _ sample_srv_ok]) (simp_all add: srv_part_def sample_srv_sel)
  moreover have "cbs ?s 7 = Some (Cb_msg 7)" "is_client (Cb_msg 7)" by (simp_all add: sample_srv_sel is_client_def)
  ultimately show ?thesis
    using server_client_leaves [of ?s 7 "Cb_msg 7" 0 "[]" None]
    by (auto simp: sample_srv_sel clients_of_def own_end_def)
qed

end
