(* ===== verification/Decimal.thy ===== *)
theory Decimal
  imports Options
begin

text \<open>
  Decimal numbers as the program prints them and \<^verbatim>\<open>strtol\<close> reads them: the digits, their value, and a
  number followed by something else.
\<close>

lemma dec_nat_digits: "c \<in> set (dec_nat n) \<Longrightarrow> 48 \<le> byte_val c \<and> byte_val c \<le> 57"
proof (induction n rule: dec_nat.induct)
  case (1 n)
  have d: "k < 10 \<Longrightarrow> 48 \<le> byte_val (digit k) \<and> byte_val (digit k) \<le> 57" for k by (simp add: digit_def)
  show ?case
  proof (cases "n < 10")
    case True
    then have "dec_nat n = [digit n]" by (subst dec_nat.simps) simp
    then show ?thesis using 1(2) d [OF True] by simp
  next
    case False
    then have "dec_nat n = dec_nat (n div 10) @ [digit (n mod 10)]" by (subst dec_nat.simps) simp
    then show ?thesis using 1 False d [of "n mod 10"] by auto
  qed
qed

lemma digit_val_dec: "c \<in> set (dec_nat n) \<Longrightarrow> digit_val c = byte_val c - 48 \<and> digit_val c < 10 \<and> c \<noteq> CHR ''|'' \<and> \<not> isspace c \<and> c \<noteq> CHR ''-'' \<and> c \<noteq> CHR ''+''"
  using dec_nat_digits [of c n] by (auto simp: digit_val_def Let_def isspace_def)

lemma dec_nat_value:
  "foldl (\<lambda>a c. a * int 10 + int (digit_val c)) 0 (dec_nat n) = int n"
proof (induction n rule: dec_nat.induct)
  case (1 n)
  have d: "k < 10 \<Longrightarrow> digit_val (digit k) = k" for k by (simp add: digit_val_def digit_def Let_def)
  show ?case
  proof (cases "n < 10")
    case True
    then show ?thesis using d by (subst dec_nat.simps) simp
  next
    case False
    then have "dec_nat n = dec_nat (n div 10) @ [digit (n mod 10)]" by (subst dec_nat.simps) simp
    moreover have "int (n div 10) * 10 + int (n mod 10) = int n"
      by (simp add: zdiv_int zmod_int)
    ultimately show ?thesis using 1 False d [of "n mod 10"] by simp
  qed
qed

lemma strtol_digits:
  assumes "ds \<noteq> []" "\<forall>c\<in>set ds. 48 \<le> byte_val c \<and> byte_val c \<le> 57" "rest = [] \<or> 10 \<le> digit_val (hd rest)"
    and "foldl (\<lambda>a c. a * int 10 + int (digit_val c)) 0 ds = v" "0 \<le> v" "v \<le> LONG_MAX"
  shows "strtol 10 (ds @ rest) = (v, rest)"
proof -
  obtain c cs where c: "ds = c # cs" using assms(1) by (cases ds) auto
  then have h: "\<not> isspace c" "c \<noteq> CHR ''-''" "c \<noteq> CHR ''+''" using assms(2) by (auto simp: isspace_def)
  have "\<forall>c\<in>set ds. digit_val c < 10" using assms(2) by (auto simp: digit_val_def Let_def)
  then have tw: "takeWhile (\<lambda>c. digit_val c < 10) (ds @ rest) = ds"
    using assms(3) by (cases rest) auto
  have s: "dropWhile isspace (ds @ rest) = ds @ rest" using h(1) c by simp
  have n: "LONG_MIN \<le> v" using assms(5) by (simp add: LONG_MIN_def)
  have m: "max LONG_MIN (min LONG_MAX v) = v" using assms(6) n by simp
  have s2: "(if ds @ rest \<noteq> [] \<and> (hd (ds @ rest) = CHR ''-'' \<or> hd (ds @ rest) = CHR ''+'') then tl (ds @ rest) else ds @ rest) = ds @ rest"
    using h c by simp
  have neg: "(ds @ rest \<noteq> [] \<and> hd (ds @ rest) = CHR ''-'') = False" using h c by simp
  have "(10::nat) \<notin> {0, 16}" "(10::nat) \<noteq> 0" by simp_all
  then show ?thesis
    unfolding strtol_def s Let_def s2 neg using assms(1,4) by (simp only: simp_thms if_False if_True tw m append_eq_conv_conj) simp
qed

end
