(* ===== verification/Msgpak.thy ===== *)
theory Msgpak
  imports Decimal
begin

text \<open>
  The message format of \<^verbatim>\<open>src/libffwd/src/msgpak.cpp\<close>: two numbers and a text, separated by bars.
  \<^verbatim>\<open>std::string\<close> positions are 64-bit words, with \<^verbatim>\<open>npos\<close> and its wrap-around.
\<close>

section \<open>The parts of the C++ library\<close>

datatype std_exn = Invalid_argument | Out_of_range

text \<open>\<^verbatim>\<open>std::stoi\<close>.\<close>

definition stoi :: "string \<Rightarrow> std_exn + int" where
  "stoi s =
     (case strtol 10 s of (v, ep) \<Rightarrow>
        if ep = s then Inl Invalid_argument
        else if v < - (2 ^ 31) \<or> 2 ^ 31 \<le> v then Inl Out_of_range
        else Inr v)"

definition npos :: "64 word" where "npos = - 1"

fun find_from :: "char \<Rightarrow> string \<Rightarrow> nat \<Rightarrow> nat option" where
  "find_from c [] n = None"
| "find_from c (x # xs) n = (if x = c then Some n else find_from c xs (Suc n))"

definition str_find :: "char \<Rightarrow> string \<Rightarrow> 64 word \<Rightarrow> 64 word" where
  "str_find c s pos =
     (case find_from c (drop (unat pos) s) (unat pos) of None \<Rightarrow> npos | Some n \<Rightarrow> of_nat n)"

definition substr :: "string \<Rightarrow> 64 word \<Rightarrow> 64 word \<Rightarrow> std_exn + string" where
  "substr s pos n =
     (if length s < unat pos then Inl Out_of_range else Inr (take (unat n) (drop (unat pos) s)))"

section \<open>The class\<close>

record msgpak =
  mp_index :: int
  mp_id :: int
  mp_message :: string

abbreviation BAR :: char where "BAR \<equiv> CHR ''|''"

definition serialize :: "msgpak \<Rightarrow> string" where
  "serialize m = dec_int (mp_index m) @ [BAR] @ dec_int (mp_id m) @ [BAR] @ mp_message m"

definition bind_exn :: "std_exn + 'a \<Rightarrow> ('a \<Rightarrow> std_exn option \<times> msgpak) \<Rightarrow> msgpak \<Rightarrow> std_exn option \<times> msgpak" where
  "bind_exn r k m = (case r of Inl e \<Rightarrow> (Some e, m) | Inr v \<Rightarrow> k v)"

text \<open>The exception that leaves it, if any, and the object; fields set before an exception stay set.\<close>

definition deserialize :: "string \<Rightarrow> msgpak \<Rightarrow> std_exn option \<times> msgpak" where
  "deserialize data m =
     (let fst_delim = str_find BAR data 0;
          snd_delim = str_find BAR data (fst_delim + 1)
      in bind_exn (substr data 0 fst_delim) (\<lambda>t.
         bind_exn (stoi t) (\<lambda>i.
           let m1 = m\<lparr>mp_index := i\<rparr> in
           bind_exn (substr data (fst_delim + 1) (snd_delim - fst_delim - 1)) (\<lambda>t.
           bind_exn (stoi t) (\<lambda>j.
             let m2 = m1\<lparr>mp_id := j\<rparr> in
             bind_exn (substr data (snd_delim + 1) npos) (\<lambda>t. (None, m2\<lparr>mp_message := t\<rparr>)) m2) m1) m1) m) m)"

section \<open>Numbers\<close>

lemma dec_int_head: "\<exists>c cs. dec_int i = c # cs \<and> \<not> isspace c"
proof (cases "i < 0")
  case True
  then show ?thesis by (simp add: dec_int_def isspace_def)
next
  case False
  obtain c cs where c: "dec_nat (nat i) = c # cs" by (cases "dec_nat (nat i)") auto
  then show ?thesis using False digit_val_dec [of c "nat i"] by (simp add: dec_int_def)
qed

lemma strtol_dec_int:
  assumes "LONG_MIN \<le> i" "i \<le> LONG_MAX"
  shows "strtol 10 (dec_int i) = (i, [])"
proof -
  define n where "n = nat (if i < 0 then - i else i)"
  let ?d = "dec_nat n"
  have "\<forall>c\<in>set ?d. digit_val c < 10" using digit_val_dec by blast
  then have tw: "takeWhile (\<lambda>c. digit_val c < 10) ?d = ?d" by (simp add: takeWhile_eq_all_conv)
  have d: "dec_int i = (if i < 0 then CHR ''-'' # ?d else ?d)" by (simp add: dec_int_def n_def)
  obtain c cs where c: "?d = c # cs" by (cases ?d) auto
  have h: "\<not> isspace c" "c \<noteq> CHR ''-''" "c \<noteq> CHR ''+''" using digit_val_dec [of c n] c by auto
  have s: "dropWhile isspace (dec_int i) = dec_int i" using dec_int_head [of i] by auto
  have v: "foldl (\<lambda>a c. a * int 10 + int (digit_val c)) 0 ?d = int n" by (rule dec_nat_value)
  have s2: "(if dec_int i \<noteq> [] \<and> (hd (dec_int i) = CHR ''-'' \<or> hd (dec_int i) = CHR ''+'') then tl (dec_int i) else dec_int i) = ?d"
    using h c by (auto simp: d)
  have neg: "(dec_int i \<noteq> [] \<and> hd (dec_int i) = CHR ''-'') = (i < 0)" using h c by (auto simp: d)
  have w: "(if i < 0 then - int n else int n) = i" by (simp add: n_def)
  have "?d \<noteq> []" using c by simp
  then show ?thesis
    unfolding strtol_def s Let_def s2 neg using assms w by (simp add: tw v [simplified] split: if_splits)
qed

lemma stoi_dec_int:
  assumes "- (2 ^ 31) \<le> i" "i < 2 ^ 31"
  shows "stoi (dec_int i) = Inr i"
proof -
  have "strtol 10 (dec_int i) = (i, [])" using assms by (intro strtol_dec_int) (simp_all add: LONG_MIN_def LONG_MAX_def)
  moreover have "dec_int i \<noteq> []" using dec_int_head [of i] by auto
  ultimately show ?thesis using assms by (simp add: stoi_def)
qed

section \<open>Searching\<close>

lemma find_from_skip: "c \<notin> set xs \<Longrightarrow> find_from c (xs @ ys) n = find_from c ys (n + length xs)"
  by (induction xs arbitrary: n) auto

lemma find_from_none: "c \<notin> set xs \<Longrightarrow> find_from c xs n = None"
  by (induction xs arbitrary: n) auto

lemma dec_int_no_bar: "BAR \<notin> set (dec_int i)"
  using digit_val_dec by (auto simp: dec_int_def)

lemma str_find_here:
  assumes "c \<notin> set xs" "length (ps @ xs @ c # ys) < 2 ^ 64 - 1"
  shows "str_find c (ps @ xs @ c # ys) (of_nat (length ps)) = of_nat (length ps + length xs)"
proof -
  have u: "unat (of_nat (length ps) :: 64 word) = length ps" using assms(2) by (simp add: unat_of_nat)
  then show ?thesis using assms(1) by (simp add: str_find_def find_from_skip u)
qed

lemma unat_len: "n < 2 ^ 64 - 1 \<Longrightarrow> unat (of_nat n :: 64 word) = n"
  by (simp add: unat_of_nat)

lemma unat_npos: "unat npos = 2 ^ 64 - 1"
  by (simp add: npos_def unsigned_minus_1_eq_mask mask_eq_exp_minus_1)

section \<open>Properties\<close>

text \<open>
  C29: a message read back is the message written: whatever the text, bars included, and for every
  pair of 32-bit numbers, \<^verbatim>\<open>deserialize\<close> of what \<^verbatim>\<open>serialize\<close> gives restores all three fields of any
  object and throws nothing.
\<close>

theorem msgpak_roundtrip:
  assumes "- (2 ^ 31) \<le> mp_index m" "mp_index m < 2 ^ 31" "- (2 ^ 31) \<le> mp_id m" "mp_id m < 2 ^ 31"
    and "length (serialize m) < 2 ^ 64 - 1"
  shows "deserialize (serialize m) m0 = (None, m)"
proof -
  let ?a = "dec_int (mp_index m)" and ?b = "dec_int (mp_id m)" and ?t = "mp_message m"
  let ?s = "serialize m"
  have s: "?s = ?a @ BAR # ?b @ BAR # ?t" by (simp add: serialize_def)
  have len: "length ?a + length ?b + length ?t + 2 < 2 ^ 64 - 1" using assms(5) by (simp add: s)
  let ?f = "of_nat (length ?a) :: 64 word" and ?g = "of_nat (length ?a + 1 + length ?b) :: 64 word"
  have f: "str_find BAR ?s 0 = ?f"
    using str_find_here [of BAR ?a "[]" "?b @ BAR # ?t"] dec_int_no_bar len by (simp add: s)
  have f1: "?f + 1 = of_nat (length (?a @ [BAR]))" by simp
  have g: "str_find BAR ?s (?f + 1) = ?g"
    using str_find_here [of BAR ?b "?a @ [BAR]" ?t] dec_int_no_bar len unfolding f1 by (simp add: s)
  have uf: "unat ?f = length ?a" "unat (?f + 1) = length ?a + 1"
    using len unat_len [of "length ?a"] unat_len [of "length (?a @ [BAR])"] unfolding f1 by simp_all
  have "?g - ?f - 1 = of_nat (length ?b)" by simp
  then have ug: "unat (?g - ?f - 1) = length ?b" using len unat_len [of "length ?b"] by simp
  have g1: "?g + 1 = of_nat (length ?a + length ?b + 2)" by simp
  have uh: "unat (?g + 1) = length ?a + length ?b + 2"
    using len unat_len [of "length ?a + length ?b + 2"] unfolding g1 by simp
  have un: "unat npos = 2 ^ 64 - 1" by (rule unat_npos)
  have s1: "substr ?s 0 ?f = Inr ?a" using uf by (simp add: substr_def s)
  have s2: "substr ?s (?f + 1) (?g - ?f - 1) = Inr ?b" unfolding substr_def uf ug by (simp add: s)
  have "take (2 ^ 64 - 1) ?t = ?t" using len by simp
  then have s3: "substr ?s (?g + 1) npos = Inr ?t" unfolding substr_def uh un by (simp add: s)
  show ?thesis
    unfolding deserialize_def Let_def f g s1 s2 s3 bind_exn_def sum.case stoi_dec_int [OF assms(1,2)] stoi_dec_int [OF assms(3,4)]
    by simp
qed

lemma msgpak_roundtrip_witness:
  "deserialize (serialize \<lparr>mp_index = -1, mp_id = 2147483647, mp_message = ''a|b|c''\<rparr>) \<lparr>mp_index = 0, mp_id = 0, mp_message = []\<rparr> =
     (None, \<lparr>mp_index = -1, mp_id = 2147483647, mp_message = ''a|b|c''\<rparr>)"
proof (rule msgpak_roundtrip)
  have "length (dec_nat 1) \<le> 20" "length (dec_nat 2147483647) \<le> 20" by (simp_all add: dec_nat.simps)
  then show "length (serialize \<lparr>mp_index = -1, mp_id = 2147483647, mp_message = ''a|b|c''\<rparr>) < 2 ^ 64 - 1"
    by (simp add: serialize_def dec_int_def)
qed simp_all

text \<open>
  What \<^verbatim>\<open>deserialize\<close> makes of a text with no bar: \<^verbatim>\<open>npos + 1\<close> is 0, so the whole text is read three
  times; if it starts with a number that fits an \<^verbatim>\<open>int\<close>, nothing is reported, both numbers are that
  number and the text is the message.
\<close>

theorem deserialize_no_bar:
  assumes "BAR \<notin> set data" "length data < 2 ^ 64 - 1"
  shows "deserialize data m =
     (case stoi data of
        Inl e \<Rightarrow> (Some e, m)
      | Inr i \<Rightarrow> (None, \<lparr>mp_index = i, mp_id = i, mp_message = data\<rparr>))"
proof -
  have "BAR \<notin> set (drop n data)" for n using assms(1) in_set_dropD by metis
  then have f: "str_find BAR data p = npos" for p by (simp add: str_find_def find_from_none)
  have "npos + 1 = 0" "npos - npos - 1 = npos" by (simp_all add: npos_def)
  moreover have un: "unat npos = 2 ^ 64 - 1" by (rule unat_npos)
  moreover have "substr data 0 npos = Inr data" using assms(2) unfolding substr_def un by simp
  ultimately show ?thesis
    by (cases "stoi data"; cases m) (simp_all add: deserialize_def Let_def f bind_exn_def)
qed

lemma deserialize_no_bar_witness:
  "deserialize ''x'' \<lparr>mp_index = 0, mp_id = 0, mp_message = []\<rparr> = (Some Invalid_argument, \<lparr>mp_index = 0, mp_id = 0, mp_message = []\<rparr>)"
proof -
  have "stoi ''x'' = Inl Invalid_argument" by (simp add: stoi_def strtol_def isspace_def digit_val_def Let_def)
  then show ?thesis using deserialize_no_bar [of "''x''"] by simp
qed

end
