(* ===== verification/Linenoise.thy ===== *)
theory Linenoise
  imports Commands "HOL-Library.Monad_Syntax" "HOL-Library.Signed_Division"
begin

text \<open>
  The line editing library, \<^verbatim>\<open>src/ppcom/src/linenoise.cpp\<close>, as the build with \<^verbatim>\<open>LINENOISE\<close> uses it:
  raw mode, the width of the terminal, the refresh of the line, the editing operations on the C
  buffer, completion, the key loop, \<^verbatim>\<open>linenoise\<close> itself and the history.  \<open>None\<close> is behaviour the
  language does not define: an access outside an array, the use or the second \<^verbatim>\<open>free\<close> of a freed string,
  a negative length, a loop that neither ends nor does anything.
\<close>

section \<open>State\<close>

text \<open>A pointer of the history: freeing leaves it in place.\<close>

datatype ptr = Null | Str string | Freed

text \<open>The only completion callback of the program is \<^verbatim>\<open>file_completion_cb\<close>.\<close>

datatype callback_ptr = No_cb | File_cb

text \<open>
  The static variables of the library, the path of the history file, and of the outside what it looks
  at: outcomes of allocations (in the order of the calls; all succeed when the list is used up),
  environment variables, the window size, files and directories, what \<^verbatim>\<open>stdio\<close> has read ahead of
  stdin, and the bytes that happen to be in an uninitialised array.
\<close>

record ln = os +
  ln_mem :: "bool list"
  ln_env :: "string \<Rightarrow> string option"
  ln_winsz :: "nat option"
  ln_junk :: "nat \<Rightarrow> byte"
  ln_stdin :: "byte list"
  ln_files :: "string \<Rightarrow> byte list option"
  ln_readonly :: "string \<Rightarrow> bool"
  ln_dir :: "string \<Rightarrow> string list option"
  ln_stat :: "string \<Rightarrow> bool option"
  completionCallback :: callback_ptr
  orig_termios :: termios
  rawmode :: bool
  mlmode :: bool
  atexit_registered :: bool
  history_max_len :: int
  history_len :: int
  history :: "ptr list option"
  history_file_path :: ptr

text \<open>\<^verbatim>\<open>struct linenoiseState\<close>, with the array its \<^verbatim>\<open>buf\<close> points to.\<close>

record led = ln +
  l_ifd :: int
  l_ofd :: int
  l_buf :: "byte list"
  l_buflen :: nat
  l_prompt :: string
  l_plen :: nat
  l_pos :: nat
  l_oldpos :: nat
  l_len :: nat
  l_cols :: "64 word"
  l_maxrows :: "64 word"
  l_history_index :: int

definition LINENOISE_DEFAULT_HISTORY_MAX_LEN :: int where "LINENOISE_DEFAULT_HISTORY_MAX_LEN = 100"
definition LINENOISE_MAX_LINE :: nat where "LINENOISE_MAX_LINE = 4096"

abbreviation CTRL_A :: byte where "CTRL_A \<equiv> CHR 0x01"
abbreviation CTRL_B :: byte where "CTRL_B \<equiv> CHR 0x02"
abbreviation CTRL_C :: byte where "CTRL_C \<equiv> CHR 0x03"
abbreviation CTRL_D :: byte where "CTRL_D \<equiv> CHR 0x04"
abbreviation CTRL_E :: byte where "CTRL_E \<equiv> CHR 0x05"
abbreviation CTRL_F :: byte where "CTRL_F \<equiv> CHR 0x06"
abbreviation CTRL_H :: byte where "CTRL_H \<equiv> CHR 0x08"
abbreviation CTRL_K :: byte where "CTRL_K \<equiv> CHR 0x0B"
abbreviation CTRL_L :: byte where "CTRL_L \<equiv> CHR 0x0C"
abbreviation CTRL_N :: byte where "CTRL_N \<equiv> CHR 0x0E"
abbreviation CTRL_P :: byte where "CTRL_P \<equiv> CHR 0x10"
abbreviation CTRL_T :: byte where "CTRL_T \<equiv> CHR 0x14"
abbreviation CTRL_U :: byte where "CTRL_U \<equiv> CHR 0x15"
abbreviation CTRL_W :: byte where "CTRL_W \<equiv> CHR 0x17"
abbreviation ESC :: byte where "ESC \<equiv> CHR 0x1B"

section \<open>Memory\<close>

definition alloc :: "'a ln_scheme \<Rightarrow> bool \<times> 'a ln_scheme" where
  "alloc s = (case ln_mem s of [] \<Rightarrow> (True, s) | b # bs \<Rightarrow> (b, s\<lparr>ln_mem := bs\<rparr>))"

definition poke :: "nat \<Rightarrow> byte \<Rightarrow> byte list \<Rightarrow> byte list option" where
  "poke i c b = (if i < length b then Some (b[i := c]) else None)"

definition peek :: "nat \<Rightarrow> byte list \<Rightarrow> byte option" where
  "peek i b = (if i < length b then Some (b ! i) else None)"

definition memmove :: "nat \<Rightarrow> nat \<Rightarrow> nat \<Rightarrow> byte list \<Rightarrow> byte list option" where
  "memmove dst src n b =
     (if dst + n \<le> length b \<and> src + n \<le> length b
      then Some (take dst b @ take n (drop src b) @ drop (dst + n) b) else None)"

text \<open>The C string at the start of an array.\<close>

definition c_str :: "byte list \<Rightarrow> string option" where
  "c_str b = (if EOS \<in> set b then Some (cstring b) else None)"

section \<open>Low level terminal handling\<close>

definition linenoiseSetMultiLine :: "bool \<Rightarrow> 'a ln_scheme \<Rightarrow> 'a ln_scheme" where
  "linenoiseSetMultiLine ml s = s\<lparr>mlmode := ml\<rparr>"

definition unsupported_term :: "string list" where
  "unsupported_term = [''dumb'', ''cons25'', ''emacs'']"

definition tolower :: "char \<Rightarrow> char" where
  "tolower c = (if 65 \<le> byte_val c \<and> byte_val c \<le> 90 then char_of (byte_val c + 32) else c)"

definition strcasecmp_eq :: "string \<Rightarrow> string \<Rightarrow> bool" where
  "strcasecmp_eq a b = (map tolower a = map tolower b)"

definition isUnsupportedTerm :: "'a ln_scheme \<Rightarrow> bool" where
  "isUnsupportedTerm s =
     (case ln_env s ''TERM'' of
        None \<Rightarrow> False
      | Some t \<Rightarrow> list_ex (strcasecmp_eq t) unsupported_term)"

definition INPCK :: flags where "INPCK = push_bit 4 1"

definition raw_of :: "termios \<Rightarrow> termios" where
  "raw_of t = t\<lparr>
     c_iflag := c_iflag t AND NOT (BRKINT OR ICRNL OR INPCK OR ISTRIP OR IXON),
     c_oflag := c_oflag t AND NOT OPOST,
     c_cflag := c_cflag t OR CS8,
     c_lflag := c_lflag t AND NOT (ECHO OR ICANON OR IEXTEN OR ISIG),
     c_cc := (c_cc t)[VMIN := 1, VTIME := 0]\<rparr>"

text \<open>The result is whether the function returned 0.\<close>

definition enableRawMode :: "int \<Rightarrow> 'a ln_scheme \<Rightarrow> bool \<times> 'a ln_scheme" where
  "enableRawMode fd s =
     (if \<not> isatty STI s then (False, s\<lparr>os_errno := ENOTTY\<rparr>)
      else
        (let s1 = s\<lparr>atexit_registered := True\<rparr> in
         case tc2getattr fd s1 of
           (None, s2) \<Rightarrow> (False, s2\<lparr>os_errno := ENOTTY\<rparr>)
         | (Some t, s2) \<Rightarrow>
             (case tc2setattr fd TCSAFLUSH (raw_of t) (s2\<lparr>orig_termios := t\<rparr>) of
                (False, s3) \<Rightarrow> (False, s3\<lparr>os_errno := ENOTTY\<rparr>)
              | (True, s3) \<Rightarrow> (True, s3\<lparr>rawmode := True\<rparr>))))"

definition disableRawMode :: "int \<Rightarrow> 'a ln_scheme \<Rightarrow> 'a ln_scheme" where
  "disableRawMode fd s =
     (if rawmode s then
        (case tc2setattr fd TCSAFLUSH (orig_termios s) s of
           (True, s1) \<Rightarrow> s1\<lparr>rawmode := False\<rparr>
         | (False, s1) \<Rightarrow> s1)
      else s)"

text \<open>\<^verbatim>\<open>%d\<close> of \<^verbatim>\<open>sscanf\<close>.\<close>

definition scan_int :: "string \<Rightarrow> (int \<times> string) option" where
  "scan_int s = (case strtol 10 s of (v, ep) \<Rightarrow> if ep = s then None else Some (c_int v, ep))"

definition scan_position :: "string \<Rightarrow> (int \<times> int) option" where
  "scan_position s =
     (case scan_int s of
        Some (rows, CHR '';'' # t) \<Rightarrow> map_option (\<lambda>(cols, _). (rows, cols)) (scan_int t)
      | _ \<Rightarrow> None)"

fun read_report :: "int \<Rightarrow> nat \<Rightarrow> 'a ln_scheme \<Rightarrow> byte list \<times> 'a ln_scheme" where
  "read_report fd 0 s = ([], s)"
| "read_report fd (Suc n) s =
     (case os_read fd 1 s of
        (Inr [c], s1) \<Rightarrow>
          if c = CHR ''R'' then ([], s1)
          else (case read_report fd n s1 of (b, s2) \<Rightarrow> (c # b, s2))
      | (_, s1) \<Rightarrow> ([], s1))"

definition getCursorPosition :: "int \<Rightarrow> int \<Rightarrow> 'a ln_scheme \<Rightarrow> int \<times> 'a ln_scheme" where
  "getCursorPosition fdi fdo s =
     (case os_write fdo (ESC # ''[6n'') s of
        (n, s1) \<Rightarrow>
          if n \<noteq> 4 then (-1, s1)
          else
            (case read_report fdi 31 s1 of
               (b, s2) \<Rightarrow>
                 (if take 2 b \<noteq> [ESC, CHR ''[''] then -1
                  else (case scan_position (cstring (drop 2 b)) of Some (_, cols) \<Rightarrow> cols | None \<Rightarrow> -1), s2)))"

definition getColumns :: "int \<Rightarrow> int \<Rightarrow> 'a ln_scheme \<Rightarrow> int \<times> 'a ln_scheme" where
  "getColumns fdi fdo s =
     (case ln_winsz s of
        Some (Suc n) \<Rightarrow> (int (Suc n), s)
      | _ \<Rightarrow>
          (case getCursorPosition fdi fdo s of
             (start, s1) \<Rightarrow>
               if start = -1 then (80, s1)
               else
                 (case os_write fdo (ESC # ''[999C'') s1 of
                    (n, s2) \<Rightarrow>
                      if n \<noteq> 6 then (80, s2)
                      else
                        (case getCursorPosition fdi fdo s2 of
                           (cols, s3) \<Rightarrow>
                             if cols = -1 then (80, s3)
                             else if cols > start
                             then (cols, snd (os_write fdo ([ESC, CHR ''[''] @ dec_int (c_int (cols - start)) @ ''D'') s3))
                             else (cols, s3)))))"

definition linenoiseClearScreen :: "'a ln_scheme \<Rightarrow> 'a ln_scheme" where
  "linenoiseClearScreen s = snd (os_write STO ([ESC] @ ''[H'' @ [ESC] @ ''[2J'') s)"

definition linenoiseBeep :: "'a ln_scheme \<Rightarrow> 'a ln_scheme" where
  "linenoiseBeep s = snd (os_write STE [BEL] s)"

section \<open>Refreshing the line\<close>

text \<open>
  \<^verbatim>\<open>abAppend\<close>: the source is given from the pointer on, the length is an \<^verbatim>\<open>int\<close>.  When \<^verbatim>\<open>realloc\<close>
  fails nothing is appended.
\<close>

definition abAppend :: "byte list \<Rightarrow> int \<Rightarrow> byte list \<Rightarrow> 'a ln_scheme \<Rightarrow> (byte list \<times> 'a ln_scheme) option" where
  "abAppend src n ab s =
     (if n < 0 \<or> int (length src) < n then None
      else (case alloc s of (ok, s1) \<Rightarrow> Some (if ok then ab @ take (nat n) src else ab, s1)))"

definition abText :: "string \<Rightarrow> byte list \<times> 'a ln_scheme \<Rightarrow> (byte list \<times> 'a ln_scheme) option" where
  "abText t = (\<lambda>(ab, s). abAppend t (int (length t)) ab s)"

text \<open>A \<^verbatim>\<open>size_t\<close> as an \<^verbatim>\<open>int\<close>.\<close>

definition int_of_size :: "64 word \<Rightarrow> int" where
  "int_of_size w = c_int (uint w)"

text \<open>
  The two loops of \<^verbatim>\<open>refreshSingleLine\<close>; \<^verbatim>\<open>k\<close> is the distance of \<^verbatim>\<open>buf\<close> from the start of the array.
  In a terminal without columns the first one never ends.
\<close>

function skip_left :: "64 word \<Rightarrow> 64 word \<Rightarrow> nat \<Rightarrow> 64 word \<Rightarrow> 64 word \<Rightarrow> (nat \<times> 64 word \<times> 64 word) option" where
  "skip_left cols plen k len pos =
     (if plen + pos < cols then Some (k, len, pos)
      else if cols = 0 then None
      else skip_left cols plen (k + 1) (len - 1) (pos - 1))"
  by pat_completeness auto
termination
proof (relation "measure (\<lambda>(cols, plen, k, len, pos). unat (plen + pos))", simp)
  fix cols plen len pos :: "64 word" and k :: nat
  assume a: "\<not> plen + pos < cols" "cols \<noteq> 0"
  then have "plen + pos \<noteq> 0" by (metis leI word_le_0_iff)
  then have "unat (plen + pos - 1) < unat (plen + pos)" by (rule measure_unat)
  then show "((cols, plen, k + 1, len - 1, pos - 1), (cols, plen, k, len, pos))
      \<in> measure (\<lambda>(cols, plen, k, len, pos). unat (plen + pos))"
    by (simp add: algebra_simps)
qed

declare skip_left.simps [simp del]

function drop_right :: "64 word \<Rightarrow> 64 word \<Rightarrow> 64 word \<Rightarrow> 64 word" where
  "drop_right cols plen len = (if plen + len > cols then drop_right cols plen (len - 1) else len)"
  by pat_completeness auto
termination
proof (relation "measure (\<lambda>(cols, plen, len). unat (plen + len))", simp)
  fix cols plen len :: "64 word"
  assume "cols < plen + len"
  then have "plen + len \<noteq> 0" by auto
  then have "unat (plen + len - 1) < unat (plen + len)" by (rule measure_unat)
  then show "((cols, plen, len - 1), (cols, plen, len)) \<in> measure (\<lambda>(cols, plen, len). unat (plen + len))"
    by (simp add: algebra_simps)
qed

declare drop_right.simps [simp del]

definition refreshSingleLine :: "led \<Rightarrow> led option" where
  "refreshSingleLine s =
     (let plen = of_nat (length (l_prompt s)) in do {
        (k, n, p) \<leftarrow> skip_left (l_cols s) plen 0 (of_nat (l_len s)) (of_nat (l_pos s));
        if length (l_buf s) < k then None else do {
        let n = drop_right (l_cols s) plen n;
        a \<leftarrow> abText [CR] ([], s);
        a \<leftarrow> abText (l_prompt s) a;
        a \<leftarrow> abAppend (drop k (l_buf s)) (int_of_size n) (fst a) (snd a);
        a \<leftarrow> abText (ESC # ''[0K'') a;
        (ab, s) \<leftarrow> abText ([CR, ESC, CHR ''[''] @ dec_int (int_of_size (p + plen)) @ ''C'') a;
        Some (snd (os_write (l_ofd s) ab s)) } })"

text \<open>The sizes of \<^verbatim>\<open>refreshMultiLine\<close> are computed as \<^verbatim>\<open>size_t\<close> and stored as \<^verbatim>\<open>int\<close>.\<close>

definition rows_at :: "64 word \<Rightarrow> int \<Rightarrow> nat \<Rightarrow> 64 word \<Rightarrow> int" where
  "rows_at cols plen n d = int_of_size ((word_of_int plen + of_nat n + d) div cols)"

fun abTimes :: "nat \<Rightarrow> string \<Rightarrow> byte list \<times> 'a ln_scheme \<Rightarrow> (byte list \<times> 'a ln_scheme) option" where
  "abTimes 0 t a = Some a"
| "abTimes (Suc n) t a = abText t a \<bind> abTimes n t"

definition abIf :: "bool \<Rightarrow> string \<Rightarrow> byte list \<times> 'a ln_scheme \<Rightarrow> (byte list \<times> 'a ln_scheme) option" where
  "abIf b t a = (if b then abText t a else Some a)"

definition grow_rows :: "int \<Rightarrow> led \<Rightarrow> led" where
  "grow_rows rows s = s\<lparr>l_maxrows := (if rows > int_of_size (l_maxrows s) then word_of_int rows else l_maxrows s)\<rparr>"

text \<open>A division by zero, of \<^verbatim>\<open>size_t\<close> or of the \<^verbatim>\<open>int\<close> columns, is not defined.\<close>

definition refreshMultiLine :: "led \<Rightarrow> led option" where
  "refreshMultiLine s =
     (if l_cols s = 0 \<or> int_of_size (l_cols s) = 0 then None else
      let plen = c_int (int (length (l_prompt s)));
          rows = rows_at (l_cols s) plen (l_len s) (l_cols s - 1);
          rpos = rows_at (l_cols s) plen (l_oldpos s) (l_cols s);
          old_rows = int_of_size (l_maxrows s);
          wrap = (l_pos s \<noteq> 0 \<and> l_pos s = l_len s \<and> (of_nat (l_pos s) + word_of_int plen) mod l_cols s = 0);
          rows2 = (if wrap then rows + 1 else rows);
          rpos2 = rows_at (l_cols s) plen (l_pos s) (l_cols s);
          col = (plen + int_of_size (of_nat (l_pos s))) smod int_of_size (l_cols s)
      in do {
        a \<leftarrow> abIf (old_rows - rpos > 0) ([ESC, CHR ''[''] @ dec_int (old_rows - rpos) @ ''B'') ([], grow_rows rows s);
        a \<leftarrow> abTimes (nat (old_rows - 1)) ([CR, ESC] @ ''[0K'' @ [ESC] @ ''[1A'') a;
        a \<leftarrow> abText ([CR, ESC] @ ''[0K'') a;
        a \<leftarrow> abText (l_prompt s) a;
        (ab, s1) \<leftarrow> abAppend (l_buf s) (int_of_size (of_nat (l_len s))) (fst a) (snd a);
        a \<leftarrow> abIf wrap [LF] (ab, s1);
        (ab, s1) \<leftarrow> abIf wrap [CR] a;
        a \<leftarrow> abIf (rows2 - rpos2 > 0) ([ESC, CHR ''[''] @ dec_int (rows2 - rpos2) @ ''A'') (ab, grow_rows rows2 s1);
        (ab, s1) \<leftarrow> abText (if col \<noteq> 0 then [CR, ESC, CHR ''[''] @ dec_int col @ ''C'' else [CR]) a;
        Some (snd (os_write (l_ofd s) ab (s1\<lparr>l_oldpos := l_pos s\<rparr>))) })"

definition refreshLine :: "led \<Rightarrow> led option" where
  "refreshLine s = (if mlmode s then refreshMultiLine s else refreshSingleLine s)"

section \<open>History\<close>

text \<open>The entry at an index, and freeing it.\<close>

definition hist_at :: "int \<Rightarrow> 'a ln_scheme \<Rightarrow> ptr option" where
  "hist_at i s =
     (case history s of
        None \<Rightarrow> None
      | Some h \<Rightarrow> if 0 \<le> i \<and> nat i < length h then Some (h ! nat i) else None)"

definition hist_put :: "int \<Rightarrow> ptr \<Rightarrow> 'a ln_scheme \<Rightarrow> 'a ln_scheme option" where
  "hist_put i p s =
     (case history s of
        None \<Rightarrow> None
      | Some h \<Rightarrow> if 0 \<le> i \<and> nat i < length h then Some (s\<lparr>history := Some (h[nat i := p])\<rparr>) else None)"

definition hist_free :: "int \<Rightarrow> 'a ln_scheme \<Rightarrow> 'a ln_scheme option" where
  "hist_free i s =
     (case hist_at i s of
        None \<Rightarrow> None
      | Some Null \<Rightarrow> Some s
      | Some (Str t) \<Rightarrow> hist_put i Freed s
      | Some Freed \<Rightarrow> None)"

definition strdup :: "string \<Rightarrow> 'a ln_scheme \<Rightarrow> ptr \<times> 'a ln_scheme" where
  "strdup t s = (case alloc s of (ok, s1) \<Rightarrow> (if ok then Str t else Null, s1))"

text \<open>\<^verbatim>\<open>strcmp\<close> of the last entry and a line, when there is an entry.\<close>

definition last_is :: "string \<Rightarrow> 'a ln_scheme \<Rightarrow> bool option" where
  "last_is line s =
     (if history_len s = 0 then Some False
      else (case hist_at (history_len s - 1) s of Some (Str t) \<Rightarrow> Some (t = line) | _ \<Rightarrow> None))"

definition history_shift :: "'a ln_scheme \<Rightarrow> 'a ln_scheme option" where
  "history_shift s = do {
     s \<leftarrow> hist_free 0 s;
     h \<leftarrow> history s;
     let n = nat (history_max_len s - 1);
     if length h < n + 1 then None
     else Some (s\<lparr>history := Some (take n (tl h) @ drop n h), history_len := history_len s - 1\<rparr>) }"

text \<open>The result is whether the line was added.\<close>

definition linenoiseHistoryAdd :: "string \<Rightarrow> 'a ln_scheme \<Rightarrow> (bool \<times> 'a ln_scheme) option" where
  "linenoiseHistoryAdd line s =
     (if history_max_len s = 0 then Some (False, s)
      else
        (case (if history s = None
               then (case alloc s of (ok, s1) \<Rightarrow>
                       (ok, if ok then s1\<lparr>history := Some (replicate (nat (history_max_len s)) Null)\<rparr> else s1))
               else (True, s)) of
           (False, s1) \<Rightarrow> Some (False, s1)
         | (True, s1) \<Rightarrow> do {
             same \<leftarrow> last_is line s1;
             if same then Some (False, s1)
             else
               (case strdup line s1 of
                  (p, s2) \<Rightarrow>
                    if p = Null then Some (False, s2)
                    else do {
                      s3 \<leftarrow> (if history_len s2 = history_max_len s2 then history_shift s2 else Some s2);
                      s4 \<leftarrow> hist_put (history_len s3) p s3;
                      Some (True, s4\<lparr>history_len := history_len s4 + 1\<rparr>) }) }))"

fun hist_free_first :: "nat \<Rightarrow> 'a ln_scheme \<Rightarrow> 'a ln_scheme option" where
  "hist_free_first 0 s = Some s"
| "hist_free_first (Suc n) s = do { s \<leftarrow> hist_free_first n s; hist_free (int n) s }"

definition linenoiseHistorySetMaxLen :: "int \<Rightarrow> 'a ln_scheme \<Rightarrow> (bool \<times> 'a ln_scheme) option" where
  "linenoiseHistorySetMaxLen n s =
     (if n < 1 then Some (False, s)
      else
        let fin = (\<lambda>s. Some (True, s\<lparr>history_max_len := n, history_len := min (history_len s) n\<rparr>)) in
        if history s = None then fin s
        else
          (case alloc s of
             (False, s1) \<Rightarrow> Some (False, s1)
           | (True, s1) \<Rightarrow> do {
               s2 \<leftarrow> (if n < history_len s1 then hist_free_first (nat (history_len s1 - n)) s1 else Some s1);
               let tocopy = min n (history_len s2);
               h \<leftarrow> history s2;
               if tocopy < 0 \<or> int (length h) < history_len s2 then None
               else fin (s2\<lparr>history := Some (take (nat tocopy) (drop (nat (history_len s2 - tocopy)) h) @
                                             replicate (nat (n - tocopy)) Null)\<rparr>) }))"

text \<open>The strings \<^verbatim>\<open>fprintf\<close> prints.\<close>

fun hist_lines :: "nat \<Rightarrow> ptr list \<Rightarrow> string list option" where
  "hist_lines 0 h = Some []"
| "hist_lines (Suc n) (Str t # h) = map_option ((#) t) (hist_lines n h)"
| "hist_lines (Suc n) _ = None"

definition linenoiseHistorySave :: "string \<Rightarrow> 'a ln_scheme \<Rightarrow> (int \<times> 'a ln_scheme) option" where
  "linenoiseHistorySave filename s =
     (if ln_readonly s filename then Some (-1, s)
      else do {
        ls \<leftarrow> hist_lines (nat (history_len s)) (case history s of None \<Rightarrow> [] | Some h \<Rightarrow> h);
        Some (0, s\<lparr>ln_files := (ln_files s)(filename \<mapsto> concat (map (\<lambda>l. l @ [LF]) ls))\<rparr>) })"

text \<open>\<^verbatim>\<open>fgets\<close> on what is left of a file: at most \<open>n\<close> bytes, up to a line end.\<close>

fun fgets_file :: "nat \<Rightarrow> byte list \<Rightarrow> byte list \<times> byte list" where
  "fgets_file 0 bs = ([], bs)"
| "fgets_file (Suc n) [] = ([], [])"
| "fgets_file (Suc n) (c # bs) =
     (if c = LF then ([c], bs) else (case fgets_file n bs of (l, r) \<Rightarrow> (c # l, r)))"

lemma fgets_file_shorter: "length (snd (fgets_file n bs)) \<le> length bs"
  by (induction n bs rule: fgets_file.induct) (auto split: prod.splits)

lemma fgets_file_takes: "0 < n \<Longrightarrow> bs \<noteq> [] \<Longrightarrow> length (snd (fgets_file n bs)) < length bs"
  using fgets_file_shorter
  by (cases n; cases bs) (auto simp: case_prod_unfold less_Suc_eq_le)

definition trim_line :: "byte list \<Rightarrow> string" where
  "trim_line b =
     (let l = cstring b in
      if CR \<in> set l then takeWhile (\<lambda>c. c \<noteq> CR) l else takeWhile (\<lambda>c. c \<noteq> LF) l)"

function load_lines :: "byte list \<Rightarrow> 'a ln_scheme \<Rightarrow> 'a ln_scheme option" where
  "load_lines bs s =
     (if bs = [] then Some s
      else
        (case fgets_file (LINENOISE_MAX_LINE - 1) bs of
           (l, r) \<Rightarrow> do { (_, s) \<leftarrow> linenoiseHistoryAdd (trim_line l) s; load_lines r s }))"
  by pat_completeness auto
termination
  by (relation "measure (\<lambda>(bs, s). length bs)")
     (simp_all add: LINENOISE_MAX_LINE_def, metis fgets_file_takes snd_conv zero_less_numeral)

declare load_lines.simps [simp del]

definition linenoiseHistoryLoad :: "string \<Rightarrow> 'a ln_scheme \<Rightarrow> (int \<times> 'a ln_scheme) option" where
  "linenoiseHistoryLoad filename s =
     (case ln_files s filename of
        None \<Rightarrow> Some (-1, s)
      | Some bs \<Rightarrow> map_option (Pair 0) (load_lines bs s))"

text \<open>At exit; the pointer to the array stays, and nothing may be read through it any more.\<close>

definition freeHistory :: "'a ln_scheme \<Rightarrow> 'a ln_scheme option" where
  "freeHistory s =
     (if history s = None then Some s
      else do { s \<leftarrow> hist_free_first (nat (history_len s)) s; Some (s\<lparr>history := Some []\<rparr>) })"

definition linenoiseAtExit :: "'a ln_scheme \<Rightarrow> 'a ln_scheme option" where
  "linenoiseAtExit s = freeHistory (disableRawMode STI s)"

section \<open>Editing\<close>

text \<open>The result is whether the function returned 0.\<close>

definition linenoiseEditInsert :: "byte \<Rightarrow> led \<Rightarrow> (bool \<times> led) option" where
  "linenoiseEditInsert c s =
     (if l_len s < l_buflen s then
        (if l_len s = l_pos s then do {
           b \<leftarrow> poke (l_pos s) c (l_buf s);
           b \<leftarrow> poke (l_len s + 1) EOS b;
           let s = s\<lparr>l_buf := b, l_pos := l_pos s + 1, l_len := l_len s + 1\<rparr>;
           if \<not> mlmode s \<and> of_nat (l_plen s) + of_nat (l_len s) < l_cols s
           then (case os_write (l_ofd s) [c] s of (r, s) \<Rightarrow> Some (r \<noteq> -1, s))
           else map_option (Pair True) (refreshLine s) }
         else do {
           b \<leftarrow> memmove (l_pos s + 1) (l_pos s) (l_len s - l_pos s) (l_buf s);
           b \<leftarrow> poke (l_pos s) c b;
           b \<leftarrow> poke (l_len s + 1) EOS b;
           map_option (Pair True) (refreshLine (s\<lparr>l_buf := b, l_len := l_len s + 1, l_pos := l_pos s + 1\<rparr>)) })
      else Some (True, s))"

definition linenoiseEditMoveLeft :: "led \<Rightarrow> led option" where
  "linenoiseEditMoveLeft s = (if l_pos s > 0 then refreshLine (s\<lparr>l_pos := l_pos s - 1\<rparr>) else Some s)"

definition linenoiseEditMoveRight :: "led \<Rightarrow> led option" where
  "linenoiseEditMoveRight s = (if l_pos s \<noteq> l_len s then refreshLine (s\<lparr>l_pos := l_pos s + 1\<rparr>) else Some s)"

definition linenoiseEditMoveHome :: "led \<Rightarrow> led option" where
  "linenoiseEditMoveHome s = (if l_pos s \<noteq> 0 then refreshLine (s\<lparr>l_pos := 0\<rparr>) else Some s)"

definition linenoiseEditMoveEnd :: "led \<Rightarrow> led option" where
  "linenoiseEditMoveEnd s = (if l_pos s \<noteq> l_len s then refreshLine (s\<lparr>l_pos := l_len s\<rparr>) else Some s)"

text \<open>\<^verbatim>\<open>strncpy\<close>: at most \<open>n\<close> bytes, filled up with NULs.\<close>

definition strncpy :: "string \<Rightarrow> nat \<Rightarrow> byte list \<Rightarrow> byte list option" where
  "strncpy t n b = (if n \<le> length b then Some (take n (t @ replicate n EOS) @ drop n b) else None)"

datatype hist_dir = HISTORY_NEXT | HISTORY_PREV

definition linenoiseEditHistoryNext :: "hist_dir \<Rightarrow> led \<Rightarrow> led option" where
  "linenoiseEditHistoryNext dir s =
     (if history_len s > 1 then do {
        s \<leftarrow> hist_free (history_len s - 1 - l_history_index s) s;
        t \<leftarrow> c_str (l_buf s);
        let (p, s) = strdup t s;
        s \<leftarrow> hist_put (history_len s - 1 - l_history_index s) p s;
        let i = l_history_index s + (if dir = HISTORY_PREV then 1 else -1);
        if i < 0 then Some (s\<lparr>l_history_index := 0\<rparr>)
        else if i \<ge> history_len s then Some (s\<lparr>l_history_index := history_len s - 1\<rparr>)
        else do {
          e \<leftarrow> hist_at (history_len s - 1 - i) s;
          t \<leftarrow> (case e of Str t \<Rightarrow> Some t | _ \<Rightarrow> None);
          b \<leftarrow> strncpy t (l_buflen s) (l_buf s);
          b \<leftarrow> (if l_buflen s = 0 then None else poke (l_buflen s - 1) EOS b);
          t \<leftarrow> c_str b;
          refreshLine (s\<lparr>l_history_index := i, l_buf := b, l_len := length t, l_pos := length t\<rparr>) } }
      else Some s)"

definition linenoiseEditDelete :: "led \<Rightarrow> led option" where
  "linenoiseEditDelete s =
     (if l_len s > 0 \<and> l_pos s < l_len s then do {
        b \<leftarrow> memmove (l_pos s) (l_pos s + 1) (l_len s - l_pos s - 1) (l_buf s);
        b \<leftarrow> poke (l_len s - 1) EOS b;
        refreshLine (s\<lparr>l_buf := b, l_len := l_len s - 1\<rparr>) }
      else Some s)"

definition linenoiseEditBackspace :: "led \<Rightarrow> led option" where
  "linenoiseEditBackspace s =
     (if l_pos s > 0 \<and> l_len s > 0 then do {
        b \<leftarrow> memmove (l_pos s - 1) (l_pos s) (l_len s - l_pos s) (l_buf s);
        b \<leftarrow> poke (l_len s - 1) EOS b;
        refreshLine (s\<lparr>l_buf := b, l_pos := l_pos s - 1, l_len := l_len s - 1\<rparr>) }
      else Some s)"

text \<open>Going back from a position while the byte before it is as given.\<close>

fun back_while :: "(byte \<Rightarrow> bool) \<Rightarrow> byte list \<Rightarrow> nat \<Rightarrow> nat option" where
  "back_while P b 0 = Some 0"
| "back_while P b (Suc n) = do { c \<leftarrow> peek n b; if P c then back_while P b n else Some (Suc n) }"

definition linenoiseEditDeletePrevWord :: "led \<Rightarrow> led option" where
  "linenoiseEditDeletePrevWord s = do {
     p \<leftarrow> back_while (\<lambda>c. c = CHR '' '') (l_buf s) (l_pos s);
     p \<leftarrow> back_while (\<lambda>c. c \<noteq> CHR '' '') (l_buf s) p;
     b \<leftarrow> memmove p (l_pos s) (l_len s - l_pos s + 1) (l_buf s);
     refreshLine (s\<lparr>l_buf := b, l_pos := p, l_len := l_len s - (l_pos s - p)\<rparr>) }"

section \<open>Completion\<close>

text \<open>
  \<^verbatim>\<open>linenoiseAddCompletion\<close> leaves the list as it is when memory runs out.
\<close>

definition linenoiseAddCompletion :: "string \<Rightarrow> string list \<times> 'a ln_scheme \<Rightarrow> string list \<times> 'a ln_scheme" where
  "linenoiseAddCompletion t = (\<lambda>(lc, s).
     case alloc s of
       (False, s1) \<Rightarrow> (lc, s1)
     | (True, s1) \<Rightarrow> (case alloc s1 of (ok, s2) \<Rightarrow> (if ok then lc @ [t] else lc, s2)))"

text \<open>\<^verbatim>\<open>dirname\<close> and \<^verbatim>\<open>basename\<close> of \<^verbatim>\<open>libgen.h\<close>.\<close>

abbreviation SLASH :: byte where "SLASH \<equiv> CHR ''/''"

definition rstrip :: "string \<Rightarrow> string" where
  "rstrip t = rev (dropWhile (\<lambda>c. c = SLASH) (rev t))"

definition dirname :: "string \<Rightarrow> string" where
  "dirname t =
     (let d = rev (dropWhile (\<lambda>c. c \<noteq> SLASH) (rev (rstrip t))) in
      if t \<noteq> [] \<and> rstrip t = [] then [SLASH]
      else if d = [] then ''.''
      else if rstrip d = [] then [SLASH] else rstrip d)"

definition basename :: "string \<Rightarrow> string" where
  "basename t =
     (if t = [] then ''.''
      else if rstrip t = [] then [SLASH]
      else rev (takeWhile (\<lambda>c. c \<noteq> SLASH) (rev (rstrip t))))"

fun complete_entries :: "string \<Rightarrow> string \<Rightarrow> string list \<Rightarrow> string list \<times> 'a ln_scheme \<Rightarrow> (string list \<times> 'a ln_scheme) option" where
  "complete_entries dirn basen [] a = Some a"
| "complete_entries dirn basen (d # ds) (lc, s) =
     (if prefix basen d then
        (case alloc s of
           (False, s) \<Rightarrow> None
         | (True, s) \<Rightarrow>
             (let fullpath = (if last dirn \<noteq> SLASH then dirn @ [SLASH] else dirn) @ d in
              complete_entries dirn basen ds
                (case ln_stat s fullpath of
                   None \<Rightarrow> (lc, s)
                 | Some isdir \<Rightarrow> linenoiseAddCompletion (if isdir then fullpath @ [SLASH] else fullpath) (lc, s))))
      else complete_entries dirn basen ds (lc, s))"

text \<open>
  When \<^verbatim>\<open>strdup\<close> fails \<^verbatim>\<open>dirname\<close> and \<^verbatim>\<open>basename\<close> are given a null pointer, which stands for the current
  directory; the \<^verbatim>\<open>malloc\<close> of the path is not checked.
\<close>

definition file_completion_cb :: "string \<Rightarrow> 'a ln_scheme \<Rightarrow> (string list \<times> 'a ln_scheme) option" where
  "file_completion_cb t s =
     (case alloc s of
        (basec, s) \<Rightarrow>
          (case alloc s of
             (dirc, s) \<Rightarrow>
               (let dirn = (if dirc then dirname t else ''.'');
                    basen = (if basec then basename t else ''.'')
                in case ln_dir s dirn of
                     None \<Rightarrow> Some ([], s)
                   | Some ds \<Rightarrow> complete_entries dirn basen ds ([], s))))"

text \<open>What is shown while completing: a completion, or the line.\<close>

definition show_completion :: "string list \<Rightarrow> nat \<Rightarrow> led \<Rightarrow> led option" where
  "show_completion lc i s =
     (if i < length lc then do {
        s1 \<leftarrow> refreshLine (s\<lparr>l_len := length (lc ! i), l_pos := length (lc ! i), l_buf := lc ! i @ [EOS]\<rparr>);
        Some (s1\<lparr>l_len := l_len s, l_pos := l_pos s, l_buf := l_buf s\<rparr>) }
      else refreshLine s)"

text \<open>\<^verbatim>\<open>snprintf\<close> stores at most \<open>n - 1\<close> characters and a NUL; the length is that of the whole text.\<close>

definition snprintf_s :: "nat \<Rightarrow> string \<Rightarrow> byte list \<Rightarrow> byte list option" where
  "snprintf_s n t b =
     (if n = 0 then Some b
      else let t = take (n - 1) t @ [EOS] in
        if length t \<le> length b then Some (t @ drop (length t) b) else None)"

text \<open>Refreshing reads nothing.\<close>

lemma alloc_keeps: "alloc s = (ok, s') \<Longrightarrow> s' = s\<lparr>ln_mem := ln_mem s'\<rparr>"
  by (auto simp: alloc_def split: list.splits)

lemma abAppend_keeps: "abAppend src n ab s = Some (ab', s') \<Longrightarrow> s' = s\<lparr>ln_mem := ln_mem s'\<rparr>"
  by (auto simp: abAppend_def split: if_splits prod.splits dest: alloc_keeps)

lemma abText_keeps: "abText t a = Some a' \<Longrightarrow> snd a' = (snd a)\<lparr>ln_mem := ln_mem (snd a')\<rparr>"
  by (cases a; cases a') (auto simp: abText_def dest: abAppend_keeps)

lemma abTimes_keeps: "abTimes n t a = Some a' \<Longrightarrow> snd a' = (snd a)\<lparr>ln_mem := ln_mem (snd a')\<rparr>"
proof (induction n t a rule: abTimes.induct)
  case (2 n t a)
  then obtain a1 where a: "abText t a = Some a1" "abTimes n t a1 = Some a'" by (auto split: bind_splits)
  have "snd a' = (snd a1)\<lparr>ln_mem := ln_mem (snd a')\<rparr>" "snd a1 = (snd a)\<lparr>ln_mem := ln_mem (snd a1)\<rparr>"
    using 2(1) [OF a] abText_keeps [OF a(1)] .
  then show ?case by (cases "snd a"; cases "snd a1"; cases "snd a'") simp
qed auto

text \<open>What may differ after a refresh.\<close>

definition redrawn :: "led \<Rightarrow> led \<Rightarrow> bool" where
  "redrawn s s' \<longleftrightarrow>
     s' = s\<lparr>os_wres := os_wres s', os_out := os_out s', os_errno := os_errno s', ln_mem := ln_mem s',
            l_oldpos := l_oldpos s', l_maxrows := l_maxrows s'\<rparr>"

lemma redrawn_refl [simp]: "redrawn s s"
  by (simp add: redrawn_def)

lemma redrawn_trans: "redrawn s t \<Longrightarrow> redrawn t u \<Longrightarrow> redrawn s u"
  by (cases s; cases t; cases u) (simp add: redrawn_def)

lemma redrawn_mem: "s' = s\<lparr>ln_mem := ln_mem s'\<rparr> \<Longrightarrow> redrawn s s'"
  by (cases s; cases s') (simp add: redrawn_def)

lemma redrawn_write [simp]: "redrawn s (snd (os_write fd bs s))"
  by (cases s) (simp add: redrawn_def os_write_def os_put_def Let_def split: list.split)

lemma redrawn_text: "abText t (ab, s1) = Some (ab', s2) \<Longrightarrow> redrawn s s1 \<Longrightarrow> redrawn s s2"
  using redrawn_trans [OF _ redrawn_mem [of s2 s1]] abText_keeps [of t "(ab, s1)"] by fastforce

lemma redrawn_times: "abTimes n t (ab, s1) = Some (ab', s2) \<Longrightarrow> redrawn s s1 \<Longrightarrow> redrawn s s2"
  using redrawn_trans [OF _ redrawn_mem [of s2 s1]] abTimes_keeps [of n t "(ab, s1)"] by fastforce

lemma redrawn_append: "abAppend src k ab s1 = Some (ab', s2) \<Longrightarrow> redrawn s s1 \<Longrightarrow> redrawn s s2"
  using redrawn_trans [OF _ redrawn_mem [of s2 s1]] abAppend_keeps by blast

lemma redrawn_if: "abIf b t (ab, s1) = Some (ab', s2) \<Longrightarrow> redrawn s s1 \<Longrightarrow> redrawn s s2"
  by (auto simp: abIf_def split: if_splits intro: redrawn_text)

lemma redrawn_size: "redrawn s s1 \<Longrightarrow> redrawn s (grow_rows r s1)" "redrawn s s1 \<Longrightarrow> redrawn s (s1\<lparr>l_oldpos := p\<rparr>)"
  by (cases s; cases s1; simp add: redrawn_def grow_rows_def)+

lemmas redrawn_write_step = redrawn_trans [OF _ redrawn_write]

lemma refreshSingleLine_redrawn: "refreshSingleLine s = Some s' \<Longrightarrow> redrawn s s'"
  unfolding refreshSingleLine_def Let_def
  by (auto split: bind_splits if_splits)
     (rule redrawn_write_step, (erule redrawn_text redrawn_append | rule redrawn_refl)+)

lemma refreshMultiLine_redrawn: "refreshMultiLine s = Some s' \<Longrightarrow> redrawn s s'"
  unfolding refreshMultiLine_def Let_def
  by (auto split: bind_splits prod.splits simp del: append.simps split: if_split_asm)
     (rule redrawn_write_step, ((erule redrawn_text redrawn_if redrawn_append redrawn_times | rule redrawn_size redrawn_refl)+))+

lemma refreshLine_redrawn: "refreshLine s = Some s' \<Longrightarrow> redrawn s s'"
  by (auto simp: refreshLine_def intro: refreshSingleLine_redrawn refreshMultiLine_redrawn split: if_splits)

lemma redrawn_in: "redrawn s s' \<Longrightarrow> os_in s' = os_in s \<and> l_ifd s' = l_ifd s \<and> ln_stdin s' = ln_stdin s"
  by (cases s; cases s') (simp add: redrawn_def)

lemma show_completion_in: "show_completion lc i s = Some s' \<Longrightarrow> os_in s' = os_in s \<and> l_ifd s' = l_ifd s \<and> ln_stdin s' = ln_stdin s"
  by (auto simp: show_completion_def split: if_splits bind_splits dest!: refreshLine_redrawn redrawn_in)

lemma os_read_size: "os_read fd n s = (Inr (c # cs), s') \<Longrightarrow> l_ifd s' = l_ifd s \<and> ln_stdin s' = ln_stdin s \<and> in_size fd s' < in_size fd s"
  using os_read_decreases [of fd n s c cs s']
  by (auto simp: os_read_def split: list.splits rd.splits)

lemma linenoiseBeep_in [simp]: "os_in (linenoiseBeep s) = os_in s" "l_ifd (linenoiseBeep s) = l_ifd s" "ln_stdin (linenoiseBeep s) = ln_stdin s"
  by (simp_all add: linenoiseBeep_def os_write_def os_put_def Let_def split: list.split)

text \<open>The result is the last character read, \<open>None\<close> for -1.\<close>

function complete_loop :: "string list \<Rightarrow> nat \<Rightarrow> led \<Rightarrow> (byte option \<times> led) option" where
  "complete_loop lc i s =
     (case show_completion lc i s of
        None \<Rightarrow> None
      | Some s1 \<Rightarrow>
          (case os_read (l_ifd s1) 1 s1 of
             (Inr (c # _), s2) \<Rightarrow>
               if c = TAB then
                 (let j = (i + 1) mod (length lc + 1) in
                  complete_loop lc j (if j = length lc then linenoiseBeep s2 else s2))
               else if c = ESC then
                 (if i < length lc then map_option (Pair (Some c)) (refreshLine s2) else Some (Some c, s2))
               else
                 (if i < length lc then do {
                    b \<leftarrow> snprintf_s (l_buflen s2) (lc ! i) (l_buf s2);
                    Some (Some c, s2\<lparr>l_buf := b, l_len := length (lc ! i), l_pos := length (lc ! i)\<rparr>) }
                  else Some (Some c, s2))
           | (_, s2) \<Rightarrow> Some (None, s2)))"
  by pat_completeness auto
termination
  by (relation "measure (\<lambda>(lc, i, s). in_size (l_ifd s) s)")
     (auto dest!: show_completion_in sym [of _ "os_read _ _ _"] os_read_size simp: in_size_def)

declare complete_loop.simps [simp del]

definition completeLine :: "led \<Rightarrow> (byte option \<times> led) option" where
  "completeLine s = do {
     t \<leftarrow> c_str (l_buf s);
     (lc, s) \<leftarrow> file_completion_cb t s;
     if lc = [] then Some (Some EOS, linenoiseBeep s) else complete_loop lc 0 s }"

section \<open>The keys\<close>

text \<open>One more byte of an escape sequence; at the end of input the array keeps what was in it.\<close>

definition read_seq :: "nat \<Rightarrow> led \<Rightarrow> byte option \<times> led" where
  "read_seq i s =
     (case os_read (l_ifd s) 1 s of
        (Inl e, s1) \<Rightarrow> (None, s1)
      | (Inr [], s1) \<Rightarrow> (Some (ln_junk s1 i), s1)
      | (Inr (c # _), s1) \<Rightarrow> (Some c, s1))"

definition esc_bracket :: "byte \<Rightarrow> led \<Rightarrow> led option" where
  "esc_bracket c s =
     (if byte_val (CHR ''0'') \<le> byte_val c \<and> byte_val c \<le> byte_val (CHR ''9'') then
        (case read_seq 2 s of
           (None, s1) \<Rightarrow> Some s1
         | (Some d, s1) \<Rightarrow> if d = CHR ''~'' \<and> c = CHR ''3'' then linenoiseEditDelete s1 else Some s1)
      else if c = CHR ''A'' then linenoiseEditHistoryNext HISTORY_PREV s
      else if c = CHR ''B'' then linenoiseEditHistoryNext HISTORY_NEXT s
      else if c = CHR ''C'' then linenoiseEditMoveRight s
      else if c = CHR ''D'' then linenoiseEditMoveLeft s
      else if c = CHR ''H'' then linenoiseEditMoveHome s
      else if c = CHR ''F'' then linenoiseEditMoveEnd s
      else Some s)"

definition esc_key :: "led \<Rightarrow> led option" where
  "esc_key s =
     (case read_seq 0 s of
        (None, s1) \<Rightarrow> Some s1
      | (Some a, s1) \<Rightarrow>
          (case read_seq 1 s1 of
             (None, s2) \<Rightarrow> Some s2
           | (Some c, s2) \<Rightarrow>
               if a = CHR ''['' then esc_bracket c s2
               else if a = CHR ''O'' then
                 (if c = CHR ''H'' then linenoiseEditMoveHome s2
                  else if c = CHR ''F'' then linenoiseEditMoveEnd s2 else Some s2)
               else Some s2))"

definition swap_key :: "led \<Rightarrow> led option" where
  "swap_key s =
     (if l_pos s > 0 \<and> l_pos s < l_len s then do {
        aux \<leftarrow> peek (l_pos s - 1) (l_buf s);
        c \<leftarrow> peek (l_pos s) (l_buf s);
        b \<leftarrow> poke (l_pos s - 1) c (l_buf s);
        b \<leftarrow> poke (l_pos s) aux b;
        refreshLine (s\<lparr>l_buf := b, l_pos := (if l_pos s \<noteq> l_len s - 1 then l_pos s + 1 else l_pos s)\<rparr>) }
      else Some s)"

text \<open>The line being edited is the last entry of the history; it is taken out again.\<close>

definition drop_entry :: "'a ln_scheme \<Rightarrow> 'a ln_scheme option" where
  "drop_entry s = (let s = s\<lparr>history_len := history_len s - 1\<rparr> in hist_free (history_len s) s)"

text \<open>The result is the return value of the function, if the key ends it.\<close>

definition edit_key :: "byte \<Rightarrow> led \<Rightarrow> (int option \<times> led) option" where
  "edit_key c s =
     (if c = CR then do {
        s \<leftarrow> drop_entry s;
        s \<leftarrow> (if mlmode s then linenoiseEditMoveEnd s else Some s);
        Some (Some (int (l_len s)), s) }
      else if c = CTRL_C then Some (Some (-1), s\<lparr>os_errno := EAGAIN\<rparr>)
      else if c = CTRL_D \<and> l_len s = 0 then map_option (Pair (Some (-1))) (drop_entry s)
      else if c = DEL \<or> c = CTRL_H then map_option (Pair None) (linenoiseEditBackspace s)
      else if c = CTRL_D then map_option (Pair None) (linenoiseEditDelete s)
      else if c = CTRL_T then map_option (Pair None) (swap_key s)
      else if c = CTRL_B then map_option (Pair None) (linenoiseEditMoveLeft s)
      else if c = CTRL_F then map_option (Pair None) (linenoiseEditMoveRight s)
      else if c = CTRL_P then map_option (Pair None) (linenoiseEditHistoryNext HISTORY_PREV s)
      else if c = CTRL_N then map_option (Pair None) (linenoiseEditHistoryNext HISTORY_NEXT s)
      else if c = ESC then map_option (Pair None) (esc_key s)
      else if c = CTRL_U then do {
        b \<leftarrow> poke 0 EOS (l_buf s);
        map_option (Pair None) (refreshLine (s\<lparr>l_buf := b, l_pos := 0, l_len := 0\<rparr>)) }
      else if c = CTRL_K then do {
        b \<leftarrow> poke (l_pos s) EOS (l_buf s);
        map_option (Pair None) (refreshLine (s\<lparr>l_buf := b, l_len := l_pos s\<rparr>)) }
      else if c = CTRL_A then map_option (Pair None) (linenoiseEditMoveHome s)
      else if c = CTRL_E then map_option (Pair None) (linenoiseEditMoveEnd s)
      else if c = CTRL_L then map_option (Pair None) (refreshLine (linenoiseClearScreen s))
      else if c = CTRL_W then map_option (Pair None) (linenoiseEditDeletePrevWord s)
      else map_option (\<lambda>(ok, s). (if ok then None else Some (-1), s)) (linenoiseEditInsert c s))"

text \<open>What the keys leave alone: where input comes from and the input itself, which only shrinks.\<close>

definition reads_on :: "led \<Rightarrow> led \<Rightarrow> bool" where
  "reads_on s s' \<longleftrightarrow> l_ifd s' = l_ifd s \<and> ln_stdin s' = ln_stdin s \<and> in_size (l_ifd s) s' \<le> in_size (l_ifd s) s"

lemma reads_on_trans: "reads_on s t \<Longrightarrow> reads_on t u \<Longrightarrow> reads_on s u"
  by (auto simp: reads_on_def)

lemma reads_on_same: "os_in s' = os_in s \<Longrightarrow> l_ifd s' = l_ifd s \<Longrightarrow> ln_stdin s' = ln_stdin s \<Longrightarrow> reads_on s s'"
  by (simp add: reads_on_def in_size_def)

lemma refreshLine_reads: "refreshLine s1 = Some s' \<Longrightarrow> os_in s1 = os_in s \<Longrightarrow> l_ifd s1 = l_ifd s \<Longrightarrow> ln_stdin s1 = ln_stdin s \<Longrightarrow> reads_on s s'"
  using redrawn_in [OF refreshLine_redrawn] by (auto intro: reads_on_same)

lemma hist_keeps_input:
  "hist_put i p s = Some s' \<Longrightarrow> os_in s' = os_in s \<and> l_ifd s' = l_ifd s \<and> ln_stdin s' = ln_stdin s"
  "hist_free i s = Some s' \<Longrightarrow> os_in s' = os_in s \<and> l_ifd s' = l_ifd s \<and> ln_stdin s' = ln_stdin s"
  "strdup t s = (q, s') \<Longrightarrow> os_in s' = os_in s \<and> l_ifd s' = l_ifd s \<and> ln_stdin s' = ln_stdin s"
  by (auto simp: hist_put_def hist_free_def strdup_def alloc_def split: option.splits if_splits ptr.splits list.splits)

lemma drop_entry_input: "drop_entry s = Some s' \<Longrightarrow> os_in s' = os_in s \<and> l_ifd s' = l_ifd s \<and> ln_stdin s' = ln_stdin s"
  by (auto simp: drop_entry_def dest: hist_keeps_input)

lemmas edit_ops_def = linenoiseEditMoveLeft_def linenoiseEditMoveRight_def linenoiseEditMoveHome_def linenoiseEditMoveEnd_def
  linenoiseEditDelete_def linenoiseEditBackspace_def linenoiseEditDeletePrevWord_def swap_key_def

lemma edit_ops_read:
  "linenoiseEditMoveLeft s = Some s' \<Longrightarrow> reads_on s s'"
  "linenoiseEditMoveRight s = Some s' \<Longrightarrow> reads_on s s'"
  "linenoiseEditMoveHome s = Some s' \<Longrightarrow> reads_on s s'"
  "linenoiseEditMoveEnd s = Some s' \<Longrightarrow> reads_on s s'"
  "linenoiseEditDelete s = Some s' \<Longrightarrow> reads_on s s'"
  "linenoiseEditBackspace s = Some s' \<Longrightarrow> reads_on s s'"
  "linenoiseEditDeletePrevWord s = Some s' \<Longrightarrow> reads_on s s'"
  "swap_key s = Some s' \<Longrightarrow> reads_on s s'"
  by (auto simp: edit_ops_def reads_on_same split: if_splits bind_splits elim!: refreshLine_reads)

lemma history_next_reads: "linenoiseEditHistoryNext d s = Some s' \<Longrightarrow> reads_on s s'"
  unfolding linenoiseEditHistoryNext_def Let_def
  by (auto simp: reads_on_same split: if_splits bind_splits prod.splits option.splits ptr.splits
      dest!: hist_keeps_input refreshLine_redrawn redrawn_in)

lemma write_keeps_input: "os_write fd bs s = (r, s') \<Longrightarrow> os_in s' = os_in s \<and> l_ifd s' = l_ifd s \<and> ln_stdin s' = ln_stdin s"
  by (auto simp: os_write_def os_put_def Let_def split: list.splits if_splits)

lemma insert_reads: "linenoiseEditInsert c s = Some (r, s') \<Longrightarrow> reads_on s s'"
  by (auto simp: linenoiseEditInsert_def Let_def reads_on_same split: if_splits bind_splits prod.splits
      elim!: refreshLine_reads dest!: write_keeps_input)

lemma read_seq_reads: "read_seq i s = (r, s') \<Longrightarrow> reads_on s s'"
  by (auto simp: read_seq_def reads_on_def in_size_def os_read_def split: list.splits rd.splits sum.splits if_splits)

lemma esc_bracket_reads: "esc_bracket c s = Some s' \<Longrightarrow> reads_on s s'"
  unfolding esc_bracket_def
  by (auto split: if_splits prod.splits option.splits dest!: read_seq_reads edit_ops_read history_next_reads
      intro: reads_on_trans simp: reads_on_same)

lemma esc_key_reads: "esc_key s = Some s' \<Longrightarrow> reads_on s s'"
  unfolding esc_key_def
  by (auto split: if_splits prod.splits option.splits dest!: read_seq_reads edit_ops_read esc_bracket_reads)
     (metis reads_on_trans)+

lemma edit_key_reads: "edit_key c s = Some (r, s') \<Longrightarrow> reads_on s s'"
  unfolding edit_key_def
  by (auto simp: reads_on_same split: if_splits bind_splits prod.splits
      dest!: edit_ops_read history_next_reads esc_key_reads insert_reads drop_entry_input
      elim!: refreshLine_reads)
     (auto simp: reads_on_def in_size_def linenoiseClearScreen_def os_write_def os_put_def Let_def split: list.splits)

lemma complete_loop_reads: "complete_loop lc i s = Some (r, s') \<Longrightarrow> reads_on s s'"
proof (induction lc i s rule: complete_loop.induct)
  case (1 lc i s)
  obtain s1 where s1: "show_completion lc i s = Some s1"
    using 1(2) by (subst (asm) complete_loop.simps) (auto split: option.splits)
  obtain q s2 where rd: "os_read (l_ifd s1) 1 s1 = (q, s2)" by fastforce
  have s: "reads_on s s1" using show_completion_in [OF s1] by (simp add: reads_on_same)
  have t: "reads_on s1 s2"
    using rd by (auto simp: reads_on_def in_size_def os_read_def split: list.splits rd.splits if_splits)
  show ?case
  proof (cases "\<exists>cs. q = Inr (TAB # cs)")
    case True
    then obtain cs where q: "q = Inr (TAB # cs)" by blast
    let ?j = "(i + 1) mod (length lc + 1)"
    let ?s = "if ?j = length lc then linenoiseBeep s2 else s2"
    have "complete_loop lc ?j ?s = Some (r, s')"
      using 1(2) by (subst (asm) complete_loop.simps) (simp add: s1 rd q Let_def del: One_nat_def)
    then have "reads_on ?s s'" using 1(1) [OF s1 rd [symmetric] q refl refl] by blast
    moreover have "reads_on s2 ?s" by (simp add: reads_on_same)
    ultimately show ?thesis using s t reads_on_trans by blast
  next
    case False
    have "reads_on s2 s'"
      using 1(2) False
      by (subst (asm) complete_loop.simps)
         (auto simp: s1 rd reads_on_same simp del: One_nat_def split: sum.splits list.splits if_splits bind_splits
           dest!: refreshLine_redrawn redrawn_in)
    then show ?thesis using s t reads_on_trans by blast
  qed
qed

lemma alloc_input: "alloc s = (ok, s') \<Longrightarrow> os_in s' = os_in s \<and> l_ifd s' = l_ifd s \<and> ln_stdin s' = ln_stdin s"
  by (auto simp: alloc_def split: list.splits)

lemma add_completion_input [simp]:
  "os_in (snd (linenoiseAddCompletion t (lc, s))) = os_in s" "l_ifd (snd (linenoiseAddCompletion t (lc, s))) = l_ifd s"
  "ln_stdin (snd (linenoiseAddCompletion t (lc, s))) = ln_stdin s"
  by (auto simp: linenoiseAddCompletion_def alloc_def split: list.splits bool.splits)

lemma complete_entries_input:
  "complete_entries dirn basen ds a = Some (lc, s') \<Longrightarrow>
     os_in s' = os_in (snd a) \<and> l_ifd s' = l_ifd (snd a) \<and> ln_stdin s' = ln_stdin (snd a)"
proof (induction dirn basen ds a rule: complete_entries.induct)
  case (2 dirn basen d ds lc s)
  show ?case
  proof (cases "prefix basen d")
    case False
    then show ?thesis using 2 by simp
  next
    case True
    let ?f = "(if last dirn \<noteq> SLASH then dirn @ [SLASH] else dirn) @ d"
    obtain s1 where s1: "alloc s = (True, s1)" using True "2.prems" by (auto split: prod.splits bool.splits)
    let ?a = "case ln_stat s1 ?f of None \<Rightarrow> (lc, s1)
      | Some isdir \<Rightarrow> linenoiseAddCompletion (if isdir then ?f @ [SLASH] else ?f) (lc, s1)"
    have "complete_entries dirn basen ds ?a = Some (lc', s') \<Longrightarrow>
       os_in s' = os_in (snd ?a) \<and> l_ifd s' = l_ifd (snd ?a) \<and> ln_stdin s' = ln_stdin (snd ?a)" for lc'
      using "2.IH"(1) [OF True s1 [symmetric] refl refl] "2.prems" True s1 by (simp add: Let_def)
    moreover have "os_in (snd ?a) = os_in s1 \<and> l_ifd (snd ?a) = l_ifd s1 \<and> ln_stdin (snd ?a) = ln_stdin s1"
      by (simp split: option.split)
    ultimately show ?thesis using "2.prems" True s1 alloc_input [OF s1] by (simp add: Let_def)
  qed
qed simp

lemma file_completion_input:
  assumes "file_completion_cb t s = Some (lc, s')"
  shows "os_in s' = os_in s \<and> l_ifd s' = l_ifd s \<and> ln_stdin s' = ln_stdin s"
proof -
  obtain b s1 d s2 where a: "alloc s = (b, s1)" "alloc s1 = (d, s2)" by fastforce
  have "os_in s' = os_in s2 \<and> l_ifd s' = l_ifd s2 \<and> ln_stdin s' = ln_stdin s2"
    using assms by (auto simp: file_completion_cb_def a Let_def split: option.splits dest: complete_entries_input)
  then show ?thesis using alloc_input [OF a(1)] alloc_input [OF a(2)] by simp
qed

lemma completeLine_reads: "completeLine s = Some (r, s') \<Longrightarrow> reads_on s s'"
  unfolding completeLine_def
  by (auto simp: reads_on_same split: bind_splits if_splits dest!: file_completion_input complete_loop_reads)
     (auto simp: reads_on_def in_size_def)

text \<open>
  The loop of \<^verbatim>\<open>linenoiseEdit\<close>.  A \<^verbatim>\<open>char\<close> is signed: a byte from 128 on that ends a completion counts
  as an error.
\<close>

function edit_loop :: "led \<Rightarrow> (int \<times> led) option" where
  "edit_loop s =
     (case os_read (l_ifd s) 1 s of
        (Inl e, s1) \<Rightarrow> Some (-1, s1)
      | (Inr [], s1) \<Rightarrow> Some (-1, s1\<lparr>os_errno := EAGAIN\<rparr>)
      | (Inr (c # _), s1) \<Rightarrow>
          (let tab = (c = TAB \<and> completionCallback s1 \<noteq> No_cb) in
           case (if tab then completeLine s1 else Some (Some c, s1)) of
             None \<Rightarrow> None
           | Some (None, s2) \<Rightarrow> Some (int (l_len s2), s2)
           | Some (Some d, s2) \<Rightarrow>
               if tab \<and> byte_val d \<ge> 128 then Some (int (l_len s2), s2)
               else if tab \<and> d = EOS then edit_loop s2
               else
                 (case edit_key d s2 of
                    None \<Rightarrow> None
                  | Some (None, s3) \<Rightarrow> edit_loop s3
                  | Some (Some r, s3) \<Rightarrow> Some (r, s3))))"
  by pat_completeness auto
termination
  by (relation "measure (\<lambda>s. in_size (l_ifd s) s)")
     (auto simp: reads_on_def split: if_splits dest!: sym [of _ "os_read _ _ _"] os_read_size completeLine_reads edit_key_reads)

declare edit_loop.simps [simp del]

text \<open>The result: the return value, the array and the state.\<close>

definition linenoiseEdit :: "int \<Rightarrow> int \<Rightarrow> byte list \<Rightarrow> nat \<Rightarrow> string \<Rightarrow> ln \<Rightarrow> (int \<times> byte list \<times> ln) option" where
  "linenoiseEdit stdin_fd stdout_fd buf buflen prompt s =
     (case getColumns stdin_fd stdout_fd s of
        (cols, s) \<Rightarrow> do {
          buf \<leftarrow> poke 0 EOS buf;
          if buflen = 0 then None else do {
          (_, s) \<leftarrow> linenoiseHistoryAdd [] s;
          (case os_write stdout_fd prompt s of
             (r, s) \<Rightarrow>
               if r = -1 then Some (-1, buf, s)
               else do {
                 (n, l) \<leftarrow> edit_loop (ln.extend s
                    \<lparr>l_ifd = stdin_fd, l_ofd = stdout_fd, l_buf = buf, l_buflen = buflen - 1, l_prompt = prompt,
                     l_plen = length prompt, l_pos = 0, l_oldpos = 0, l_len = 0, l_cols = word_of_int cols,
                     l_maxrows = 0, l_history_index = 0\<rparr>);
                 Some (n, l_buf l, ln.truncate l) }) } })"

section \<open>Reading a line\<close>

text \<open>\<^verbatim>\<open>fgets\<close> on stdin, which \<^verbatim>\<open>stdio\<close> reads in blocks.\<close>

definition STDIO_BLOCK :: nat where "STDIO_BLOCK = 4096"

function fgets_stdin :: "nat \<Rightarrow> byte list \<Rightarrow> 'a ln_scheme \<Rightarrow> byte list option \<times> 'a ln_scheme" where
  "fgets_stdin n acc s =
     (if n = 0 then (Some acc, s)
      else
        (case ln_stdin s of
           c # cs \<Rightarrow>
             (let s1 = s\<lparr>ln_stdin := cs\<rparr> in
              if c = LF then (Some (acc @ [c]), s1) else fgets_stdin (n - 1) (acc @ [c]) s1)
         | [] \<Rightarrow>
             (case os_read STI STDIO_BLOCK s of
                (Inl e, s1) \<Rightarrow> (None, s1)
              | (Inr [], s1) \<Rightarrow> (if acc = [] then None else Some acc, s1)
              | (Inr (b # bs), s1) \<Rightarrow> fgets_stdin n acc (s1\<lparr>ln_stdin := b # bs\<rparr>))))"
  by pat_completeness auto
termination
  by (relation "measures [\<lambda>(n, acc, s). n, \<lambda>(n, acc, s). in_size STI s]")
     (auto dest!: sym [of _ "os_read _ _ _"] os_read_decreases simp: in_size_def)

declare fgets_stdin.simps [simp del]

definition linenoiseRaw :: "byte list \<Rightarrow> nat \<Rightarrow> string \<Rightarrow> ln \<Rightarrow> (int \<times> byte list \<times> ln) option" where
  "linenoiseRaw buf buflen prompt s =
     (if buflen = 0 then Some (-1, buf, s\<lparr>os_errno := EINVAL\<rparr>)
      else if \<not> isatty STI s then
        (case fgets_stdin (buflen - 1) [] s of
           (None, s) \<Rightarrow> Some (-1, buf, s)
         | (Some b, s) \<Rightarrow>
             (let line = cstring b;
                  line = (if line \<noteq> [] \<and> last line = LF then butlast line else line)
              in Some (int (length line), line @ [EOS], s)))
      else
        (case enableRawMode STI s of
           (False, s) \<Rightarrow> Some (-1, buf, s)
         | (True, s) \<Rightarrow> do {
             (n, buf, s) \<leftarrow> linenoiseEdit STI STO buf buflen prompt s;
             Some (n, buf, snd (os_write STO [LF] (disableRawMode STI s))) }))"

definition strip_eol :: "string \<Rightarrow> string" where
  "strip_eol l = rev (dropWhile (\<lambda>c. c = LF \<or> c = CR) (rev l))"

text \<open>The result is the allocated line, \<open>None\<close> for \<^verbatim>\<open>NULL\<close>.\<close>

definition dup_line :: "string \<Rightarrow> 'a ln_scheme \<Rightarrow> string option \<times> 'a ln_scheme" where
  "dup_line t s = (case alloc s of (ok, s) \<Rightarrow> (if ok then Some t else None, s))"

definition linenoise :: "string \<Rightarrow> ln \<Rightarrow> (string option \<times> ln) option" where
  "linenoise prompt s =
     (if isUnsupportedTerm s then
        (case fgets_stdin (LINENOISE_MAX_LINE - 1) [] (snd (os_write STO prompt s)) of
           (None, s) \<Rightarrow> Some (None, s)
         | (Some b, s) \<Rightarrow> Some (dup_line (strip_eol (cstring b)) s))
      else do {
        (n, buf, s) \<leftarrow> linenoiseRaw (map (ln_junk s) [0..<LINENOISE_MAX_LINE]) LINENOISE_MAX_LINE prompt s;
        if n = -1 then Some (None, s)
        else do { t \<leftarrow> c_str buf; Some (dup_line t s) } })"

end
