(* ===== verification/Line_Edit.thy ===== *)
theory Line_Edit
  imports Linenoise
begin

text \<open>
  The line editor on the C buffer against its specification, a text with a cursor in it.  Every refresh
  ends and stays within its arrays when the prompt leaves at least one column (\<open>draw_ok\<close>), and shows the
  part of the line around the cursor; every editing operation does to the buffer what the
  specification does to the text (locale \<open>text_editor\<close>).
\<close>

section \<open>Refreshing\<close>

lemma skip_left_result:
  assumes "p < unat cols" "p + n < 2 ^ 64" "q \<le> n"
  shows "skip_left cols (of_nat p) k (of_nat n) (of_nat q) =
           Some (k + (p + q + 1 - unat cols), of_nat (n - (p + q + 1 - unat cols)), of_nat (q - (p + q + 1 - unat cols)))"
  using assms
proof (induction q arbitrary: n k)
  case 0
  then have "(of_nat p :: 64 word) + of_nat 0 < cols" by (simp add: word_less_nat_alt unat_of_nat)
  then show ?case using 0 by (subst skip_left.simps) simp
next
  case (Suc q)
  have u: "unat ((of_nat p :: 64 word) + of_nat (Suc q)) = p + Suc q"
    using Suc.prems by (simp add: unat_of_nat flip: of_nat_add of_nat_Suc del: of_nat_Suc)
  show ?case
  proof (cases "p + Suc q < unat cols")
    case True
    then have "(of_nat p :: 64 word) + of_nat (Suc q) < cols" by (simp only: word_less_nat_alt u)
    then show ?thesis using True by (subst skip_left.simps) (simp del: of_nat_Suc)
  next
    case False
    then have l: "\<not> (of_nat p :: 64 word) + of_nat (Suc q) < cols" by (simp only: word_less_nat_alt u not_less)
    have c: "cols \<noteq> 0" using Suc.prems(1) by auto
    have "(of_nat n :: 64 word) - 1 = of_nat (n - 1)" "(of_nat (Suc q) :: 64 word) - 1 = of_nat q"
      using Suc.prems(3) by (simp_all add: of_nat_diff)
    then have "skip_left cols (of_nat p) k (of_nat n) (of_nat (Suc q)) =
               skip_left cols (of_nat p) (k + 1) (of_nat (n - 1)) (of_nat q)"
      using l c by (subst skip_left.simps) (simp del: of_nat_Suc)
    also have "\<dots> = Some (k + 1 + (p + q + 1 - unat cols), of_nat (n - 1 - (p + q + 1 - unat cols)), of_nat (q - (p + q + 1 - unat cols)))"
      using Suc.prems by (intro Suc.IH) auto
    finally show ?thesis using False by simp
  qed
qed

lemma drop_right_result:
  assumes "p < unat cols" "p + n < 2 ^ 64"
  shows "drop_right cols (of_nat p) (of_nat n) = of_nat (min n (unat cols - p))"
  using assms
proof (induction n)
  case 0
  then have "\<not> cols < (of_nat p :: 64 word) + of_nat 0" by (simp add: word_less_nat_alt unat_of_nat)
  then show ?case by (subst drop_right.simps) simp
next
  case (Suc n)
  have u: "unat ((of_nat p :: 64 word) + of_nat (Suc n)) = p + Suc n"
    using Suc.prems by (simp add: unat_of_nat flip: of_nat_add of_nat_Suc del: of_nat_Suc)
  show ?case
  proof (cases "unat cols < p + Suc n")
    case True
    then have "cols < (of_nat p :: 64 word) + of_nat (Suc n)" by (simp only: word_less_nat_alt u)
    then have "drop_right cols (of_nat p) (of_nat (Suc n)) = drop_right cols (of_nat p) (of_nat n)"
      by (subst drop_right.simps) simp
    also have "\<dots> = of_nat (min n (unat cols - p))" using Suc by simp
    also have "min n (unat cols - p) = min (Suc n) (unat cols - p)" using True Suc.prems(1) by simp
    finally show ?thesis .
  next
    case False
    then have "\<not> cols < (of_nat p :: 64 word) + of_nat (Suc n)" by (simp only: word_less_nat_alt u not_less)
    moreover have "min (Suc n) (unat cols - p) = Suc n" using False Suc.prems(1) by simp
    ultimately show ?thesis by (subst drop_right.simps) (simp only: if_False)
  qed
qed

lemma int_of_size_nat: "n < 2 ^ 31 \<Longrightarrow> int_of_size (of_nat n) = int n"
  by (simp add: int_of_size_def unsigned_of_nat take_bit_nat_eq_self c_int_id)

text \<open>When the prompt fills the terminal, the left end is passed: the length to show becomes negative.\<close>

lemma skip_left_any:
  assumes "cols \<noteq> 0" "m = unat (plen + pos) + 1 - unat cols"
  shows "skip_left cols plen k n pos = Some (k + m, n - of_nat m, pos - of_nat m)"
  using assms(2)
proof (induction m arbitrary: k n pos)
  case 0
  then have "plen + pos < cols" by (simp add: word_less_nat_alt)
  then show ?case by (subst skip_left.simps) simp
next
  case (Suc m)
  have l: "\<not> plen + pos < cols" using Suc.prems by (simp add: word_less_nat_alt)
  have "0 < unat cols" using assms(1) by (simp add: unat_gt_0)
  then have "plen + pos \<noteq> 0" using l by (auto simp: word_less_nat_alt)
  then have "unat (plen + (pos - 1)) = unat (plen + pos) - 1" using unat_minus_one [of "plen + pos"] by (simp add: algebra_simps)
  moreover have "0 < unat (plen + pos)" using \<open>plen + pos \<noteq> 0\<close> by (simp add: unat_gt_0)
  ultimately have "m = unat (plen + (pos - 1)) + 1 - unat cols" using Suc.prems by linarith
  then have "skip_left cols plen (k + 1) (n - 1) (pos - 1) = Some (k + 1 + m, n - 1 - of_nat m, pos - 1 - of_nat m)"
    by (rule Suc.IH)
  then show ?case using l assms(1) by (subst skip_left.simps) (simp add: algebra_simps)
qed

lemma int_of_size_neg: "0 < n \<Longrightarrow> n \<le> 2 ^ 31 \<Longrightarrow> int_of_size (- of_nat n) = - int n"
proof -
  assume n: "0 < n" "n \<le> 2 ^ 31"
  have "uint (- of_nat n :: 64 word) = 2 ^ 64 - int n" using n by (simp add: uint_word_ariths(4) unsigned_of_nat take_bit_nat_eq_self zmod_zminus1_eq_if)
  moreover have "c_int (2 ^ 64 - int n) = c_int (- int n)" by (simp add: c_int_def signed_take_bit_eq_take_bit_shift) (simp add: take_bit_eq_mod mod_eq_dvd_iff)
  ultimately show ?thesis using n by (simp add: int_of_size_def c_int_id)
qed

text \<open>The prompt leaves a column for the line; in multi line mode there are columns at all.\<close>

definition draw_ok :: "led \<Rightarrow> bool" where
  "draw_ok s \<longleftrightarrow>
     l_pos s \<le> l_len s \<and> l_len s \<le> length (l_buf s) \<and> length (l_prompt s) + l_len s < 2 ^ 31 \<and>
     (if mlmode s then l_cols s \<noteq> 0 \<and> int_of_size (l_cols s) \<noteq> 0 else length (l_prompt s) < unat (l_cols s))"

lemma abText_total: "\<exists>a'. abText t a = Some a'"
  by (cases a) (simp add: abText_def abAppend_def case_prod_unfold)

lemma abIf_total: "\<exists>a'. abIf b t a = Some a'"
  using abText_total [of t a] by (auto simp: abIf_def)

lemma abTimes_total: "\<exists>a'. abTimes n t a = Some a'"
proof (induction n t a rule: abTimes.induct)
  case (2 n t a)
  obtain a1 where "abText t a = Some a1" using abText_total by blast
  with 2 show ?case by simp
qed simp

lemma abAppend_total: "0 \<le> n \<Longrightarrow> n \<le> int (length src) \<Longrightarrow> \<exists>a'. abAppend src n ab s = Some a'"
  by (simp add: abAppend_def case_prod_unfold)

lemma refreshSingleLine_total:
  assumes "draw_ok s" "\<not> mlmode s"
  shows "\<exists>s'. refreshSingleLine s = Some s'"
proof -
  let ?p = "length (l_prompt s)" and ?d = "length (l_prompt s) + l_pos s + 1 - unat (l_cols s)"
  let ?n = "l_len s - ?d" and ?m = "min (l_len s - ?d) (unat (l_cols s) - length (l_prompt s))"
  note a = assms [unfolded draw_ok_def]
  have c: "?p < unat (l_cols s)" "?p + l_len s < 2 ^ 64" "l_pos s \<le> l_len s" using a by auto
  have k: "skip_left (l_cols s) (of_nat ?p) 0 (of_nat (l_len s)) (of_nat (l_pos s)) = Some (?d, of_nat ?n, of_nat (l_pos s - ?d))"
    using skip_left_result [OF c] by simp
  have d: "drop_right (l_cols s) (of_nat ?p) (of_nat ?n) = of_nat ?m" using c by (intro drop_right_result) auto
  have m: "int_of_size (of_nat ?m) = int ?m" using a by (intro int_of_size_nat) auto
  have le: "?d \<le> length (l_buf s)" using a by auto
  obtain a1 where a1: "abText [CR] ([], s) = Some a1" using abText_total by blast
  obtain a2 where a2: "abText (l_prompt s) a1 = Some a2" using abText_total by blast
  obtain a3 where a3: "abAppend (drop ?d (l_buf s)) (int ?m) (fst a2) (snd a2) = Some a3"
    using a abAppend_total [of "int ?m" "drop ?d (l_buf s)"] by fastforce
  obtain a4 where a4: "abText (ESC # ''[0K'') a3 = Some a4" using abText_total by blast
  obtain ab s5 where "abText ([CR, ESC, CHR ''[''] @ dec_int (int_of_size (of_nat (l_pos s - ?d) + of_nat ?p)) @ ''C'') a4 = Some (ab, s5)"
    using abText_total by (metis surj_pair)
  then show ?thesis
    unfolding refreshSingleLine_def Let_def k using le
    by (simp only: Option.bind.bind_lunit prod.case d m a1 a2 a3 a4 not_less [symmetric] if_False) simp
qed

lemma refreshMultiLine_total:
  assumes "draw_ok s" "mlmode s"
  shows "\<exists>s'. refreshMultiLine s = Some s'"
proof -
  note a = assms [unfolded draw_ok_def]
  have "int_of_size (of_nat (l_len s)) = int (l_len s)" using a by (intro int_of_size_nat) auto
  then have ap: "\<exists>a'. abAppend (l_buf s) (int_of_size (of_nat (l_len s))) ab s1 = Some a'" for ab and s1 :: led
    using a abAppend_total [of "int (l_len s)" "l_buf s" ab s1] by simp
  have bnd: "\<exists>x. m = Some x \<Longrightarrow> (\<And>x. m = Some x \<Longrightarrow> \<exists>y. f x = Some y) \<Longrightarrow> \<exists>y. m \<bind> f = Some y"
    for m :: "'x option" and f :: "'x \<Rightarrow> 'y option" by auto
  show ?thesis
    unfolding refreshMultiLine_def Let_def
    using a by (auto intro!: bnd abText_total abIf_total abTimes_total ap)
qed

lemma refreshLine_total: "draw_ok s \<Longrightarrow> \<exists>s'. refreshLine s = Some s' \<and> redrawn s s'"
  using refreshSingleLine_total [of s] refreshMultiLine_total [of s] refreshLine_redrawn [of s]
  by (cases "mlmode s") (fastforce simp: refreshLine_def)+

text \<open>
  What an allocation, a write and the bookkeeping of sizes keep, a refresh keeps: the interface of the
  refresh to the rest of the state.
\<close>

locale draw_keeps =
  fixes P :: "led \<Rightarrow> bool"
  assumes alloc_P: "P s \<Longrightarrow> P (snd (alloc s))"
    and write_P: "P s \<Longrightarrow> P (snd (os_write fd bs s))"
    and size_P: "P s \<Longrightarrow> P (grow_rows r s)" "P s \<Longrightarrow> P (s\<lparr>l_oldpos := p\<rparr>)"
begin

lemma append_P: "abAppend src n ab1 s1 = Some (ab, s2) \<Longrightarrow> P s1 \<Longrightarrow> P s2"
  using alloc_P [of s1] by (auto simp: abAppend_def case_prod_unfold split: if_splits)

lemma text_P: "abText t (ab1, s1) = Some (ab, s2) \<Longrightarrow> P s1 \<Longrightarrow> P s2"
  by (auto simp: abText_def dest: append_P)

lemma if_P: "abIf b t (ab1, s1) = Some (ab, s2) \<Longrightarrow> P s1 \<Longrightarrow> P s2"
  by (auto simp: abIf_def split: if_splits dest: text_P)

lemma times_pair_P: "abTimes n t a = Some a' \<Longrightarrow> P (snd a) \<Longrightarrow> P (snd a')"
proof (induction n t a rule: abTimes.induct)
  case (2 n t a)
  then obtain a1 where a: "abText t a = Some a1" "abTimes n t a1 = Some a'" by (auto split: bind_splits)
  then show ?case using 2(1) [OF a] text_P 2(3) by (metis prod.collapse)
qed auto

lemma times_P: "abTimes n t (ab1, s1) = Some (ab, s2) \<Longrightarrow> P s1 \<Longrightarrow> P s2"
  using times_pair_P by fastforce

lemma single_P: "refreshSingleLine s = Some s' \<Longrightarrow> P s \<Longrightarrow> P s'"
  unfolding refreshSingleLine_def Let_def
  by (auto split: bind_splits if_splits)
     (rule write_P, (erule text_P append_P | assumption)+)

lemma multi_P: "refreshMultiLine s = Some s' \<Longrightarrow> P s \<Longrightarrow> P s'"
  unfolding refreshMultiLine_def Let_def
  by (auto split: bind_splits prod.splits simp del: append.simps split: if_split_asm)
     (rule write_P, (erule text_P append_P if_P times_P | rule size_P | assumption)+)+

lemma refresh_P: "refreshLine s = Some s' \<Longrightarrow> P s \<Longrightarrow> P s'"
  using single_P multi_P by (simp add: refreshLine_def split: if_splits)

end

text \<open>Without failing allocations there are none after a refresh either; and so for writes.\<close>

interpretation no_oom: draw_keeps "\<lambda>s. ln_mem s = []"
  by unfold_locales (simp_all add: alloc_def grow_rows_def os_write_def os_put_def Let_def split: list.split)

interpretation no_werr: draw_keeps "\<lambda>s. os_wres s = []"
  by unfold_locales (simp_all add: alloc_def grow_rows_def os_write_def os_put_def Let_def split: list.split)

section \<open>The text and its cursor\<close>

text \<open>The text before and after the cursor, in an array of \<open>cap\<close> bytes.\<close>

type_synonym etext = "byte list \<times> byte list"

datatype edit_op = Ins byte | Go_left | Go_right | Go_home | Go_end | Del_right | Del_left | Del_word | Del_line | Del_tail | Swap | Redraw

fun edit_spec :: "nat \<Rightarrow> edit_op \<Rightarrow> etext \<Rightarrow> etext" where
  "edit_spec cap (Ins c) (l, r) = (if length l + length r < cap then (l @ [c], r) else (l, r))"
| "edit_spec cap Go_left (l, r) = (if l = [] then (l, r) else (butlast l, last l # r))"
| "edit_spec cap Go_right (l, r) = (case r of [] \<Rightarrow> (l, r) | c # cs \<Rightarrow> (l @ [c], cs))"
| "edit_spec cap Go_home (l, r) = ([], l @ r)"
| "edit_spec cap Go_end (l, r) = (l @ r, [])"
| "edit_spec cap Del_right (l, r) = (l, tl r)"
| "edit_spec cap Del_left (l, r) = (butlast l, r)"
| "edit_spec cap Del_word (l, r) =
     (rev (dropWhile (\<lambda>c. c \<noteq> CHR '' '') (dropWhile (\<lambda>c. c = CHR '' '') (rev l))), r)"
| "edit_spec cap Del_line (l, r) = ([], [])"
| "edit_spec cap Del_tail (l, r) = (l, [])"
| "edit_spec cap Swap (l, r) =
     (case r of
        [] \<Rightarrow> (l, r)
      | [c] \<Rightarrow> if l = [] then (l, r) else (butlast l @ [c], [last l])
      | c # cs \<Rightarrow> if l = [] then (l, r) else (butlast l @ [c, last l], cs))"
| "edit_spec cap Redraw (l, r) = (l, r)"

text \<open>The operations of the source; the result of the insertion is looked at by its caller only.\<close>

fun edit_run :: "edit_op \<Rightarrow> led \<Rightarrow> led option" where
  "edit_run (Ins c) s = map_option snd (linenoiseEditInsert c s)"
| "edit_run Go_left s = linenoiseEditMoveLeft s"
| "edit_run Go_right s = linenoiseEditMoveRight s"
| "edit_run Go_home s = linenoiseEditMoveHome s"
| "edit_run Go_end s = linenoiseEditMoveEnd s"
| "edit_run Del_right s = linenoiseEditDelete s"
| "edit_run Del_left s = linenoiseEditBackspace s"
| "edit_run Del_word s = linenoiseEditDeletePrevWord s"
| "edit_run Del_line s = map_option snd (edit_key CTRL_U s)"
| "edit_run Del_tail s = map_option snd (edit_key CTRL_K s)"
| "edit_run Swap s = swap_key s"
| "edit_run Redraw s = map_option snd (edit_key CTRL_L s)"

definition ed_text :: "led \<Rightarrow> etext" where
  "ed_text s = (take (l_pos s) (l_buf s), take (l_len s - l_pos s) (drop (l_pos s) (l_buf s)))"

text \<open>The array: one byte more than \<^verbatim>\<open>buflen\<close>, the text, a NUL.\<close>

definition ed_ok :: "led \<Rightarrow> bool" where
  "ed_ok s \<longleftrightarrow>
     length (l_buf s) = l_buflen s + 1 \<and> l_pos s \<le> l_len s \<and> l_len s \<le> l_buflen s \<and> l_buf s ! l_len s = EOS \<and>
     length (l_prompt s) + l_buflen s < 2 ^ 31 \<and>
     (if mlmode s then l_cols s \<noteq> 0 \<and> int_of_size (l_cols s) \<noteq> 0 else length (l_prompt s) < unat (l_cols s))"

lemma ed_draw: "ed_ok s \<Longrightarrow> draw_ok s"
  by (auto simp: ed_ok_def draw_ok_def)

text \<open>The buffer written as text before, text after, NUL and the rest.\<close>

definition holds :: "led \<Rightarrow> byte list \<Rightarrow> byte list \<Rightarrow> byte list \<Rightarrow> bool" where
  "holds s l r j \<longleftrightarrow> l_buf s = l @ r @ EOS # j \<and> l_pos s = length l \<and> l_len s = length l + length r"

lemma ed_holds:
  assumes "ed_ok s"
  obtains j where "holds s (fst (ed_text s)) (snd (ed_text s)) j"
proof
  let ?b = "l_buf s"
  have "l_len s < length ?b" using assms by (simp add: ed_ok_def)
  then have "drop (l_len s) ?b = EOS # drop (l_len s + 1) ?b"
    using assms by (simp add: ed_ok_def Cons_nth_drop_Suc [symmetric])
  moreover have "take (l_pos s) ?b @ take (l_len s - l_pos s) (drop (l_pos s) ?b) = take (l_len s) ?b"
    using assms take_add [of "l_pos s" "l_len s - l_pos s" ?b] by (simp add: ed_ok_def)
  ultimately have "?b = take (l_pos s) ?b @ take (l_len s - l_pos s) (drop (l_pos s) ?b) @ EOS # drop (l_len s + 1) ?b"
    by (metis append.assoc append_take_drop_id)
  then show "holds s (fst (ed_text s)) (snd (ed_text s)) (drop (l_len s + 1) ?b)"
    using assms by (auto simp: holds_def ed_text_def ed_ok_def min_def)
qed

lemma holds_text: "holds s l r j \<Longrightarrow> ed_text s = (l, r)"
  by (simp add: holds_def ed_text_def)

text \<open>What an operation leaves alone apart from the buffer.\<close>

definition same_env :: "led \<Rightarrow> led \<Rightarrow> bool" where
  "same_env s s' \<longleftrightarrow>
     (\<exists>b p n. redrawn (s\<lparr>l_buf := b, l_pos := p, l_len := n\<rparr>) s') \<and> (ln_mem s = [] \<longrightarrow> ln_mem s' = []) \<and>
     (os_wres s = [] \<longrightarrow> os_wres s' = [])"

lemma same_envI: "redrawn (s\<lparr>l_buf := b, l_pos := p, l_len := n\<rparr>) s' \<Longrightarrow> (ln_mem s = [] \<Longrightarrow> ln_mem s' = []) \<Longrightarrow>
    (os_wres s = [] \<Longrightarrow> os_wres s' = []) \<Longrightarrow> same_env s s'"
  by (auto simp: same_env_def)

lemma redrawn_sel:
  assumes "redrawn s s'"
  shows "l_buf s' = l_buf s" "l_pos s' = l_pos s" "l_len s' = l_len s" "l_buflen s' = l_buflen s" "l_prompt s' = l_prompt s"
    "l_plen s' = l_plen s" "l_cols s' = l_cols s" "mlmode s' = mlmode s" "history s' = history s"
    "history_len s' = history_len s" "history_max_len s' = history_max_len s" "l_history_index s' = l_history_index s"
    "completionCallback s' = completionCallback s" "ln_dir s' = ln_dir s" "ln_stat s' = ln_stat s"
    "l_ifd s' = l_ifd s" "l_ofd s' = l_ofd s" "os_in s' = os_in s" "os_fd s' = os_fd s" "os_faults s' = os_faults s"
    "os_dev s' = os_dev s" "os_drv s' = os_drv s" "orig_termios s' = orig_termios s" "rawmode s' = rawmode s" "ln_junk s' = ln_junk s"
  using assms by (cases s; cases s'; simp add: redrawn_def)+

lemma redrawn_ok: "redrawn s s' \<Longrightarrow> ed_ok s' = ed_ok s"
  by (simp add: ed_ok_def redrawn_sel)

lemma redrawn_holds: "redrawn s s' \<Longrightarrow> holds s' l r j = holds s l r j"
  by (simp add: holds_def redrawn_sel)

lemma same_pos: "holds s l r j \<Longrightarrow> s\<lparr>l_buf := b\<rparr> = s\<lparr>l_buf := b, l_pos := length l, l_len := length l + length r\<rparr>"
  by (cases s) (simp add: holds_def)

text \<open>Changing the buffer and refreshing.\<close>

definition edited :: "led \<Rightarrow> led option \<Rightarrow> byte list \<Rightarrow> byte list \<Rightarrow> bool" where
  "edited s m l r \<longleftrightarrow> (\<exists>s'. m = Some s' \<and> ed_ok s' \<and> ed_text s' = (l, r) \<and> same_env s s')"

lemma edited_refresh:
  assumes "ed_ok s" "length (l @ r @ EOS # j) = length (l_buf s)"
  shows "edited s (refreshLine (s\<lparr>l_buf := l @ r @ EOS # j, l_pos := length l, l_len := length l + length r\<rparr>)) l r"
proof -
  let ?s = "s\<lparr>l_buf := l @ r @ EOS # j, l_pos := length l, l_len := length l + length r\<rparr>"
  have ok: "ed_ok ?s" using assms by (auto simp: ed_ok_def nth_append)
  obtain s' where s': "refreshLine ?s = Some s'" "redrawn ?s s'" using refreshLine_total [OF ed_draw [OF ok]] by blast
  have "holds ?s l r j" by (simp add: holds_def)
  then have "ed_text s' = (l, r)" using s'(2) by (intro holds_text) (simp add: redrawn_holds)
  moreover have "same_env s s'" using s'(2) no_oom.refresh_P [OF s'(1)] no_werr.refresh_P [OF s'(1)] by (intro same_envI) simp_all
  ultimately show ?thesis using s' ok by (auto simp: edited_def redrawn_ok)
qed

lemma edited_refresh_eq:
  assumes "ed_ok s" "length (l @ r @ EOS # j) = length (l_buf s)"
    and "s1 = s\<lparr>l_buf := l @ r @ EOS # j, l_pos := length l, l_len := length l + length r\<rparr>"
  shows "edited s (refreshLine s1) l r"
  unfolding assms(3) by (rule edited_refresh [OF assms(1,2)])

lemma edited_same: "ed_ok s \<Longrightarrow> holds s l r j \<Longrightarrow> edited s (Some s) l r"
  using same_envI [where s = s and b = "l_buf s" and p = "l_pos s" and n = "l_len s" and s' = s] by (simp add: edited_def holds_text)

lemma holds_len: "ed_ok s \<Longrightarrow> holds s l r j \<Longrightarrow> l_buflen s = length l + length r + length j \<and> l_buf s = l @ r @ EOS # j"
  by (simp add: ed_ok_def holds_def)

section \<open>The operations\<close>

lemma memmove_up:
  "j \<noteq> [] \<Longrightarrow> memmove (length l + 1) (length l) (length r) (l @ r @ EOS # j) = Some (l @ hd (r @ [EOS]) # r @ j)"
  by (cases r; cases j) (simp_all add: memmove_def)

lemma poke_at: "i = length l \<Longrightarrow> poke i c (l @ d # r) = Some (l @ c # r)"
  by (simp add: poke_def)

lemma poke_after: "i = length l + length r + 1 \<Longrightarrow> poke i c (l @ d # r @ e # j) = Some (l @ d # r @ c # j)"
  using poke_at [of i "l @ d # r" c e j] by simp

lemma edited_write:
  assumes "ed_ok s" "length (l @ r @ EOS # j) = length (l_buf s)"
  shows "edited s (Some (snd (os_write fd t (s\<lparr>l_buf := l @ r @ EOS # j, l_pos := length l, l_len := length l + length r\<rparr>)))) l r"
proof -
  let ?s = "s\<lparr>l_buf := l @ r @ EOS # j, l_pos := length l, l_len := length l + length r\<rparr>"
  let ?t = "snd (os_write fd t ?s)"
  have r: "redrawn ?s ?t" by (rule redrawn_write)
  have "ed_ok ?s" using assms by (auto simp: ed_ok_def nth_append)
  moreover have "holds ?s l r j" by (simp add: holds_def)
  ultimately have "ed_ok ?t" "ed_text ?t = (l, r)" using redrawn_ok [OF r] redrawn_holds [OF r] holds_text by blast+
  moreover have "same_env s ?t" by (rule same_envI [OF r]) (simp_all add: no_oom.write_P no_werr.write_P)
  ultimately show ?thesis by (simp add: edited_def)
qed

lemma insert_room:
  assumes "ed_ok s" "holds s l r (x # xs)"
  shows "edited s (map_option snd (linenoiseEditInsert c s)) (l @ [c]) r"
proof -
  have h: "l_buf s = l @ r @ EOS # x # xs" "l_pos s = length l" "l_len s = length l + length r" using assms(2) by (simp_all add: holds_def)
  have lt: "l_len s < l_buflen s" using holds_len [OF assms] h by simp
  have e: "edited s (refreshLine (s\<lparr>l_buf := (l @ [c]) @ r @ EOS # xs, l_pos := length (l @ [c]), l_len := length (l @ [c]) + length r\<rparr>)) (l @ [c]) r"
    using assms(1) h(1) by (intro edited_refresh) simp_all
  have w: "edited s (Some (snd (os_write (l_ofd s) [c] (s\<lparr>l_buf := (l @ [c]) @ r @ EOS # xs, l_pos := length (l @ [c]), l_len := length (l @ [c]) + length r\<rparr>)))) (l @ [c]) r"
    using assms(1) h(1) by (intro edited_write) simp_all
  show ?thesis
  proof (cases "r = []")
    case True
    have "poke (l_pos s) c (l_buf s) = Some (l @ c # x # xs)" using h True by (simp add: poke_at)
    moreover have "poke (l_len s + 1) EOS (l @ c # x # xs) = Some (l @ c # EOS # xs)"
      using poke_after [of "l_len s + 1" l "[]"] h True by simp
    ultimately show ?thesis
      using e w h True lt
      by (simp add: linenoiseEditInsert_def Let_def option.map_comp comp_def option.map_ident case_prod_unfold)
  next
    case False
    have "memmove (l_pos s + 1) (l_pos s) (l_len s - l_pos s) (l_buf s) = Some (l @ hd (r @ [EOS]) # r @ x # xs)"
      using memmove_up [of "x # xs" l r] h by simp
    moreover have "poke (l_pos s) c (l @ hd (r @ [EOS]) # r @ x # xs) = Some (l @ c # r @ x # xs)" using h by (simp add: poke_at)
    moreover have "poke (l_len s + 1) EOS (l @ c # r @ x # xs) = Some (l @ c # r @ EOS # xs)" using h by (intro poke_after) simp
    ultimately have "map_option snd (linenoiseEditInsert c s) =
        refreshLine (s\<lparr>l_buf := l @ c # r @ EOS # xs, l_len := l_len s + 1, l_pos := l_pos s + 1\<rparr>)"
      using h False lt by (simp add: linenoiseEditInsert_def option.map_comp comp_def option.map_ident)
    moreover have "edited s (refreshLine (s\<lparr>l_buf := l @ c # r @ EOS # xs, l_len := l_len s + 1, l_pos := l_pos s + 1\<rparr>)) (l @ [c]) r"
      using assms(1) h by (intro edited_refresh_eq [where j = xs]) (simp, simp, cases s, simp)
    ultimately show ?thesis by simp
  qed
qed

lemma insert_full: "ed_ok s \<Longrightarrow> holds s l r [] \<Longrightarrow> linenoiseEditInsert c s = Some (True, s)"
  using holds_len [of s l r "[]"] by (auto simp: linenoiseEditInsert_def holds_def)

lemma left_edited:
  assumes "ed_ok s" "holds s l r j"
  shows "edited s (linenoiseEditMoveLeft s) (fst (edit_spec cap Go_left (l, r))) (snd (edit_spec cap Go_left (l, r)))"
proof (cases l rule: rev_cases)
  case Nil
  then show ?thesis using edited_same [OF assms] assms(2) by (simp add: linenoiseEditMoveLeft_def holds_def)
next
  case (snoc l' c)
  have "edited s (refreshLine (s\<lparr>l_pos := l_pos s - 1\<rparr>)) l' (c # r)"
    using assms snoc by (intro edited_refresh_eq [where j = j]) (simp, simp add: holds_def, cases s, simp add: holds_def)
  then show ?thesis using assms(2) snoc by (simp add: linenoiseEditMoveLeft_def holds_def)
qed

lemma right_edited:
  assumes "ed_ok s" "holds s l r j"
  shows "edited s (linenoiseEditMoveRight s) (fst (edit_spec cap Go_right (l, r))) (snd (edit_spec cap Go_right (l, r)))"
proof (cases r)
  case Nil
  then show ?thesis using edited_same [OF assms] assms(2) by (simp add: linenoiseEditMoveRight_def holds_def)
next
  case (Cons c cs)
  have "edited s (refreshLine (s\<lparr>l_pos := l_pos s + 1\<rparr>)) (l @ [c]) cs"
    using assms Cons by (intro edited_refresh_eq [where j = j]) (simp, simp add: holds_def, cases s, simp add: holds_def)
  then show ?thesis using assms(2) Cons by (simp add: linenoiseEditMoveRight_def holds_def)
qed

lemma home_edited:
  assumes "ed_ok s" "holds s l r j"
  shows "edited s (linenoiseEditMoveHome s) [] (l @ r)"
proof (cases "l = []")
  case True
  then show ?thesis using edited_same [OF assms] assms(2) by (simp add: linenoiseEditMoveHome_def holds_def)
next
  case False
  have "edited s (refreshLine (s\<lparr>l_pos := 0\<rparr>)) [] (l @ r)"
    using assms by (intro edited_refresh_eq [where j = j]) (simp, simp add: holds_def, cases s, simp add: holds_def)
  then show ?thesis using assms(2) False by (simp add: linenoiseEditMoveHome_def holds_def)
qed

lemma end_edited:
  assumes "ed_ok s" "holds s l r j"
  shows "edited s (linenoiseEditMoveEnd s) (l @ r) []"
proof (cases "r = []")
  case True
  then show ?thesis using edited_same [OF assms] assms(2) by (simp add: linenoiseEditMoveEnd_def holds_def)
next
  case False
  have "edited s (refreshLine (s\<lparr>l_pos := l_len s\<rparr>)) (l @ r) []"
    using assms by (intro edited_refresh_eq [where j = j]) (simp, simp add: holds_def, cases s, simp add: holds_def)
  then show ?thesis using assms(2) False by (simp add: linenoiseEditMoveEnd_def holds_def)
qed

lemma memmove_down:
  "memmove (length l) (length l + length d) (length r) (l @ d @ r @ j) = Some (l @ r @ drop (length r) (d @ r @ j))"
  by (simp add: memmove_def)

lemma memmove_down_eq:
  "b = l @ d @ r @ j \<Longrightarrow> p = length l + length d \<Longrightarrow> n = length r \<Longrightarrow>
     memmove (length l) p n b = Some (l @ r @ drop (length r) (d @ r @ j))"
  using memmove_down by simp

lemma drop_shift: "\<exists>e. drop (length r) ([c] @ r @ j) = e # j"
proof -
  have "drop (length r) ((c # r) @ j) = drop (length r) (c # r) @ drop (length r - length (c # r)) j" by (rule drop_append)
  moreover have "length (drop (length r) (c # r)) = 1" by simp
  then obtain e where "drop (length r) (c # r) = [e]" by (metis One_nat_def length_0_conv length_Suc_conv)
  ultimately show ?thesis by simp
qed

lemma delete_edited:
  assumes "ed_ok s" "holds s l r j"
  shows "edited s (linenoiseEditDelete s) l (tl r)"
proof (cases r)
  case Nil
  then show ?thesis using edited_same [OF assms] assms(2) by (simp add: linenoiseEditDelete_def holds_def)
next
  case (Cons c cs)
  have h: "l_buf s = l @ (c # cs) @ EOS # j" "l_pos s = length l" "l_len s = length l + length cs + 1" using assms(2) Cons by (simp_all add: holds_def)
  obtain e where "drop (length cs) ([c] @ cs @ EOS # j) = e # EOS # j" using drop_shift [of cs c "EOS # j"] by blast
  then have "memmove (l_pos s) (l_pos s + 1) (l_len s - l_pos s - 1) (l_buf s) = Some (l @ cs @ e # EOS # j)"
    using memmove_down [of l "[c]" cs "EOS # j"] h by simp
  moreover have "poke (l_len s - 1) EOS (l @ cs @ e # EOS # j) = Some (l @ cs @ EOS # EOS # j)"
    using poke_at [of "l_len s - 1" "l @ cs"] h by simp
  moreover have "edited s (refreshLine (s\<lparr>l_buf := l @ cs @ EOS # EOS # j, l_len := l_len s - 1\<rparr>)) l cs"
    using assms h by (intro edited_refresh_eq [where j = "EOS # j"]) (simp, simp, cases s, simp)
  ultimately show ?thesis using h Cons by (simp add: linenoiseEditDelete_def)
qed

lemma backspace_edited:
  assumes "ed_ok s" "holds s l r j"
  shows "edited s (linenoiseEditBackspace s) (butlast l) r"
proof (cases l rule: rev_cases)
  case Nil
  then show ?thesis using edited_same [OF assms] assms(2) by (simp add: linenoiseEditBackspace_def holds_def)
next
  case (snoc l' c)
  have h: "l_buf s = l' @ (c # r) @ EOS # j" "l_pos s = length l' + 1" "l_len s = length l' + length r + 1" using assms(2) snoc by (simp_all add: holds_def)
  obtain e where "drop (length r) ([c] @ r @ EOS # j) = e # EOS # j" using drop_shift [of r c "EOS # j"] by blast
  then have "memmove (l_pos s - 1) (l_pos s) (l_len s - l_pos s) (l_buf s) = Some (l' @ r @ e # EOS # j)"
    using memmove_down [of l' "[c]" r "EOS # j"] h by simp
  moreover have "poke (l_len s - 1) EOS (l' @ r @ e # EOS # j) = Some (l' @ r @ EOS # EOS # j)"
    using poke_at [of "l_len s - 1" "l' @ r"] h by simp
  moreover have "edited s (refreshLine (s\<lparr>l_buf := l' @ r @ EOS # EOS # j, l_pos := l_pos s - 1, l_len := l_len s - 1\<rparr>)) l' r"
    using assms h by (intro edited_refresh_eq [where j = "EOS # j"]) (simp, simp, cases s, simp)
  ultimately show ?thesis using h snoc by (simp add: linenoiseEditBackspace_def)
qed

lemma back_while_result:
  "back_while P (l @ d) (length l) = Some (length (dropWhile P (rev l)))"
proof (induction l arbitrary: d rule: rev_induct)
  case (snoc c l)
  then show ?case by (simp add: peek_def)
qed simp

lemma prefix_of_rest: "\<exists>d. l = rev (dropWhile P (rev l)) @ d"
  by (rule exI [of _ "rev (takeWhile P (rev l))"]) (metis rev_append rev_rev_ident takeWhile_dropWhile_id)

lemma word_edited:
  assumes "ed_ok s" "holds s l r j"
  shows "edited s (linenoiseEditDeletePrevWord s) (fst (edit_spec cap Del_word (l, r))) r"
proof -
  let ?l1 = "rev (dropWhile (\<lambda>c. c = CHR '' '') (rev l))"
  let ?l2 = "rev (dropWhile (\<lambda>c. c \<noteq> CHR '' '') (rev ?l1))"
  obtain d1 where d1: "l = ?l1 @ d1" using prefix_of_rest by blast
  obtain d2 where d2: "?l1 = ?l2 @ d2" using prefix_of_rest by blast
  have l: "l = ?l2 @ (d2 @ d1)" using d1 d2 by (metis append.assoc)
  have h: "l_buf s = l @ r @ EOS # j" "l_pos s = length l" "l_len s = length l + length r" using assms(2) by (simp_all add: holds_def)
  have b1: "back_while (\<lambda>c. c = CHR '' '') (l_buf s) (l_pos s) = Some (length ?l1)"
    unfolding h by (simp add: back_while_result)
  have "l_buf s = ?l1 @ (d1 @ r @ EOS # j)" using h(1) d1 by simp
  then have b2: "back_while (\<lambda>c. c \<noteq> CHR '' '') (l_buf s) (length ?l1) = Some (length ?l2)"
    using back_while_result [of "\<lambda>c. c \<noteq> CHR '' ''" ?l1 "d1 @ r @ EOS # j"] by simp
  let ?j = "drop (length (r @ [EOS])) ((d2 @ d1) @ (r @ [EOS]) @ j)"
  have b: "l_buf s = ?l2 @ (d2 @ d1) @ (r @ [EOS]) @ j" by (subst h(1), subst l) simp
  have p: "l_pos s = length ?l2 + length (d2 @ d1)" using h(2) l by (metis length_append)
  have "l_len s - l_pos s + 1 = length (r @ [EOS])" using h by simp
  then have m: "memmove (length ?l2) (l_pos s) (l_len s - l_pos s + 1) (l_buf s) = Some (?l2 @ (r @ [EOS]) @ ?j)"
    by (rule memmove_down_eq [OF b p])
  have len: "length (?l2 @ r @ EOS # ?j) = length (l_buf s)" by (subst b) simp
  have n: "l_len s - (l_pos s - length ?l2) = length ?l2 + length r"
    using h(2,3) p by simp
  have "edited s (refreshLine (s\<lparr>l_buf := ?l2 @ (r @ [EOS]) @ ?j, l_pos := length ?l2, l_len := l_len s - (l_pos s - length ?l2)\<rparr>)) ?l2 r"
    using assms(1) len unfolding n by (intro edited_refresh_eq [where j = ?j]) (assumption, assumption, simp)
  then show ?thesis unfolding linenoiseEditDeletePrevWord_def b1 b2 Option.bind.bind_lunit m by simp
qed

lemma line_edited:
  assumes "ed_ok s" "holds s l r j"
  shows "edited s (map_option snd (edit_key CTRL_U s)) [] []"
proof -
  obtain d ds where d: "l_buf s = d # ds" using assms(1) by (cases "l_buf s") (simp_all add: ed_ok_def)
  have "edited s (refreshLine (s\<lparr>l_buf := EOS # ds, l_pos := 0, l_len := 0\<rparr>)) [] []"
    using assms(1) d by (intro edited_refresh_eq [where j = ds]) simp_all
  then show ?thesis by (simp add: edit_key_def poke_def d option.map_comp comp_def option.map_ident)
qed

lemma tail_edited:
  assumes "ed_ok s" "holds s l r j"
  shows "edited s (map_option snd (edit_key CTRL_K s)) l []"
proof -
  have h: "l_buf s = l @ r @ EOS # j" "l_pos s = length l" "l_len s = length l + length r" using assms(2) by (simp_all add: holds_def)
  obtain d ds where d: "r @ EOS # j = d # ds" by (cases "r @ EOS # j") simp_all
  have "poke (l_pos s) EOS (l_buf s) = Some (l @ EOS # ds)" unfolding h d by (simp add: poke_at)
  moreover have "edited s (refreshLine (s\<lparr>l_buf := l @ EOS # ds, l_len := l_pos s\<rparr>)) l []"
    using assms(1) h d by (intro edited_refresh_eq [where j = ds]) (simp, simp, cases s, simp)
  ultimately show ?thesis by (simp add: edit_key_def option.map_comp comp_def option.map_ident)
qed

lemma swap_edited:
  assumes "ed_ok s" "holds s l r j"
  shows "edited s (swap_key s) (fst (edit_spec cap Swap (l, r))) (snd (edit_spec cap Swap (l, r)))"
proof (cases "l = [] \<or> r = []")
  case True
  then have "edit_spec cap Swap (l, r) = (l, r)" "swap_key s = Some s" using assms(2)
    by (auto simp: swap_key_def holds_def split: list.split)
  then show ?thesis using edited_same [OF assms] by simp
next
  case False
  then obtain l' a c cs where lr: "l = l' @ [a]" "r = c # cs" by (metis list.exhaust rev_exhaust)
  have h: "l_buf s = l' @ a # c # cs @ EOS # j" "l_pos s = length l' + 1" "l_len s = length l' + length cs + 2"
    using assms(2) lr by (simp_all add: holds_def)
  have p: "peek (l_pos s - 1) (l_buf s) = Some a" "peek (l_pos s) (l_buf s) = Some c" using h by (simp_all add: peek_def nth_append)
  have w: "poke (l_pos s - 1) c (l_buf s) = Some (l' @ c # c # cs @ EOS # j)" using h by (simp add: poke_at)
  have w2: "poke (l_pos s) a (l' @ c # c # cs @ EOS # j) = Some (l' @ c # a # cs @ EOS # j)"
    using poke_after [of "l_pos s" l' "[]"] h by simp
  let ?s = "s\<lparr>l_buf := l' @ c # a # cs @ EOS # j, l_pos := (if l_pos s \<noteq> l_len s - 1 then l_pos s + 1 else l_pos s)\<rparr>"
  have "0 < l_pos s \<and> l_pos s < l_len s" using h by simp
  then have r: "swap_key s = refreshLine ?s" by (simp only: swap_key_def p w w2 Option.bind.bind_lunit if_True simp_thms)
  have "edited s (refreshLine ?s) (if cs = [] then l' @ [c] else l' @ [c, a]) (if cs = [] then [a] else cs)"
    using assms(1) h by (intro edited_refresh_eq [where j = j]) (simp, simp, cases s, simp)
  moreover have "edit_spec cap Swap (l, r) = (if cs = [] then l' @ [c] else l' @ [c, a], if cs = [] then [a] else cs)"
    by (simp add: lr split: list.split)
  ultimately show ?thesis unfolding r by (simp only: fst_conv snd_conv)
qed

lemma redraw_edited:
  assumes "ed_ok s" "holds s l r j"
  shows "edited s (map_option snd (edit_key CTRL_L s)) l r"
proof -
  let ?s = "linenoiseClearScreen s"
  have c: "redrawn s ?s" by (simp add: linenoiseClearScreen_def)
  have ok: "ed_ok ?s" using assms(1) redrawn_ok [OF c] by simp
  then obtain s' where s': "refreshLine ?s = Some s'" "redrawn ?s s'" using refreshLine_total [OF ed_draw] by blast
  have r: "redrawn s s'" using redrawn_trans [OF c s'(2)] .
  then have "redrawn (s\<lparr>l_buf := l_buf s, l_pos := l_pos s, l_len := l_len s\<rparr>) s'" by simp
  moreover have "ln_mem s = [] \<Longrightarrow> ln_mem s' = []"
    using no_oom.refresh_P [OF s'(1)] by (simp add: linenoiseClearScreen_def no_oom.write_P)
  moreover have "os_wres s = [] \<Longrightarrow> os_wres s' = []"
    using no_werr.refresh_P [OF s'(1)] by (simp add: linenoiseClearScreen_def no_werr.write_P)
  ultimately have "same_env s s'" by (rule same_envI)
  then have "edited s (Some s') l r"
    using assms redrawn_ok [OF r] redrawn_holds [OF r] holds_text by (metis edited_def)
  then show ?thesis by (simp add: edit_key_def s'(1))
qed

lemma edit_run_edited:
  assumes "ed_ok s"
  shows "edited s (edit_run op s) (fst (edit_spec (l_buflen s) op (ed_text s))) (snd (edit_spec (l_buflen s) op (ed_text s)))"
proof -
  obtain l r where t: "ed_text s = (l, r)" by fastforce
  then obtain j where j: "holds s l r j" using ed_holds [OF assms] by auto
  show ?thesis
  proof (cases op)
    case (Ins c)
    then show ?thesis
      using insert_room [OF assms, of l r _ _ c] insert_full [OF assms, of l r c] edited_same [OF assms j] holds_len [OF assms j] j
      by (cases j) (simp_all add: t)
  next
    case Swap
    then show ?thesis using swap_edited [OF assms j] by (simp add: t)
  next
    case Del_word
    then show ?thesis using word_edited [OF assms j, of "l_buflen s"] by (simp add: t)
  next
    case Go_right
    then show ?thesis using right_edited [OF assms j, of "l_buflen s"] by (simp add: t)
  next
    case Go_left
    then show ?thesis using left_edited [OF assms j, of "l_buflen s"] by (simp add: t)
  qed (use home_edited [OF assms j] end_edited [OF assms j] delete_edited [OF assms j] backspace_edited [OF assms j]
      line_edited [OF assms j] tail_edited [OF assms j] redraw_edited [OF assms j] in \<open>simp_all add: t\<close>)
qed

section \<open>The contract\<close>

text \<open>
  A text editor: operations on a state that show through \<open>view\<close> as operations on a text.  A run of them
  shows as the run of the specification.
\<close>

locale text_editor =
  fixes ok :: "'s \<Rightarrow> bool" and view :: "'s \<Rightarrow> 'v" and cap :: "'s \<Rightarrow> nat"
    and run :: "'op \<Rightarrow> 's \<Rightarrow> 's option" and spec :: "nat \<Rightarrow> 'op \<Rightarrow> 'v \<Rightarrow> 'v"
  assumes run_spec: "ok s \<Longrightarrow> \<exists>s'. run op s = Some s' \<and> ok s' \<and> view s' = spec (cap s) op (view s) \<and> cap s' = cap s"
begin

definition runs :: "'op list \<Rightarrow> 's \<Rightarrow> 's option" where
  "runs ops s = fold (\<lambda>op m. Option.bind m (run op)) ops (Some s)"

lemma fold_None: "fold (\<lambda>op m. Option.bind m (run op)) ops None = None"
  by (induction ops) simp_all

lemma runs_simps: "runs [] s = Some s" "runs (op # ops) s = Option.bind (run op s) (runs ops)"
  by (simp add: runs_def) (cases "run op s"; simp add: runs_def fold_None)

lemma runs_spec: "ok s \<Longrightarrow> \<exists>s'. runs ops s = Some s' \<and> ok s' \<and> view s' = fold (spec (cap s)) ops (view s) \<and> cap s' = cap s"
proof (induction ops arbitrary: s)
  case (Cons op ops)
  obtain s1 where "run op s = Some s1" "ok s1" "view s1 = spec (cap s) op (view s)" "cap s1 = cap s"
    using run_spec [OF Cons.prems] by blast
  then show ?case using Cons.IH [of s1] by (simp add: runs_simps)
qed (simp add: runs_simps)

lemma undo:
  assumes "ok s" "\<And>v. fold (spec (cap s)) ops v = v"
  shows "\<exists>s'. runs ops s = Some s' \<and> ok s' \<and> view s' = view s"
  using runs_spec [OF assms(1), of ops] assms(2) by auto

end

lemma same_env_buflen: "same_env s s' \<Longrightarrow> l_buflen s' = l_buflen s"
  by (auto simp: same_env_def redrawn_sel)

interpretation line: text_editor ed_ok ed_text l_buflen edit_run edit_spec
proof
  fix s :: led and op
  assume ok: "ed_ok s"
  show "\<exists>s'. edit_run op s = Some s' \<and> ed_ok s' \<and> ed_text s' = edit_spec (l_buflen s) op (ed_text s) \<and> l_buflen s' = l_buflen s"
    using edit_run_edited [OF ok, of op] same_env_buflen [of s] by (auto simp: edited_def)
qed

section \<open>Properties\<close>

text \<open>
  C10: any sequence of editing operations on the C buffer (\<^verbatim>\<open>memmove\<close>s and NULs over a fixed array)
  has the effect the operations have on a text with a cursor, in an editor of the given capacity:
  every access is inside the array, every refresh ends, and the array again holds the text with its NUL.
\<close>

theorem line_edits_text:
  assumes "ed_ok s"
  shows "\<exists>s'. fold (\<lambda>op m. Option.bind m (edit_run op)) ops (Some s) = Some s' \<and> ed_ok s' \<and>
              ed_text s' = fold (edit_spec (l_buflen s)) ops (ed_text s) \<and>
              length (l_buf s') = length (l_buf s)"
  using line.runs_spec [OF assms, of ops] assms by (auto simp: line.runs_def ed_ok_def)

definition sample_ln :: ln where
  "sample_ln = os.extend (sample_os\<lparr>os_wres := [], os_faults := [], os_in := (\<lambda>_. [])\<rparr>)
     \<lparr>ln_mem = [], ln_env = Map.empty, ln_winsz = Some 80, ln_junk = (\<lambda>_. CHR ''?''), ln_stdin = [],
      ln_files = Map.empty, ln_readonly = (\<lambda>_. False), ln_dir = Map.empty, ln_stat = Map.empty,
      completionCallback = No_cb, orig_termios = of_termios2 sample_tio, rawmode = False, mlmode = False,
      atexit_registered = False, history_max_len = LINENOISE_DEFAULT_HISTORY_MAX_LEN, history_len = 0,
      history = None, history_file_path = Null\<rparr>"

text \<open>An editor of seven bytes with a prompt of two in a terminal of eight columns.\<close>

definition sample_led :: led where
  "sample_led = ln.extend sample_ln
     \<lparr>l_ifd = STI, l_ofd = STO, l_buf = ''abc'' @ EOS # ''????'', l_buflen = 7, l_prompt = ''> '', l_plen = 2, l_pos = 3,
      l_oldpos = 0, l_len = 3, l_cols = 8, l_maxrows = 0, l_history_index = 0\<rparr>"

lemma sample_led_ok: "ed_ok sample_led" "ed_text sample_led = (''abc'', [])" "l_buflen sample_led = 7"
  by (simp_all add: sample_led_def sample_ln_def ed_ok_def ed_text_def os.extend_def ln.extend_def)

lemma line_edits_text_witness:
  "\<exists>s'. fold (\<lambda>op m. Option.bind m (edit_run op)) [Go_home, Ins CHR ''x'', Go_right, Swap, Del_left] (Some sample_led) = Some s' \<and>
        ed_text s' = (''xb'', ''c'')"
  using line_edits_text [OF sample_led_ok(1), of "[Go_home, Ins CHR ''x'', Go_right, Swap, Del_left]"]
  by (auto simp: sample_led_ok)

lemma abText_good: "ln_mem s = [] \<Longrightarrow> abText t (ab, s) = Some (ab @ t, s)"
  by (simp add: abText_def abAppend_def alloc_def)

lemma abAppend_good: "ln_mem s = [] \<Longrightarrow> n \<le> length src \<Longrightarrow> abAppend src (int n) ab s = Some (ab @ take n src, s)"
  by (simp add: abAppend_def alloc_def)

lemma refreshSingleLine_writes:
  assumes "draw_ok s" "\<not> mlmode s" "ln_mem s = []"
  defines "d \<equiv> length (l_prompt s) + l_pos s + 1 - unat (l_cols s)"
  shows "refreshSingleLine s =
     Some (snd (os_write (l_ofd s)
       (CR # l_prompt s @ take (min (l_len s - d) (unat (l_cols s) - length (l_prompt s))) (drop d (l_buf s)) @
        ESC # ''[0K'' @ [CR, ESC, CHR ''[''] @ dec_int (int (length (l_prompt s) + (l_pos s - d))) @ ''C'') s))"
proof -
  let ?p = "length (l_prompt s)" and ?m = "min (l_len s - d) (unat (l_cols s) - length (l_prompt s))"
  note a = assms(1,2) [unfolded draw_ok_def]
  have c: "?p < unat (l_cols s)" "?p + l_len s < 2 ^ 64" "l_pos s \<le> l_len s" using a by auto
  have k: "skip_left (l_cols s) (of_nat ?p) 0 (of_nat (l_len s)) (of_nat (l_pos s)) =
           Some (d, of_nat (l_len s - d), of_nat (l_pos s - d))"
    using skip_left_result [OF c] by (simp add: d_def)
  have n: "drop_right (l_cols s) (of_nat ?p) (of_nat (l_len s - d)) = of_nat ?m"
    using c by (intro drop_right_result) auto
  have m: "int_of_size (of_nat ?m) = int ?m" using a by (intro int_of_size_nat) auto
  have le: "\<not> length (l_buf s) < d" "?m \<le> length (drop d (l_buf s))" using a by (auto simp: d_def)
  have "int_of_size (of_nat (?p + (l_pos s - d))) = int (?p + (l_pos s - d))" using a by (intro int_of_size_nat) auto
  then have col: "int_of_size (of_nat (l_pos s - d) + of_nat ?p) = int (?p + (l_pos s - d))" by (simp add: add.commute)
  show ?thesis
    unfolding refreshSingleLine_def Let_def k Option.bind.bind_lunit prod.case n m col
    using le(1) abAppend_good [OF assms(3) le(2)]
    by (simp only: abText_good [OF assms(3)] Option.bind.bind_lunit fst_conv snd_conv if_False prod.case) simp
qed

text \<open>
  A prompt as wide as the terminal: with the cursor at the end the length to show is negative, and
  \<^verbatim>\<open>abAppend\<close> copies that many bytes.
\<close>

lemma narrow_undefined:
  assumes "\<not> mlmode s" "l_cols s \<noteq> 0" "unat (l_cols s) \<le> length (l_prompt s)" "length (l_prompt s) + l_len s < 2 ^ 31"
    and "l_pos s = l_len s" "l_len s < length (l_buf s)" "length (l_prompt s) < length (l_buf s) - l_len s" "ln_mem s = []"
  shows "refreshLine s = None"
proof -
  let ?p = "length (l_prompt s)"
  define m where "m = ?p + l_len s + 1 - unat (l_cols s)"
  define j where "j = ?p + 1 - unat (l_cols s)"
  have u: "unat ((of_nat ?p :: 64 word) + of_nat (l_len s)) = ?p + l_len s"
    using assms(4) by (simp add: unat_of_nat flip: of_nat_add)
  have c: "0 < unat (l_cols s)" using assms(2) by (simp add: unat_gt_0)
  have mj: "m = l_len s + j" "0 < j" "j \<le> ?p" using assms(3) c by (auto simp: m_def j_def)
  have k: "skip_left (l_cols s) (of_nat ?p) 0 (of_nat (l_len s)) (of_nat (l_pos s)) = Some (m, - of_nat j, - of_nat j)"
    using skip_left_any [OF assms(2), of m "of_nat ?p" "of_nat (l_len s)" 0 "of_nat (l_len s)"] assms(5) u mj
    by (simp add: m_def)
  have "(of_nat ?p :: 64 word) + - of_nat j = of_nat (?p - j)" using mj(3) by (simp add: of_nat_diff)
  moreover have "?p - j = unat (l_cols s) - 1" using assms(3) c by (simp add: j_def)
  moreover have "(of_nat (unat (l_cols s) - 1) :: 64 word) = l_cols s - 1" using c by (simp add: of_nat_diff)
  ultimately have "unat ((of_nat ?p :: 64 word) + - of_nat j) = unat (l_cols s) - 1"
    using unat_minus_one [OF assms(2)] by simp
  then have "\<not> l_cols s < of_nat ?p + - of_nat j" by (simp add: word_less_nat_alt)
  then have d: "drop_right (l_cols s) (of_nat ?p) (- of_nat j) = - of_nat j" by (subst drop_right.simps) simp
  have n: "int_of_size (- of_nat j) = - int j" using mj assms(4) by (intro int_of_size_neg) simp_all
  have le: "\<not> length (l_buf s) < m" using mj assms(6,7) by simp
  show ?thesis
    unfolding refreshLine_def refreshSingleLine_def Let_def k
    using assms(1) le mj(2) by (simp add: d n abText_good [OF assms(8)] abAppend_def)
qed

text \<open>
  C32: what a refresh in single line mode writes: carriage return, the prompt, a section of the text
  that contains the cursor, clearing the rest of the line, and the cursor moved to its column.  Prompt and
  section fit the terminal, the cursor is on the screen, and a text that fits is shown whole.
\<close>

theorem refresh_shows_cursor:
  assumes "draw_ok s" "\<not> mlmode s" "ln_mem s = []" "os_wres s = []"
  shows "\<exists>s' d m col. refreshLine s = Some s' \<and>
     os_out s' = (os_out s)(l_ofd s := os_out s (l_ofd s) @
       CR # l_prompt s @ take m (drop d (take (l_len s) (l_buf s))) @ ESC # ''[0K'' @
       [CR, ESC, CHR ''[''] @ dec_int (int col) @ ''C'') \<and>
     d \<le> l_pos s \<and> l_pos s \<le> d + m \<and> d + m \<le> l_len s \<and>
     col = length (l_prompt s) + (l_pos s - d) \<and> col < unat (l_cols s) \<and> length (l_prompt s) + m \<le> unat (l_cols s) \<and>
     (length (l_prompt s) + l_len s < unat (l_cols s) \<longrightarrow> d = 0 \<and> m = l_len s)"
proof -
  define d where "d = length (l_prompt s) + l_pos s + 1 - unat (l_cols s)"
  define m where "m = min (l_len s - d) (unat (l_cols s) - length (l_prompt s))"
  define col where "col = length (l_prompt s) + (l_pos s - d)"
  let ?t = "CR # l_prompt s @ take m (drop d (take (l_len s) (l_buf s))) @ ESC # ''[0K'' @
      [CR, ESC, CHR ''[''] @ dec_int (int col) @ ''C''"
  note a = assms(1,2) [unfolded draw_ok_def]
  have t: "take m (drop d (take (l_len s) (l_buf s))) = take m (drop d (l_buf s))" by (simp add: drop_take m_def)
  have r: "refreshLine s = Some (snd (os_write (l_ofd s) ?t s))"
    unfolding refreshLine_def t using refreshSingleLine_writes [OF assms(1-3), folded d_def, folded m_def col_def] assms(2)
    by (simp only: if_False)
  have o: "os_out (snd (os_write (l_ofd s) ?t s)) = (os_out s)(l_ofd s := os_out s (l_ofd s) @ ?t)"
    by (simp only: os_write_def assms(4) list.case snd_conv os_put_sel)
  have "d \<le> l_pos s \<and> l_pos s \<le> d + m \<and> d + m \<le> l_len s \<and> col < unat (l_cols s) \<and>
      length (l_prompt s) + m \<le> unat (l_cols s) \<and>
      (length (l_prompt s) + l_len s < unat (l_cols s) \<longrightarrow> d = 0 \<and> m = l_len s)"
    using a by (auto simp: d_def m_def col_def)
  then show ?thesis using r o col_def by blast
qed

text \<open>Eight columns, a prompt of two and seven letters, the cursor behind the last: not all can be shown.\<close>

definition sample_full :: led where
  "sample_full = sample_led\<lparr>l_buf := ''abcdefg'' @ [EOS], l_pos := 7, l_len := 7\<rparr>"

lemma sample_full_sel: "draw_ok sample_full" "\<not> mlmode sample_full" "ln_mem sample_full = []" "os_wres sample_full = []"
  by (simp_all add: sample_full_def sample_led_def sample_ln_def draw_ok_def os.extend_def ln.extend_def)

lemma refresh_shows_cursor_witness:
  "\<exists>s' d m col. refreshLine sample_full = Some s' \<and>
     os_out s' = (os_out sample_full)(l_ofd sample_full := os_out sample_full (l_ofd sample_full) @
       CR # l_prompt sample_full @ take m (drop d (take (l_len sample_full) (l_buf sample_full))) @ ESC # ''[0K'' @
       [CR, ESC, CHR ''[''] @ dec_int (int col) @ ''C'') \<and>
     d \<le> l_pos sample_full \<and> l_pos sample_full \<le> d + m \<and> d + m \<le> l_len sample_full \<and>
     col = length (l_prompt sample_full) + (l_pos sample_full - d) \<and> col < unat (l_cols sample_full) \<and>
     length (l_prompt sample_full) + m \<le> unat (l_cols sample_full) \<and>
     (length (l_prompt sample_full) + l_len sample_full < unat (l_cols sample_full) \<longrightarrow> d = 0 \<and> m = l_len sample_full)"
  by (rule refresh_shows_cursor [OF sample_full_sel])

end
