(* ===== verification/Line_History.thy ===== *)
theory Line_History
  imports Line_Edit
begin

text \<open>
  The history of the line editor: its array of pointers as a list of lines (\<open>entries\<close>, well formed when
  \<open>hist_ok\<close>), what adding, limiting, saving, loading and stepping through it do to the list.
\<close>

section \<open>The list of lines\<close>

definition entries :: "'a ln_scheme \<Rightarrow> string list" where
  "entries s =
     (case history s of
        None \<Rightarrow> []
      | Some h \<Rightarrow> map (\<lambda>p. case p of Str t \<Rightarrow> t | _ \<Rightarrow> []) (take (nat (history_len s)) h))"

definition hist_ok :: "'a ln_scheme \<Rightarrow> bool" where
  "hist_ok s \<longleftrightarrow>
     1 \<le> history_max_len s \<and> 0 \<le> history_len s \<and> history_len s \<le> history_max_len s \<and>
     (case history s of
        None \<Rightarrow> history_len s = 0
      | Some h \<Rightarrow> length h = nat (history_max_len s) \<and>
          list_all (\<lambda>p. \<exists>t. p = Str t \<and> EOS \<notin> set t) (take (nat (history_len s)) h))"

text \<open>The array written out: the lines, then what is behind them.\<close>

definition hist_is :: "string list \<Rightarrow> ptr list \<Rightarrow> 'a ln_scheme \<Rightarrow> bool" where
  "hist_is es rest s \<longleftrightarrow>
     history s = Some (map Str es @ rest) \<and> history_len s = int (length es) \<and> 1 \<le> history_max_len s \<and>
     history_max_len s = int (length es + length rest) \<and> (\<forall>t\<in>set es. EOS \<notin> set t)"

lemma hist_isI:
  assumes "hist_ok s" "history s = Some h"
  obtains rest where "hist_is (entries s) rest s"
proof
  let ?n = "nat (history_len s)"
  have "list_all (\<lambda>p. \<exists>t. p = Str t \<and> EOS \<notin> set t) (take ?n h)" using assms by (simp add: hist_ok_def)
  then have "map Str (map (\<lambda>p. case p of Str t \<Rightarrow> t | _ \<Rightarrow> []) (take ?n h)) = take ?n h"
    by (auto simp: list_all_iff intro!: map_idI)
  then show "hist_is (entries s) (drop ?n h) s"
    using assms by (auto simp: hist_is_def entries_def hist_ok_def list_all_iff)
qed

lemma hist_is_ok: "hist_is es rest s \<Longrightarrow> hist_ok s \<and> entries s = es"
  by (auto simp: hist_is_def hist_ok_def entries_def list_all_iff comp_def)

lemma hist_none: "hist_ok s \<Longrightarrow> history s = None \<Longrightarrow> entries s = [] \<and> history_len s = 0 \<and> 1 \<le> history_max_len s"
  by (simp add: hist_ok_def entries_def)

lemma entries_len: "hist_ok s \<Longrightarrow> history_len s = int (length (entries s))"
  by (cases "history s") (auto simp: hist_ok_def entries_def)

lemma hist_frame:
  assumes "history s' = history s" "history_len s' = history_len s" "history_max_len s' = history_max_len s"
  shows "hist_ok s' = hist_ok s" "entries s' = entries s"
  unfolding hist_ok_def entries_def assms by (rule refl)+

section \<open>Adding\<close>

text \<open>A line equal to the last one is not added; a full history loses its oldest line.\<close>

definition add_entry :: "nat \<Rightarrow> string \<Rightarrow> string list \<Rightarrow> string list" where
  "add_entry mx line es =
     (if es \<noteq> [] \<and> last es = line then es else (if length es = mx then tl es else es) @ [line])"

lemma hist_at_in: "hist_is es rest s \<Longrightarrow> i < length es \<Longrightarrow> hist_at (int i) s = Some (Str (es ! i))"
  by (simp add: hist_at_def hist_is_def nth_append)

lemma hist_put_in: "hist_is es rest s \<Longrightarrow> i < length es \<Longrightarrow>
    hist_put (int i) p s = Some (s\<lparr>history := Some ((map Str es)[i := p] @ rest)\<rparr>)"
  by (simp add: hist_put_def hist_is_def list_update_append)

lemma hist_free_in: "hist_is es rest s \<Longrightarrow> i < length es \<Longrightarrow>
    hist_free (int i) s = Some (s\<lparr>history := Some ((map Str es)[i := Freed] @ rest)\<rparr>)"
  by (simp add: hist_free_def hist_at_in hist_put_in)

lemma last_is_in:
  assumes "hist_is es rest s"
  shows "last_is line s = Some (es \<noteq> [] \<and> last es = line)"
proof (cases es rule: rev_cases)
  case Nil
  then show ?thesis using assms by (simp add: last_is_def hist_is_def)
next
  case (snoc es' t)
  have "hist_at (int (length es')) s = Some (Str t)" using hist_at_in [OF assms, of "length es'"] snoc by simp
  moreover have "history_len s = int (length es') + 1" using assms snoc by (simp add: hist_is_def)
  ultimately show ?thesis using snoc by (simp add: last_is_def)
qed

lemma history_shift_full:
  assumes "hist_is (e # es) [] s"
  shows "\<exists>p. history_shift s = Some (s\<lparr>history := Some (map Str es @ [p]), history_len := int (length es)\<rparr>)"
proof -
  have f: "hist_free 0 s = Some (s\<lparr>history := Some (Freed # map Str es)\<rparr>)"
    using hist_free_in [OF assms, of 0] by simp
  have m: "history_max_len s = int (length es) + 1" "history_len s = int (length es) + 1" using assms by (simp_all add: hist_is_def)
  have "length (drop (length es) (Freed # map Str es)) = Suc 0" by simp
  then obtain p where p: "drop (length es) (Freed # map Str es) = [p]"
    by (metis length_0_conv length_Suc_conv)
  show ?thesis by (intro exI [of _ p]) (simp add: history_shift_def f m p)
qed

lemma add_again:
  assumes "hist_is es rest s" "history_max_len s \<noteq> 0" "es \<noteq> []" "last es = line"
  shows "linenoiseHistoryAdd line s = Some (False, s)"
proof -
  have "last_is line s = Some True" using last_is_in [OF assms(1)] assms(3,4) by simp
  moreover have "history s = Some (map Str es @ rest)" using assms(1) by (simp add: hist_is_def)
  ultimately show ?thesis using assms(2) by (simp add: linenoiseHistoryAdd_def)
qed

lemma add_new:
  assumes "hist_is es rest s" "ln_mem s = []" "history_max_len s \<noteq> 0" "\<not> (es \<noteq> [] \<and> last es = line)"
  shows "linenoiseHistoryAdd line s =
    (if history_len s = history_max_len s then history_shift s else Some s) \<bind>
    (\<lambda>s3. hist_put (history_len s3) (Str line) s3 \<bind> (\<lambda>s4. Some (True, s4\<lparr>history_len := history_len s4 + 1\<rparr>)))"
proof -
  have "last_is line s = Some False" using last_is_in [OF assms(1)] assms(4) by auto
  moreover have "history s = Some (map Str es @ rest)" using assms(1) by (simp add: hist_is_def)
  moreover have "strdup line s = (Str line, s)" using assms(2) by (simp add: strdup_def alloc_def)
  ultimately show ?thesis using assms(3) by (simp add: linenoiseHistoryAdd_def)
qed

lemma add_full:
  assumes "hist_is (e # es) [] s" "ln_mem s = []" "last (e # es) \<noteq> line"
  shows "linenoiseHistoryAdd line s =
           Some (True, s\<lparr>history := Some (map Str es @ [Str line]), history_len := int (length es) + 1\<rparr>)"
proof -
  have n: "history_len s = int (length es) + 1" "history_max_len s = int (length es) + 1"
    using assms(1) by (simp_all add: hist_is_def)
  obtain p where sh: "history_shift s = Some (s\<lparr>history := Some (map Str es @ [p]), history_len := int (length es)\<rparr>)"
    using history_shift_full [OF assms(1)] by blast
  have "(map Str es @ [p])[length es := Str line] = map Str es @ [Str line]"
    using list_update_length [of "map Str es" p "[]" "Str line"] by simp
  moreover have "linenoiseHistoryAdd line s = history_shift s \<bind>
      (\<lambda>s3. hist_put (history_len s3) (Str line) s3 \<bind> (\<lambda>s4. Some (True, s4\<lparr>history_len := history_len s4 + 1\<rparr>)))"
    using add_new [OF assms(1,2)] assms(3) n by simp
  ultimately show ?thesis by (simp add: sh hist_put_def)
qed

lemma add_room:
  assumes "hist_is es (p # ps) s" "ln_mem s = []" "\<not> (es \<noteq> [] \<and> last es = line)"
  shows "linenoiseHistoryAdd line s =
           Some (True, s\<lparr>history := Some (map Str es @ Str line # ps), history_len := int (length es) + 1\<rparr>)"
proof -
  have n: "history_len s = int (length es)" "history_max_len s = int (length es) + 1 + int (length ps)"
      "history s = Some (map Str es @ p # ps)"
    using assms(1) by (simp_all add: hist_is_def)
  have "(map Str es @ p # ps)[length es := Str line] = map Str es @ Str line # ps"
    using list_update_length [of "map Str es" p ps "Str line"] by simp
  moreover have "linenoiseHistoryAdd line s =
      hist_put (history_len s) (Str line) s \<bind> (\<lambda>s4. Some (True, s4\<lparr>history_len := history_len s4 + 1\<rparr>))"
    using add_new [OF assms(1,2) _ assms(3)] n by simp
  ultimately show ?thesis by (simp add: hist_put_def n)
qed

lemma add_to_array:
  assumes "hist_is es rest s" "ln_mem s = []" "EOS \<notin> set line"
  obtains h n rest' where "linenoiseHistoryAdd line s = Some (\<not> (es \<noteq> [] \<and> last es = line), s\<lparr>history := h, history_len := n\<rparr>)"
    "hist_is (add_entry (nat (history_max_len s)) line es) rest' (s\<lparr>history := h, history_len := n\<rparr>)"
proof (cases "es \<noteq> [] \<and> last es = line")
  case True
  have "history_max_len s \<noteq> 0" using assms(1) by (auto simp: hist_is_def)
  then show thesis using add_again [OF assms(1)] assms(1) True
    by (intro that [where h = "history s" and n = "history_len s" and rest' = rest]) (simp_all add: add_entry_def)
next
  case False
  note m = assms(1) [unfolded hist_is_def]
  show thesis
  proof (cases rest)
    case Nil
    then obtain e es' where es: "es = e # es'" using m by (cases es) auto
    then have f: "hist_is (e # es') [] s" "last (e # es') \<noteq> line" using assms(1) Nil False by simp_all
    have "add_entry (nat (history_max_len s)) line es = es' @ [line]"
      using m False Nil es unfolding add_entry_def by simp
    moreover have "hist_is (es' @ [line]) [] (s\<lparr>history := Some (map Str es' @ [Str line]), history_len := int (length es') + 1\<rparr>)"
      using m assms(3) Nil es by (simp add: hist_is_def)
    ultimately show thesis using add_full [OF f(1) assms(2) f(2)] False
      by (intro that [where h = "Some (map Str es' @ [Str line])" and n = "int (length es') + 1" and rest' = "[]"]) simp_all
  next
    case (Cons p ps)
    have "nat (history_max_len s) = length es + 1 + length ps" using m Cons by simp
    then have "add_entry (nat (history_max_len s)) line es = es @ [line]"
      using False unfolding add_entry_def by simp
    moreover have "hist_is (es @ [line]) ps (s\<lparr>history := Some (map Str es @ Str line # ps), history_len := int (length es) + 1\<rparr>)"
      using m assms(3) Cons by (simp add: hist_is_def)
    ultimately show thesis using add_room [OF assms(1) [unfolded Cons] assms(2) False] False
      by (intro that [where h = "Some (map Str es @ Str line # ps)" and n = "int (length es) + 1" and rest' = ps]) simp_all
  qed
qed

lemma history_add:
  assumes "hist_ok s" "ln_mem s = []" "EOS \<notin> set line"
  obtains h n where
    "linenoiseHistoryAdd line s = Some (\<not> (entries s \<noteq> [] \<and> last (entries s) = line), s\<lparr>history := Some h, history_len := n\<rparr>)"
    "hist_ok (s\<lparr>history := Some h, history_len := n\<rparr>)"
    "entries (s\<lparr>history := Some h, history_len := n\<rparr>) = add_entry (nat (history_max_len s)) line (entries s)"
proof (cases "history s")
  case None
  note n = hist_none [OF assms(1) None]
  let ?s = "s\<lparr>history := Some (replicate (nat (history_max_len s)) Null)\<rparr>"
  have h: "hist_is [] (replicate (nat (history_max_len s)) Null) ?s" using n by (simp add: hist_is_def)
  have m: "ln_mem ?s = []" using assms(2) by simp
  have e: "linenoiseHistoryAdd line s = linenoiseHistoryAdd line ?s"
    using None n assms(2) by (simp add: linenoiseHistoryAdd_def alloc_def)
  obtain h' k rest' where r: "linenoiseHistoryAdd line ?s = Some (True, ?s\<lparr>history := h', history_len := k\<rparr>)"
      "hist_is (add_entry (nat (history_max_len ?s)) line []) rest' (?s\<lparr>history := h', history_len := k\<rparr>)"
    by (rule add_to_array [OF h m assms(3)]) simp
  then obtain h2 where h2: "h' = Some h2" by (simp add: hist_is_def)
  show thesis using r hist_is_ok [OF r(2)] n by (intro that [where h = h2 and n = k]) (simp_all add: e h2)
next
  case (Some h)
  obtain rest where h: "hist_is (entries s) rest s" using hist_isI [OF assms(1) Some] .
  obtain h' k rest' where r: "linenoiseHistoryAdd line s = Some (\<not> (entries s \<noteq> [] \<and> last (entries s) = line), s\<lparr>history := h', history_len := k\<rparr>)"
      "hist_is (add_entry (nat (history_max_len s)) line (entries s)) rest' (s\<lparr>history := h', history_len := k\<rparr>)"
    by (rule add_to_array [OF h assms(2,3)])
  then obtain h2 where h2: "h' = Some h2" by (simp add: hist_is_def)
  show thesis using r hist_is_ok [OF r(2)] by (intro that [where h = h2 and n = k]) (simp_all add: h2)
qed

text \<open>Limiting keeps the latest lines.\<close>

lemma hist_free_first_some:
  assumes "hist_is es rest s" "n \<le> length es"
  shows "hist_free_first n s = Some (s\<lparr>history := Some (replicate n Freed @ map Str (drop n es) @ rest)\<rparr>)"
  using assms(2)
proof (induction n)
  case 0
  have "history s = Some (map Str es @ rest)" using assms(1) by (simp add: hist_is_def)
  then show ?case by simp
next
  case (Suc n)
  let ?h = "replicate n Freed @ map Str (drop n es) @ rest"
  obtain e es' where d: "drop n es = e # es'" using Suc.prems by (cases "drop n es") auto
  then have e: "drop (Suc n) es = es'" by (metis drop_Suc list.sel(3) tl_drop)
  have "hist_free (int n) (s\<lparr>history := Some ?h\<rparr>) = Some (s\<lparr>history := Some (?h[n := Freed])\<rparr>)"
    using d by (simp add: hist_free_def hist_at_def hist_put_def nth_append)
  moreover have "?h[n := Freed] = replicate (Suc n) Freed @ map Str es' @ rest"
    using d by (simp add: list_update_append replicate_append_same flip: replicate_Suc)
  ultimately show ?case using Suc e by simp
qed

lemma history_set_max:
  assumes "hist_ok s" "ln_mem s = []" "1 \<le> n"
  shows "\<exists>s'. linenoiseHistorySetMaxLen n s = Some (True, s') \<and> hist_ok s' \<and> history_max_len s' = n \<and>
           entries s' = drop (length (entries s) - nat n) (entries s)"
proof (cases "history s")
  case None
  then show ?thesis using hist_none [OF assms(1) None] assms
    by (intro exI [of _ "s\<lparr>history_max_len := n, history_len := min (history_len s) n\<rparr>"])
       (simp add: linenoiseHistorySetMaxLen_def hist_ok_def entries_def)
next
  case (Some h)
  obtain rest where r: "hist_is (entries s) rest s" using hist_isI [OF assms(1) Some] .
  define es where "es = entries s"
  define k where "k = length es - nat n"
  have l: "history_len s = int (length es)" using r by (simp add: hist_is_def es_def)
  have hs: "history s = Some (map Str es @ rest)" using r by (simp add: hist_is_def es_def)
  have nul: "\<forall>t\<in>set es. EOS \<notin> set t" using r by (simp add: hist_is_def es_def)
  let ?s = "s\<lparr>history := Some (map Str (drop k es) @ replicate (nat (n - min n (history_len s))) Null),
      history_max_len := n, history_len := min (history_len s) n\<rparr>"
  have "linenoiseHistorySetMaxLen n s = Some (True, ?s)"
  proof (cases "n < history_len s")
    case True
    then have k: "nat (history_len s - n) = k" "nat n = length (drop k es)" "k \<le> length es" "nat n + k = length es"
      using l assms(3) by (auto simp: k_def)
    have "hist_free_first k s = Some (s\<lparr>history := Some (replicate k Freed @ map Str (drop k es) @ rest)\<rparr>)"
      by (rule hist_free_first_some [OF r [folded es_def] k(3)])
    then show ?thesis using assms(2,3) True hs l k
      by (simp add: linenoiseHistorySetMaxLen_def alloc_def Let_def min_def)
  next
    case False
    then have "k = 0" using l by (simp add: k_def)
    then show ?thesis using assms(2,3) False hs l
      by (simp add: linenoiseHistorySetMaxLen_def alloc_def Let_def min_def)
  qed
  moreover have "hist_is (drop k es) (replicate (nat (n - min n (history_len s))) Null) ?s"
    using nul l assms(3) by (auto simp: hist_is_def k_def dest: in_set_dropD)
  ultimately show ?thesis using hist_is_ok [of "drop k es" _ ?s] by (intro exI [of _ ?s]) (simp add: es_def k_def)
qed

section \<open>Saving and loading\<close>

lemma hist_lines_all: "hist_lines (length es) (map Str es @ rest) = Some es"
  by (induction es) simp_all

lemma history_save_result:
  assumes "hist_ok s" "\<not> ln_readonly s f"
  shows "linenoiseHistorySave f s =
      Some (0, s\<lparr>ln_files := (ln_files s)(f \<mapsto> concat (map (\<lambda>l. l @ [LF]) (entries s)))\<rparr>)"
proof -
  have len: "nat (history_len s) = length (entries s)" using entries_len [OF assms(1)] by simp
  have "hist_lines (nat (history_len s)) (case history s of None \<Rightarrow> [] | Some h \<Rightarrow> h) = Some (entries s)"
  proof (cases "history s")
    case None
    then show ?thesis using hist_none [OF assms(1) None] by simp
  next
    case (Some h)
    then obtain rest where "hist_is (entries s) rest s" using hist_isI [OF assms(1)] by blast
    then show ?thesis using hist_lines_all [of "entries s" rest] by (simp add: hist_is_def)
  qed
  then show ?thesis using assms(2) by (simp add: linenoiseHistorySave_def)
qed

lemma fgets_line: "LF \<notin> set t \<Longrightarrow> length t < n \<Longrightarrow> fgets_file n (t @ LF # bs) = (t @ [LF], bs)"
proof (induction t arbitrary: n)
  case Nil
  then show ?case by (cases n) simp_all
next
  case (Cons c t)
  then show ?case by (cases n) auto
qed

lemma trim_line_plain:
  assumes "EOS \<notin> set t" "CR \<notin> set t" "LF \<notin> set t"
  shows "trim_line (t @ [LF]) = t"
proof -
  have "cstring (t @ [LF]) = t @ [LF]" using assms(1) by (simp add: cstring_def takeWhile_append2 takeWhile_eq_all_conv) (metis takeWhile_append2)
  then show ?thesis using assms by (auto simp: trim_line_def takeWhile_tail takeWhile_eq_all_conv)
qed

text \<open>Lines that a text file can hold, one per line.\<close>

definition file_line :: "string \<Rightarrow> bool" where
  "file_line t \<longleftrightarrow> EOS \<notin> set t \<and> CR \<notin> set t \<and> LF \<notin> set t \<and> length t < LINENOISE_MAX_LINE - 1"

lemma load_lines_entries:
  assumes "list_all file_line es" "hist_ok s" "ln_mem s = []"
  shows "\<exists>s'. load_lines (concat (map (\<lambda>l. l @ [LF]) es)) s = Some s' \<and> hist_ok s' \<and>
           entries s' = fold (add_entry (nat (history_max_len s))) es (entries s)"
  using assms
proof (induction es arbitrary: s)
  case Nil
  then show ?case by (subst load_lines.simps) simp
next
  case (Cons t es)
  then have t: "EOS \<notin> set t" "CR \<notin> set t" "LF \<notin> set t" "length t < LINENOISE_MAX_LINE - 1" by (simp_all add: file_line_def)
  obtain h n where s1: "linenoiseHistoryAdd t s = Some (\<not> (entries s \<noteq> [] \<and> last (entries s) = t), s\<lparr>history := Some h, history_len := n\<rparr>)"
      "hist_ok (s\<lparr>history := Some h, history_len := n\<rparr>)"
      "entries (s\<lparr>history := Some h, history_len := n\<rparr>) = add_entry (nat (history_max_len s)) t (entries s)"
    using history_add [OF Cons.prems(2,3) t(1)] .
  let ?s1 = "s\<lparr>history := Some h, history_len := n\<rparr>"
  have k: "ln_mem ?s1 = []" "history_max_len ?s1 = history_max_len s" using Cons.prems(3) by simp_all
  let ?r = "concat (map (\<lambda>l. l @ [LF]) es)"
  have "load_lines (t @ LF # ?r) s = load_lines ?r ?s1"
    by (subst load_lines.simps) (simp add: fgets_line [OF t(3,4)] trim_line_plain [OF t(1-3)] s1(1) del: One_nat_def)
  then show ?case using Cons.IH [OF _ s1(2) k(1)] Cons.prems(1) s1(3) k(2) by simp
qed

lemma fold_add_all:
  assumes "distinct_adj (xs @ es)" "length (xs @ es) \<le> mx"
  shows "fold (add_entry mx) es xs = xs @ es"
  using assms
proof (induction es arbitrary: xs)
  case (Cons t es)
  then have "add_entry mx t xs = xs @ [t]"
    by (cases xs rule: rev_cases) (auto simp: add_entry_def distinct_adj_append_iff)
  then show ?case using Cons.IH [of "xs @ [t]"] Cons.prems by simp
qed simp

section \<open>Stepping through the history\<close>

text \<open>The line shown is stored where it came from before another one is shown.\<close>

definition step_index :: "hist_dir \<Rightarrow> int \<Rightarrow> int" where
  "step_index dir i = i + (if dir = HISTORY_PREV then 1 else -1)"

lemma cstring_take: "EOS \<notin> set l \<Longrightarrow> cstring (l @ EOS # j) = l"
  by (auto simp: cstring_def takeWhile_tail takeWhile_eq_all_conv)

lemma takeWhile_stop: "\<not> P x \<Longrightarrow> takeWhile P (t @ x # j) = takeWhile P t"
  by (induction t) simp_all

lemma ed_c_str:
  assumes "ed_ok s"
  shows "c_str (l_buf s) = Some (cstring (fst (ed_text s) @ snd (ed_text s)))"
proof -
  obtain j where j: "holds s (fst (ed_text s)) (snd (ed_text s)) j" using ed_holds [OF assms] .
  let ?t = "fst (ed_text s) @ snd (ed_text s)"
  have b: "l_buf s = ?t @ EOS # j" using j by (simp add: holds_def)
  show ?thesis unfolding b by (simp add: c_str_def cstring_def takeWhile_stop del: append_assoc)
qed

lemma strncpy_line:
  assumes "ed_ok s" "EOS \<notin> set t" "0 < l_buflen s"
  obtains b j where "strncpy t (l_buflen s) (l_buf s) = Some b"
    "poke (l_buflen s - 1) EOS b = Some (take (l_buflen s - 1) t @ EOS # j)"
    "length (take (l_buflen s - 1) t @ EOS # j) = length (l_buf s)"
proof -
  let ?n = "l_buflen s" and ?t = "take (l_buflen s - 1) t"
  define b where "b = take ?n (t @ replicate ?n EOS) @ drop ?n (l_buf s)"
  have len: "length (l_buf s) = ?n + 1" using assms(1) by (simp add: ed_ok_def)
  have lb: "length b = ?n + 1" using len by (simp add: b_def)
  have s: "strncpy t ?n (l_buf s) = Some b" using len by (simp add: strncpy_def b_def)
  have p: "poke (?n - 1) EOS b = Some (b[?n - 1 := EOS])" using lb by (simp add: poke_def)
  have "prefix (?t @ [EOS]) (b[?n - 1 := EOS])"
  proof (cases "length t < ?n")
    case True
    then have bt: "b = t @ EOS # (replicate (?n - length t - 1) EOS @ drop ?n (l_buf s))"
      by (simp add: b_def replicate_Suc [symmetric] min_def del: replicate_Suc)
    then have "b[?n - 1 := EOS] = t @ (EOS # (replicate (?n - length t - 1) EOS @ drop ?n (l_buf s)))[?n - 1 - length t := EOS]"
      using True by (subst bt, subst list_update_append) auto
    moreover have "hd ((EOS # (replicate (?n - length t - 1) EOS @ drop ?n (l_buf s)))[?n - 1 - length t := EOS]) = EOS"
      by (cases "?n - 1 - length t") simp_all
    ultimately show ?thesis using True by (cases "?n - 1 - length t") (auto simp: prefix_def)
  next
    case False
    then have "b = take ?n t @ drop ?n (l_buf s)" by (simp add: b_def)
    moreover have "take ?n t = ?t @ [t ! (?n - 1)]" using False assms(3)
      by (metis Suc_diff_1 Suc_le_lessD not_less take_Suc_conv_app_nth)
    ultimately have "b[?n - 1 := EOS] = ?t @ EOS # drop ?n (l_buf s)"
      using False assms(3) by (simp add: list_update_append min_def)
    then show ?thesis by (simp add: prefix_def)
  qed
  then obtain j where j: "b[?n - 1 := EOS] = ?t @ EOS # j" by (auto simp: prefix_def)
  have "length (?t @ EOS # j) = length (l_buf s)" using j lb len by (metis length_list_update)
  then show thesis using that s p j by metis
qed

lemma hist_put_str:
  assumes "hist_is es rest s" "i < length es" "EOS \<notin> set t"
  shows "hist_is (es[i := t]) rest (s\<lparr>history := Some ((map Str es)[i := Str t] @ rest)\<rparr>)"
  using assms set_update_subset_insert [of es i t] by (auto simp: hist_is_def map_update)

text \<open>
  One step: the text is stored at its place in the list, and the neighbour, if there is one, becomes the
  text, cut to what the buffer takes.
\<close>

lemma history_next_result:
  fixes dir :: hist_dir
  assumes "ed_ok s" "hist_is es rest s" "1 < length es" "ln_mem s = []" "0 < l_buflen s"
    and "0 \<le> l_history_index s" "l_history_index s < int (length es)"
  defines "es' \<equiv> es[length es - 1 - nat (l_history_index s) := cstring (fst (ed_text s) @ snd (ed_text s))]"
    and "i \<equiv> step_index dir (l_history_index s)"
  shows "\<exists>s'. linenoiseEditHistoryNext dir s = Some s' \<and> ed_ok s' \<and> hist_is es' rest s' \<and> l_buflen s' = l_buflen s \<and> ln_mem s' = [] \<and>
           completionCallback s' = completionCallback s \<and> ln_dir s' = ln_dir s \<and> ln_stat s' = ln_stat s \<and>
           (if 0 \<le> i \<and> i < int (length es)
            then l_history_index s' = i \<and> ed_text s' = (take (l_buflen s - 1) (es' ! (length es - 1 - nat i)), [])
            else l_history_index s' = l_history_index s \<and> ed_text s' = ed_text s)"
proof -
  let ?n = "length es" and ?k = "length es - 1 - nat (l_history_index s)"
  let ?t = "cstring (fst (ed_text s) @ snd (ed_text s))"
  note m = assms(2) [unfolded hist_is_def]
  have k: "history_len s - 1 - l_history_index s = int ?k" "?k < ?n" using m assms(6,7) by auto
  have fr: "hist_free (int ?k) s = Some (s\<lparr>history := Some ((map Str es)[?k := Freed] @ rest)\<rparr>)"
    by (rule hist_free_in [OF assms(2) k(2)])
  let ?s1 = "s\<lparr>history := Some ((map Str es)[?k := Freed] @ rest)\<rparr>"
  let ?s2 = "s\<lparr>history := Some ((map Str es)[?k := Str ?t] @ rest)\<rparr>"
  have c: "c_str (l_buf s) = Some ?t" using ed_c_str [OF assms(1)] .
  have d: "strdup ?t ?s1 = (Str ?t, ?s1)" using assms(4) by (simp add: strdup_def alloc_def)
  have pt: "hist_put (int ?k) (Str ?t) ?s1 = Some ?s2" using k(2) by (simp add: hist_put_def list_update_append)
  have z: "EOS \<notin> set ?t" by (auto simp: cstring_def dest: set_takeWhileD)
  have h2: "hist_is es' rest ?s2" unfolding es'_def by (rule hist_put_str [OF assms(2) k(2) z])
  have ok2: "ed_ok (?s2\<lparr>l_history_index := j\<rparr>)" for j using assms(1) by (simp add: ed_ok_def)
  have t2: "ed_text (?s2\<lparr>l_history_index := j\<rparr>) = ed_text s" for j by (simp add: ed_text_def)
  have h2': "hist_is es' rest (?s2\<lparr>l_history_index := j\<rparr>)" for j using h2 by (simp add: hist_is_def)
  have hl: "history_len s = int ?n" using m by simp
  have step: "linenoiseEditHistoryNext dir s =
    (if i < 0 then Some (?s2\<lparr>l_history_index := 0\<rparr>)
     else if i \<ge> int ?n then Some (?s2\<lparr>l_history_index := int ?n - 1\<rparr>)
     else do {
       e \<leftarrow> hist_at (int ?n - 1 - i) ?s2;
       t \<leftarrow> (case e of Str t \<Rightarrow> Some t | _ \<Rightarrow> None);
       b \<leftarrow> strncpy t (l_buflen s) (l_buf s);
       b \<leftarrow> poke (l_buflen s - 1) EOS b;
       t \<leftarrow> c_str b;
       refreshLine (?s2\<lparr>l_history_index := i, l_buf := b, l_len := length t, l_pos := length t\<rparr>) })"
    unfolding linenoiseEditHistoryNext_def k(1) fr Option.bind.bind_lunit Let_def
    using assms(3,5) c d pt [folded k(1), unfolded hl] hl by (cases dir) (simp_all add: i_def step_index_def)
  show ?thesis
  proof (cases "0 \<le> i \<and> i < int ?n")
    case False
    then have "(i < 0 \<and> l_history_index s = 0) \<or> (i \<ge> int ?n \<and> int ?n - 1 = l_history_index s)"
      using assms(6,7) by (auto simp: i_def step_index_def split: if_splits)
    then show ?thesis using False ok2 t2 h2' assms(4) by (auto simp: step)
  next
    case True
    let ?j = "?n - 1 - nat i"
    define t where "t = es' ! ?j"
    have j: "int ?n - 1 - i = int ?j" "?j < length es'" using True by (auto simp: es'_def)
    have e: "hist_at (int ?n - 1 - i) ?s2 = Some (Str t)" unfolding j(1) t_def by (rule hist_at_in [OF h2 j(2)])
    have tz: "EOS \<notin> set t" using h2 j(2) by (auto simp: hist_is_def t_def)
    obtain b r where b: "strncpy t (l_buflen s) (l_buf s) = Some b"
      "poke (l_buflen s - 1) EOS b = Some (take (l_buflen s - 1) t @ EOS # r)"
      "length (take (l_buflen s - 1) t @ EOS # r) = length (l_buf s)"
      by (rule strncpy_line [OF assms(1) tz assms(5)])
    let ?u = "take (l_buflen s - 1) t"
    have u: "c_str (?u @ EOS # r) = Some ?u" using tz by (auto simp: c_str_def intro!: cstring_take dest: in_set_takeD)
    let ?s3 = "?s2\<lparr>l_history_index := i\<rparr>"
    have "edited ?s3 (refreshLine (?s3\<lparr>l_buf := ?u @ EOS # r, l_len := length ?u, l_pos := length ?u\<rparr>)) ?u []"
      using ok2 b(3) by (intro edited_refresh_eq [where j = r]) (assumption | simp)+
    then obtain s' where s': "refreshLine (?s3\<lparr>l_buf := ?u @ EOS # r, l_len := length ?u, l_pos := length ?u\<rparr>) = Some s'"
      "ed_ok s'" "ed_text s' = (?u, [])" "same_env ?s3 s'" by (auto simp: edited_def)
    then have "linenoiseEditHistoryNext dir s = Some s'"
      using True by (simp only: step e b(1,2) u Option.bind.bind_lunit ptr.case not_less [symmetric] simp_thms if_False)
    moreover have "hist_is es' rest s'" "l_history_index s' = i" "l_buflen s' = l_buflen s" "ln_mem s' = []"
      "completionCallback s' = completionCallback s" "ln_dir s' = ln_dir s" "ln_stat s' = ln_stat s"
      using s'(4) h2 assms(4) by (auto simp: same_env_def redrawn_sel hist_is_def)
    ultimately show ?thesis using s'(2,3) True by (simp add: t_def)
  qed
qed

section \<open>Properties\<close>

text \<open>
  C34: a history saved to a file and loaded again, into an empty history of the same limit, is the same
  list of lines: lines without CR, LF and NUL that fit the buffer of the loader, no two adjacent ones
  equal.
\<close>

theorem history_saved:
  assumes "hist_ok s" "ln_mem s = []" "\<not> ln_readonly s f"
    and "list_all file_line (entries s)" "distinct_adj (entries s)"
  shows "\<exists>s1 s2. linenoiseHistorySave f s = Some (0, s1) \<and>
           linenoiseHistoryLoad f (s1\<lparr>history := None, history_len := 0\<rparr>) = Some (0, s2) \<and>
           hist_ok s2 \<and> entries s2 = entries s"
proof -
  have len: "nat (history_len s) = length (entries s)" using entries_len [OF assms(1)] by simp
  have mx: "length (entries s) \<le> nat (history_max_len s)" using assms(1) len by (auto simp: hist_ok_def)
  note save = history_save_result [OF assms(1,3)]
  let ?s1 = "s\<lparr>ln_files := (ln_files s)(f \<mapsto> concat (map (\<lambda>l. l @ [LF]) (entries s))), history := None, history_len := 0\<rparr>"
  have ok: "hist_ok ?s1" "entries ?s1 = []" "ln_mem ?s1 = []" using assms(1,2) by (simp_all add: hist_ok_def entries_def)
  obtain s2 where "load_lines (concat (map (\<lambda>l. l @ [LF]) (entries s))) ?s1 = Some s2" "hist_ok s2"
      "entries s2 = fold (add_entry (nat (history_max_len s))) (entries s) []"
    using load_lines_entries [OF assms(4) ok(1,3)] ok(2) by auto
  then show ?thesis
    using save fold_add_all [of "[]" "entries s"] assms(5) mx by (auto simp: linenoiseHistoryLoad_def)
qed

definition sample_hist :: ln where
  "sample_hist = sample_ln\<lparr>history := Some [Str ''9600'', Str ''one'', Null], history_len := 2, history_max_len := 3\<rparr>"

lemma sample_hist_ok: "hist_ok sample_hist" "entries sample_hist = [''9600'', ''one'']" "ln_mem sample_hist = []"
  "\<not> ln_readonly sample_hist f"
  by (simp_all add: sample_hist_def sample_ln_def hist_ok_def entries_def os.extend_def)

lemma history_saved_witness:
  "\<exists>s1 s2. linenoiseHistorySave ''f'' sample_hist = Some (0, s1) \<and>
           linenoiseHistoryLoad ''f'' (s1\<lparr>history := None, history_len := 0\<rparr>) = Some (0, s2) \<and>
           hist_ok s2 \<and> entries s2 = entries sample_hist"
  by (rule history_saved) (simp_all add: sample_hist_ok file_line_def LINENOISE_MAX_LINE_def)

text \<open>
  Stepping back in the history and forward again returns to the line that was being typed: the
  previous entry is shown (cut to what the buffer takes), the typed line waits in the last place of the
  history and comes back whole, with the cursor at its end.
\<close>

theorem history_prev_next:
  assumes "ed_ok s" "hist_ok s" "1 < history_len s" "l_history_index s = 0" "ln_mem s = []"
    and "EOS \<notin> set (fst (ed_text s) @ snd (ed_text s))" "length (fst (ed_text s) @ snd (ed_text s)) < l_buflen s"
  shows "\<exists>s1 s2. linenoiseEditHistoryNext HISTORY_PREV s = Some s1 \<and>
           ed_text s1 = (take (l_buflen s - 1) (entries s ! (length (entries s) - 2)), []) \<and>
           linenoiseEditHistoryNext HISTORY_NEXT s1 = Some s2 \<and>
           ed_text s2 = (fst (ed_text s) @ snd (ed_text s), []) \<and> hist_ok s2"
proof -
  obtain h where h: "history s = Some h" using assms(2,3) by (auto simp: hist_ok_def split: option.splits)
  obtain rest where r: "hist_is (entries s) rest s" using hist_isI [OF assms(2) h] .
  define es where "es = entries s"
  define t where "t = fst (ed_text s) @ snd (ed_text s)"
  have n: "1 < length es" using r assms(3) by (simp add: hist_is_def es_def)
  then have ne: "es \<noteq> []" by auto
  have ct: "cstring t = t" using assms(6) by (auto simp: cstring_def t_def takeWhile_eq_all_conv)
  have pos: "0 < l_buflen s" using assms(7) by simp
  let ?es1 = "es[length es - 1 := t]"
  obtain s1 where s1: "linenoiseEditHistoryNext HISTORY_PREV s = Some s1" "ed_ok s1" "hist_is ?es1 rest s1"
      "l_buflen s1 = l_buflen s" "ln_mem s1 = []" "l_history_index s1 = 1"
      "ed_text s1 = (take (l_buflen s - 1) (?es1 ! (length es - 2)), [])"
    using history_next_result [OF assms(1) r [folded es_def] n assms(5) pos, of HISTORY_PREV] assms(4) n ct ne
    by (auto simp: step_index_def t_def numeral_2_eq_2)
  have n1: "1 < length ?es1" using n by simp
  have k: "length es - 1 - nat 1 \<noteq> length es - 1" using n by auto
  obtain s2 where s2: "linenoiseEditHistoryNext HISTORY_NEXT s1 = Some s2" "hist_ok s2"
      "ed_text s2 = (take (l_buflen s - 1) t, [])"
    using history_next_result [OF s1(2,3) n1 s1(5) _ , of HISTORY_NEXT] s1(4,6) pos n k ne hist_is_ok
    by (auto simp: step_index_def nth_list_update)
  have "?es1 ! (length es - 2) = es ! (length es - 2)" using n by (auto simp: nth_list_update)
  then show ?thesis using s1(1,7) s2 assms(7) by (auto simp: es_def t_def)
qed

definition sample_old :: led where
  "sample_old = sample_led\<lparr>history := Some [Str ''9600'', Str ''x'', Null], history_len := 2, history_max_len := 3\<rparr>"

lemma history_prev_next_witness:
  "\<exists>s1 s2. linenoiseEditHistoryNext HISTORY_PREV sample_old = Some s1 \<and> ed_text s1 = (''9600'', []) \<and>
           linenoiseEditHistoryNext HISTORY_NEXT s1 = Some s2 \<and> ed_text s2 = (''abc'', [])"
proof -
  have "ed_ok sample_old" "hist_ok sample_old" "1 < history_len sample_old" "l_history_index sample_old = 0" "ln_mem sample_old = []"
    "ed_text sample_old = (''abc'', [])" "l_buflen sample_old = 7" "entries sample_old = [''9600'', ''x'']"
    by (simp_all add: sample_old_def sample_led_def sample_ln_def ed_ok_def ed_text_def hist_ok_def entries_def os.extend_def ln.extend_def)
  then show ?thesis using history_prev_next [of sample_old] by auto
qed

end
