(* ===== verification/Line_Props.thy ===== *)
theory Line_Props
  imports Line_History
begin

text \<open>
  The key loop of the line editor: which names are completed, that every key and every completion stays
  within defined behaviour and keeps the state in order (\<open>loop_ok\<close>), and that the loop ends for every
  input (\<open>edit_loop_ends\<close>).
\<close>

section \<open>Completions\<close>

definition entry_names :: "(string \<Rightarrow> bool option) \<Rightarrow> string \<Rightarrow> string \<Rightarrow> string \<Rightarrow> string list" where
  "entry_names st dirn basen d =
     (if prefix basen d then
        (let fullpath = (if last dirn \<noteq> SLASH then dirn @ [SLASH] else dirn) @ d in
         case st fullpath of None \<Rightarrow> [] | Some isdir \<Rightarrow> [if isdir then fullpath @ [SLASH] else fullpath])
      else [])"

definition completions :: "'a ln_scheme \<Rightarrow> string \<Rightarrow> string list" where
  "completions s t =
     (case ln_dir s (dirname t) of
        None \<Rightarrow> []
      | Some ds \<Rightarrow> concat (map (entry_names (ln_stat s) (dirname t) (basename t)) ds))"

lemma complete_entries_names:
  "ln_mem s = [] \<Longrightarrow>
     complete_entries dirn basen ds (lc, s) = Some (lc @ concat (map (entry_names (ln_stat s) dirn basen) ds), s)"
proof (induction ds arbitrary: lc)
  case (Cons d ds)
  let ?f = "(if last dirn \<noteq> SLASH then dirn @ [SLASH] else dirn) @ d"
  have a: "alloc s = (True, s)" using Cons.prems by (simp add: alloc_def)
  have "(case ln_stat s ?f of None \<Rightarrow> (lc, s)
      | Some isdir \<Rightarrow> linenoiseAddCompletion (if isdir then ?f @ [SLASH] else ?f) (lc, s)) =
      (lc @ entry_names (ln_stat s) dirn basen d, s)" if "prefix basen d"
    using that by (simp add: entry_names_def linenoiseAddCompletion_def a Let_def split: option.split)
  moreover have "entry_names (ln_stat s) dirn basen d = []" if "\<not> prefix basen d" using that by (simp add: entry_names_def)
  ultimately show ?case
    by (cases "prefix basen d")
       (simp_all only: complete_entries.simps a simp_thms if_True if_False prod.case bool.case Let_def Cons.IH [OF Cons.prems]
         list.map concat.simps append_assoc append_Nil)
qed simp

lemma file_completion: "ln_mem s = [] \<Longrightarrow> file_completion_cb t s = Some (completions s t, s)"
  by (simp add: file_completion_cb_def alloc_def Let_def completions_def complete_entries_names split: option.split)

section \<open>The state of the key loop\<close>

definition loop_ok :: "led \<Rightarrow> bool" where
  "loop_ok s \<longleftrightarrow>
     ed_ok s \<and> 0 < l_buflen s \<and> ln_mem s = [] \<and>
     (\<exists>es rest. hist_is es rest s \<and> 0 \<le> l_history_index s \<and> l_history_index s < int (length es)) \<and>
     (completionCallback s \<noteq> No_cb \<longrightarrow> (\<forall>t. \<forall>c\<in>set (completions s t). length c < l_buflen s))"

text \<open>What the loop is left with: the line with its NUL, and a history in order.\<close>

definition left_ok :: "led \<Rightarrow> bool" where
  "left_ok s \<longleftrightarrow> ed_ok s \<and> hist_ok s \<and> ln_mem s = []"

lemma loop_left: "loop_ok s \<Longrightarrow> left_ok s"
  using hist_is_ok by (auto simp: loop_ok_def left_ok_def)

lemma same_env_sel:
  assumes "same_env s s'"
  shows "l_buflen s' = l_buflen s" "history s' = history s" "history_len s' = history_len s" "history_max_len s' = history_max_len s"
    "l_history_index s' = l_history_index s" "completionCallback s' = completionCallback s" "ln_dir s' = ln_dir s"
    "ln_stat s' = ln_stat s" "l_ifd s' = l_ifd s" "l_ofd s' = l_ofd s" "os_in s' = os_in s" "mlmode s' = mlmode s" "ln_junk s' = ln_junk s"
    "os_fd s' = os_fd s" "os_faults s' = os_faults s" "os_dev s' = os_dev s" "os_drv s' = os_drv s"
    "orig_termios s' = orig_termios s" "rawmode s' = rawmode s" "l_prompt s' = l_prompt s"
    "ln_mem s = [] \<Longrightarrow> ln_mem s' = []" "os_wres s = [] \<Longrightarrow> os_wres s' = []"
  using assms by (auto simp: same_env_def redrawn_sel)

lemma hist_is_cong:
  "history s' = history s \<Longrightarrow> history_len s' = history_len s \<Longrightarrow> history_max_len s' = history_max_len s \<Longrightarrow>
     hist_is es rest s' = hist_is es rest s"
  by (simp add: hist_is_def)

lemma completions_cong:
  assumes "ln_dir s' = ln_dir s" "ln_stat s' = ln_stat s"
  shows "completions s' = completions s"
  unfolding completions_def assms by (rule refl)

text \<open>Neither the terminal nor the history file is the keys' business.\<close>

definition files_same :: "'a ln_scheme \<Rightarrow> 'b ln_scheme \<Rightarrow> bool" where
  "files_same s s' \<longleftrightarrow>
     ln_files s' = ln_files s \<and> ln_readonly s' = ln_readonly s \<and> history_file_path s' = history_file_path s \<and>
     history_max_len s' = history_max_len s"

definition tty_same :: "led \<Rightarrow> led \<Rightarrow> bool" where
  "tty_same s s' \<longleftrightarrow>
     os_fd s' = os_fd s \<and> os_faults s' = os_faults s \<and> os_dev s' = os_dev s \<and> os_drv s' = os_drv s \<and>
     orig_termios s' = orig_termios s \<and> rawmode s' = rawmode s \<and> l_buflen s' = l_buflen s \<and> files_same s s'"

lemma files_same_refl [simp]: "files_same s s"
  by (simp add: files_same_def)

lemma tty_same_refl [simp]: "tty_same s s"
  by (simp add: tty_same_def)

lemma tty_same_trans: "tty_same s t \<Longrightarrow> tty_same t u \<Longrightarrow> tty_same s u"
  by (simp add: tty_same_def files_same_def)

lemma redrawn_files: "redrawn s s' \<Longrightarrow> files_same s s'"
  by (cases s; cases s') (simp add: redrawn_def files_same_def)

lemma same_env_files:
  assumes "same_env s s'"
  shows "files_same s s'"
proof -
  obtain b p n where "redrawn (s\<lparr>l_buf := b, l_pos := p, l_len := n\<rparr>) s'" using assms by (auto simp: same_env_def)
  then show ?thesis using redrawn_files by (fastforce simp: files_same_def)
qed

text \<open>A step of the loop.\<close>

definition steps :: "led \<Rightarrow> led option \<Rightarrow> bool" where
  "steps s m \<longleftrightarrow> (\<exists>s'. m = Some s' \<and> loop_ok s' \<and> tty_same s s')"

lemma steps_here: "loop_ok s \<Longrightarrow> steps s (Some s)"
  by (simp add: steps_def)

lemma steps_trans: "tty_same s t \<Longrightarrow> steps t m \<Longrightarrow> steps s m"
  using tty_same_trans by (auto simp: steps_def)

lemma steps_edited:
  assumes "loop_ok s" "edited s m l r"
  shows "steps s m"
proof -
  obtain s' where s': "m = Some s'" "ed_ok s'" "same_env s s'" using assms(2) by (auto simp: edited_def)
  note e = same_env_sel [OF s'(3)]
  have "completions s' = completions s" using e by (intro completions_cong)
  then have "loop_ok s'" using assms(1) s'(2) hist_is_cong [OF e(2-4)] by (simp add: loop_ok_def e)
  then show ?thesis using s'(1) e same_env_files [OF s'(3)] by (simp add: steps_def tty_same_def)
qed

lemma steps_run: "loop_ok s \<Longrightarrow> steps s (edit_run op s)"
  using steps_edited [OF _ edit_run_edited] by (auto simp: loop_ok_def)

lemma hist_keeps_tty:
  "hist_put i p s = Some s' \<Longrightarrow> tty_same s s'"
  "hist_free i s = Some s' \<Longrightarrow> tty_same s s'"
  "strdup t s = (q, s') \<Longrightarrow> tty_same s s'"
  by (auto simp: hist_put_def hist_free_def strdup_def alloc_def tty_same_def files_same_def split: option.splits if_splits ptr.splits list.splits)

lemma redrawn_tty: "redrawn s s' \<Longrightarrow> tty_same s s'"
  by (simp add: tty_same_def redrawn_sel redrawn_files)

lemma history_next_tty: "linenoiseEditHistoryNext d s = Some s' \<Longrightarrow> tty_same s s'"
  unfolding linenoiseEditHistoryNext_def Let_def
  by (auto split: if_splits bind_splits prod.splits option.splits ptr.splits
      dest!: hist_keeps_tty refreshLine_redrawn redrawn_tty simp: tty_same_def files_same_def)

lemma steps_history:
  assumes "loop_ok s"
  shows "steps s (linenoiseEditHistoryNext dir s)"
proof -
  obtain es rest where h: "hist_is es rest s" "0 \<le> l_history_index s" "l_history_index s < int (length es)"
    using assms by (auto simp: loop_ok_def)
  show ?thesis
  proof (cases "1 < length es")
    case False
    then show ?thesis using assms h(1) by (simp add: linenoiseEditHistoryNext_def hist_is_def steps_here)
  next
    case True
    have p: "ed_ok s" "ln_mem s = []" "0 < l_buflen s" using assms by (simp_all add: loop_ok_def)
    obtain s' es' where s': "linenoiseEditHistoryNext dir s = Some s'" "ed_ok s'" "hist_is es' rest s'" "length es' = length es"
      "l_buflen s' = l_buflen s" "ln_mem s' = []" "completionCallback s' = completionCallback s" "ln_dir s' = ln_dir s"
      "ln_stat s' = ln_stat s" "0 \<le> l_history_index s'" "l_history_index s' < int (length es)"
      using history_next_result [OF p(1) h(1) True p(2,3) h(2,3), of dir] h(2,3) by (fastforce split: if_splits)
    have "completions s' = completions s" using s'(8,9) by (rule completions_cong)
    then have "loop_ok s'" using s' assms by (auto simp: loop_ok_def)
    then show ?thesis using s'(1) history_next_tty by (simp add: steps_def)
  qed
qed

section \<open>Keys\<close>

lemma loop_ok_upd [simp]:
  "loop_ok (s\<lparr>os_in := i\<rparr>) = loop_ok s" "loop_ok (s\<lparr>os_errno := e\<rparr>) = loop_ok s"
  by (simp_all add: loop_ok_def ed_ok_def hist_is_def completions_def)

lemma loop_ok_read:
  assumes "os_read fd n s = (r, s1)" "loop_ok s"
  shows "loop_ok s1 \<and> tty_same s s1"
proof -
  have "\<exists>i e. s1 = s\<lparr>os_in := i, os_errno := e\<rparr>"
    using assms(1) by (cases s) (auto simp: os_read_def split: list.splits rd.splits)
  moreover have "s\<lparr>os_in := i, os_errno := e\<rparr> = (s\<lparr>os_in := i\<rparr>)\<lparr>os_errno := e\<rparr>" for i e by simp
  ultimately show ?thesis using assms(2) loop_ok_upd by (auto simp: tty_same_def files_same_def simp del: loop_ok_upd)
qed

lemma loop_ok_seq: "read_seq i s = (r, s1) \<Longrightarrow> loop_ok s \<Longrightarrow> loop_ok s1 \<and> tty_same s s1"
  by (auto simp: read_seq_def split: prod.splits sum.splits list.splits dest: loop_ok_read)

lemma steps_ops:
  assumes "loop_ok s"
  shows "steps s (linenoiseEditMoveLeft s)" "steps s (linenoiseEditMoveRight s)" "steps s (linenoiseEditMoveHome s)"
    "steps s (linenoiseEditMoveEnd s)" "steps s (linenoiseEditDelete s)" "steps s (linenoiseEditBackspace s)"
    "steps s (linenoiseEditDeletePrevWord s)" "steps s (swap_key s)"
  using steps_run [OF assms, of Go_left] steps_run [OF assms, of Go_right] steps_run [OF assms, of Go_home]
    steps_run [OF assms, of Go_end] steps_run [OF assms, of Del_right] steps_run [OF assms, of Del_left]
    steps_run [OF assms, of Del_word] steps_run [OF assms, of Swap] by simp_all

lemma steps_seq:
  assumes "loop_ok s" "\<And>a s1. loop_ok s1 \<Longrightarrow> steps s1 (f a s1)"
  shows "steps s (case read_seq i s of (None, s1) \<Rightarrow> Some s1 | (Some a, s1) \<Rightarrow> f a s1)"
proof -
  obtain r s1 where r: "read_seq i s = (r, s1)" by fastforce
  then have "loop_ok s1" "tty_same s s1" using loop_ok_seq assms(1) by blast+
  then show ?thesis using assms(2) [of s1] by (cases r) (simp_all add: r steps_trans steps_here)
qed

lemma steps_bracket: "loop_ok s \<Longrightarrow> steps s (esc_bracket c s)"
  unfolding esc_bracket_def by (auto simp: steps_here steps_ops steps_history intro: steps_seq)

lemma steps_esc: "loop_ok s \<Longrightarrow> steps s (esc_key s)"
  unfolding esc_key_def by (intro steps_seq) (simp_all add: steps_here steps_ops steps_bracket)

text \<open>A key: the loop goes on, or ends with -1 or the length of the line.\<close>

definition key_steps :: "led \<Rightarrow> (int option \<times> led) option \<Rightarrow> bool" where
  "key_steps s m \<longleftrightarrow>
     (\<exists>r s'. m = Some (r, s') \<and> tty_same s s' \<and>
        (case r of None \<Rightarrow> loop_ok s' | Some n \<Rightarrow> left_ok s' \<and> (n = -1 \<or> n = int (l_len s'))))"

lemma key_steps_on: "steps s m \<Longrightarrow> key_steps s (map_option (Pair None) m)"
  by (auto simp: steps_def key_steps_def)

lemma drop_entry_result:
  assumes "loop_ok s"
  obtains h n where "drop_entry s = Some (s\<lparr>history := h, history_len := n\<rparr>)"
    "left_ok (s\<lparr>history := h, history_len := n\<rparr>)" "entries (s\<lparr>history := h, history_len := n\<rparr>) = butlast (entries s)"
proof -
  obtain es rest where h: "hist_is es rest s" "l_history_index s < int (length es)" "0 \<le> l_history_index s"
    using assms by (auto simp: loop_ok_def)
  then have ne: "es \<noteq> []" by auto
  define n where "n = length es - 1"
  let ?s = "s\<lparr>history := Some ((map Str es)[n := Freed] @ rest), history_len := int n\<rparr>"
  have lt: "n < length es" "history_len s - 1 = int n" using h(1) ne by (cases es; auto simp: hist_is_def n_def)+
  have "hist_free (int n) (s\<lparr>history_len := int n\<rparr>) = Some ?s"
    using h(1) lt(1) by (simp add: hist_free_def hist_at_def hist_put_def hist_is_def nth_append list_update_append)
  then have d: "drop_entry s = Some ?s" using lt(2) by (simp add: drop_entry_def)
  have e: "(map Str es)[n := Freed] @ rest = map Str (butlast es) @ Freed # rest" "n = length (butlast es)"
    using ne by (cases es rule: rev_cases; simp add: list_update_append n_def)+
  have "hist_is (butlast es) (Freed # rest) ?s"
    unfolding e(1) unfolding e(2) using h(1) ne by (cases es rule: rev_cases) (auto simp: hist_is_def)
  then have "hist_ok ?s" "entries ?s = butlast es" using hist_is_ok by blast+
  moreover have "entries s = es" using hist_is_ok [OF h(1)] by simp
  ultimately show thesis using d assms by (intro that) (assumption, simp_all add: left_ok_def loop_ok_def ed_ok_def)
qed

lemma key_steps_drop:
  assumes "loop_ok s"
  shows "key_steps s (map_option (Pair (Some (-1))) (drop_entry s))"
proof -
  obtain h n where "drop_entry s = Some (s\<lparr>history := h, history_len := n\<rparr>)" "left_ok (s\<lparr>history := h, history_len := n\<rparr>)"
    using drop_entry_result [OF assms] .
  then show ?thesis by (simp add: key_steps_def tty_same_def files_same_def)
qed

text \<open>Enter: the line is complete; in multi line mode the cursor goes to its end first.\<close>

lemma enter_result:
  assumes "loop_ok s"
  obtains s' where "edit_key CR s = Some (Some (int (l_len s')), s')" "left_ok s'" "tty_same s s'"
    "fst (ed_text s') @ snd (ed_text s') = fst (ed_text s) @ snd (ed_text s)" "entries s' = butlast (entries s)"
proof -
  obtain h n where d: "drop_entry s = Some (s\<lparr>history := h, history_len := n\<rparr>)"
      "left_ok (s\<lparr>history := h, history_len := n\<rparr>)" "entries (s\<lparr>history := h, history_len := n\<rparr>) = butlast (entries s)"
    using drop_entry_result [OF assms] .
  let ?s = "s\<lparr>history := h, history_len := n\<rparr>"
  have t: "ed_text ?s = ed_text s" "tty_same s ?s" by (simp_all add: ed_text_def tty_same_def files_same_def)
  have ok: "ed_ok ?s" using d(2) by (simp add: left_ok_def)
  show thesis
  proof (cases "mlmode s")
    case False
    then show thesis using d t by (intro that [of ?s]) (simp_all add: edit_key_def)
  next
    case True
    obtain l r where lr: "ed_text ?s = (l, r)" by fastforce
    then obtain j where j: "holds ?s l r j" using ed_holds [OF ok] by auto
    obtain s' where s': "linenoiseEditMoveEnd ?s = Some s'" "ed_ok s'" "ed_text s' = (l @ r, [])" "same_env ?s s'"
      using end_edited [OF ok j] by (auto simp: edited_def)
    note e = same_env_sel [OF s'(4)]
    have "ed_text s = (l, r)" using lr t(1) by simp
    moreover have "left_ok s'" using d(2) s'(2) e(21) hist_frame(1) [OF e(2-4)] by (simp add: left_ok_def)
    moreover have "tty_same s s'" using e same_env_files [OF s'(4)] by (simp add: tty_same_def files_same_def)
    moreover have "entries s' = entries ?s" by (rule hist_frame(2) [OF e(2-4)])
    ultimately show thesis using d s' True by (intro that [of s']) (simp_all add: edit_key_def)
  qed
qed

lemma insert_result:
  assumes "loop_ok s"
  shows "key_steps s (map_option (\<lambda>(ok, s). (if ok then None else Some (-1), s)) (linenoiseEditInsert c s))"
proof -
  obtain s' where s': "map_option snd (linenoiseEditInsert c s) = Some s'" "loop_ok s'" "tty_same s s'"
    using steps_run [OF assms, of "Ins c"] by (auto simp: steps_def)
  then obtain b where "linenoiseEditInsert c s = Some (b, s')" by auto
  then show ?thesis using s'(2,3) loop_left by (simp add: key_steps_def)
qed

lemma key_steps_key:
  assumes "loop_ok s"
  shows "key_steps s (edit_key c s)"
proof -
  have u: "key_steps s (edit_key CTRL_U s)" and k: "key_steps s (edit_key CTRL_K s)" and l: "key_steps s (edit_key CTRL_L s)"
    using steps_run [OF assms, of Del_line] steps_run [OF assms, of Del_tail] steps_run [OF assms, of Redraw]
    by (auto simp: steps_def key_steps_def edit_key_def split: bind_splits)
  consider "c = CR" | "c = CTRL_C" | "c = CTRL_U" | "c = CTRL_K" | "c = CTRL_L" |
    "c \<notin> {CR, CTRL_C, CTRL_U, CTRL_K, CTRL_L}" by blast
  then show ?thesis
  proof cases
    case 1
    obtain s' where "edit_key CR s = Some (Some (int (l_len s')), s')" "left_ok s'" "tty_same s s'"
      using enter_result [OF assms] .
    then show ?thesis using 1 by (simp add: key_steps_def)
  next
    case 2
    have "left_ok (s\<lparr>os_errno := EAGAIN\<rparr>)" using loop_left [of "s\<lparr>os_errno := EAGAIN\<rparr>"] assms by simp
    then show ?thesis using 2 by (simp add: edit_key_def key_steps_def tty_same_def files_same_def)
  next
    case 6
    then show ?thesis
      unfolding edit_key_def using assms
      by (simp add: key_steps_on key_steps_drop insert_result steps_ops steps_history steps_esc)
  qed (use u k l in simp_all)
qed

section \<open>Completing\<close>

text \<open>A candidate is only looked at: it is drawn from an array of its own.\<close>

lemma show_candidate:
  assumes "loop_ok s" "i < length lc \<Longrightarrow> length (lc ! i) < l_buflen s"
  shows "steps s (show_completion lc i s)"
proof (cases "i < length lc")
  case False
  have "edited s (refreshLine s) (fst (ed_text s)) (snd (ed_text s))"
  proof -
    obtain j where j: "holds s (fst (ed_text s)) (snd (ed_text s)) j" using ed_holds assms(1) by (auto simp: loop_ok_def)
    then show ?thesis using assms(1) by (intro edited_refresh_eq [where j = j]) (auto simp: loop_ok_def holds_def)
  qed
  then show ?thesis using steps_edited [OF assms(1)] False by (simp add: show_completion_def)
next
  case True
  let ?t = "lc ! i"
  let ?s = "s\<lparr>l_len := length ?t, l_pos := length ?t, l_buf := ?t @ [EOS]\<rparr>"
  have ok: "ed_ok s" using assms(1) by (simp add: loop_ok_def)
  have "draw_ok ?s" using ok assms(2) True by (auto simp: ed_ok_def draw_ok_def)
  then obtain s1 where s1: "refreshLine ?s = Some s1" "redrawn ?s s1" using refreshLine_total by blast
  let ?r = "s1\<lparr>l_len := l_len s, l_pos := l_pos s, l_buf := l_buf s\<rparr>"
  have "ln_mem s1 = []" using no_oom.refresh_P [OF s1(1)] assms(1) by (simp add: loop_ok_def)
  moreover have "ed_ok ?r" using ok redrawn_sel [OF s1(2)] by (simp add: ed_ok_def)
  moreover have "completions ?r = completions s" using redrawn_sel [OF s1(2)] by (intro completions_cong) simp_all
  ultimately have "loop_ok ?r" using assms(1) redrawn_sel [OF s1(2)] by (simp add: loop_ok_def hist_is_def)
  moreover have "tty_same s ?r" using redrawn_sel [OF s1(2)] redrawn_files [OF s1(2)] by (simp add: tty_same_def files_same_def)
  ultimately show ?thesis using True s1(1) by (simp add: show_completion_def steps_def)
qed

lemma steps_beep: "loop_ok s \<Longrightarrow> loop_ok (linenoiseBeep s) \<and> tty_same s (linenoiseBeep s)"
proof -
  assume a: "loop_ok s"
  have r: "redrawn s (linenoiseBeep s)" by (simp add: linenoiseBeep_def)
  have "ln_mem (linenoiseBeep s) = []" using a by (simp add: linenoiseBeep_def no_oom.write_P loop_ok_def)
  moreover have "completions (linenoiseBeep s) = completions s" using redrawn_sel [OF r] by (intro completions_cong) simp_all
  ultimately have "loop_ok (linenoiseBeep s)"
    using a redrawn_sel [OF r] redrawn_ok [OF r] by (simp add: loop_ok_def hist_is_def)
  then show ?thesis using redrawn_tty [OF r] by simp
qed

lemma take_candidate:
  assumes "loop_ok s" "length t < l_buflen s"
  obtains b where "snprintf_s (l_buflen s) t (l_buf s) = Some b"
    "loop_ok (s\<lparr>l_buf := b, l_len := length t, l_pos := length t\<rparr>)"
    "ed_text (s\<lparr>l_buf := b, l_len := length t, l_pos := length t\<rparr>) = (t, [])"
proof
  let ?b = "t @ EOS # drop (length t + 1) (l_buf s)"
  let ?s = "s\<lparr>l_buf := ?b, l_len := length t, l_pos := length t\<rparr>"
  have len: "length (l_buf s) = l_buflen s + 1" using assms(1) by (simp add: loop_ok_def ed_ok_def)
  then show "snprintf_s (l_buflen s) t (l_buf s) = Some ?b" using assms(2) by (simp add: snprintf_s_def)
  have "completions ?s = completions s" by (rule completions_cong) simp_all
  moreover have "ed_ok ?s" using assms len by (auto simp: loop_ok_def ed_ok_def nth_append)
  ultimately show "loop_ok ?s" using assms(1) by (simp add: loop_ok_def hist_is_def)
  show "ed_text ?s = (t, [])" by (simp add: ed_text_def)
qed

definition candidate_steps :: "led \<Rightarrow> (byte option \<times> led) option \<Rightarrow> bool" where
  "candidate_steps s m \<longleftrightarrow> (\<exists>r s'. m = Some (r, s') \<and> loop_ok s' \<and> tty_same s s')"

lemma complete_other:
  assumes "show_completion lc i s = Some s1" "os_read (l_ifd s1) 1 s1 = (Inr (c # cs), s2)" "c \<noteq> TAB"
  shows "complete_loop lc i s =
      (if c = ESC then (if i < length lc then map_option (Pair (Some c)) (refreshLine s2) else Some (Some c, s2))
       else if i < length lc then do {
                    b \<leftarrow> snprintf_s (l_buflen s2) (lc ! i) (l_buf s2);
                    Some (Some c, s2\<lparr>l_buf := b, l_len := length (lc ! i), l_pos := length (lc ! i)\<rparr>) }
       else Some (Some c, s2))"
  unfolding complete_loop.simps [of lc i s] assms option.case prod.case sum.case list.case using assms(3) by simp

lemma complete_next:
  assumes "show_completion lc i s = Some s1" "os_read (l_ifd s1) 1 s1 = (Inr (TAB # cs), s2)"
  shows "complete_loop lc i s =
     (let j = (i + 1) mod (length lc + 1) in complete_loop lc j (if j = length lc then linenoiseBeep s2 else s2))"
  unfolding complete_loop.simps [of lc i s] assms option.case prod.case sum.case list.case by simp

lemma complete_error:
  assumes "show_completion lc i s = Some s1" "os_read (l_ifd s1) 1 s1 = (q, s2)" "\<forall>c cs. q \<noteq> Inr (c # cs)"
  shows "complete_loop lc i s = Some (None, s2)"
  unfolding complete_loop.simps [of lc i s] assms option.case prod.case using assms(3)
  by (auto split: sum.split list.split)

lemma complete_other_steps:
  assumes "loop_ok s2" "i < length lc \<Longrightarrow> length (lc ! i) < l_buflen s2"
  shows "candidate_steps s2
      (if c = ESC then (if i < length lc then map_option (Pair (Some c)) (refreshLine s2) else Some (Some c, s2))
       else if i < length lc then do {
                    b \<leftarrow> snprintf_s (l_buflen s2) (lc ! i) (l_buf s2);
                    Some (Some c, s2\<lparr>l_buf := b, l_len := length (lc ! i), l_pos := length (lc ! i)\<rparr>) }
       else Some (Some c, s2))"
proof (cases "i < length lc \<and> c \<noteq> ESC")
  case True
  then obtain b where "snprintf_s (l_buflen s2) (lc ! i) (l_buf s2) = Some b"
      "loop_ok (s2\<lparr>l_buf := b, l_len := length (lc ! i), l_pos := length (lc ! i)\<rparr>)"
    using take_candidate [OF assms(1), of "lc ! i"] assms(2) by blast
  then show ?thesis using True by (simp add: candidate_steps_def tty_same_def files_same_def)
next
  case False
  have "steps s2 (refreshLine s2)" using show_candidate [OF assms(1), of "length lc" lc] by (simp add: show_completion_def)
  then show ?thesis using False assms(1) by (auto simp: candidate_steps_def steps_def)
qed

lemma candidate_trans: "tty_same s t \<Longrightarrow> candidate_steps t m \<Longrightarrow> candidate_steps s m"
  using tty_same_trans unfolding candidate_steps_def by blast

lemma complete_loop_steps:
  "loop_ok s \<Longrightarrow> \<forall>c\<in>set lc. length c < l_buflen s \<Longrightarrow> candidate_steps s (complete_loop lc i s)"
proof (induction lc i s rule: complete_loop.induct)
  case (1 lc i s)
  have cand: "i < length lc \<Longrightarrow> length (lc ! i) < l_buflen s" using "1.prems"(2) by simp
  obtain s1 where s1: "show_completion lc i s = Some s1" "loop_ok s1" "tty_same s s1"
    using show_candidate [OF "1.prems"(1) cand] unfolding steps_def by blast
  obtain q s2 where rd: "os_read (l_ifd s1) 1 s1 = (q, s2)" by fastforce
  have s2: "loop_ok s2" "tty_same s1 s2" using loop_ok_read [OF rd s1(2)] by simp_all
  have t2: "tty_same s s2" using s1(3) s2(2) tty_same_trans by blast
  have lc: "\<forall>c\<in>set lc. length c < l_buflen s2" using "1.prems"(2) t2 by (simp add: tty_same_def)
  consider cs where "q = Inr (TAB # cs)" | c cs where "q = Inr (c # cs)" "c \<noteq> TAB" | "\<forall>c cs. q \<noteq> Inr (c # cs)" by blast
  then show ?case
  proof cases
    case (1 cs)
    let ?j = "(i + 1) mod (length lc + 1)"
    let ?s = "if ?j = length lc then linenoiseBeep s2 else s2"
    have s: "loop_ok ?s" "tty_same s2 ?s" using steps_beep [OF s2(1)] s2(1) by simp_all
    have "\<forall>c\<in>set lc. length c < l_buflen ?s" using lc s(2) by (simp add: tty_same_def)
    then have "candidate_steps ?s (complete_loop lc ?j ?s)"
      using "1.IH" [OF s1(1) rd [symmetric] 1 refl refl] s(1) by blast
    then show ?thesis
      unfolding complete_next [OF s1(1) rd [unfolded 1]] Let_def
      using candidate_trans [OF tty_same_trans [OF t2 s(2)]] by blast
  next
    case (2 c cs)
    show ?thesis
      unfolding complete_other [OF s1(1) rd [unfolded 2(1)] 2(2)]
      using lc by (intro candidate_trans [OF t2] complete_other_steps [OF s2(1)]) simp
  next
    case 3
    then show ?thesis using s2(1) t2 by (simp add: complete_error [OF s1(1) rd] candidate_steps_def)
  qed
qed

lemma completeLine_steps:
  assumes "loop_ok s" "completionCallback s \<noteq> No_cb"
  shows "candidate_steps s (completeLine s)"
proof -
  obtain t where t: "c_str (l_buf s) = Some t" using ed_c_str assms(1) by (auto simp: loop_ok_def)
  have m: "ln_mem s = []" "\<forall>c\<in>set (completions s t). length c < l_buflen s" using assms by (auto simp: loop_ok_def)
  show ?thesis
    using complete_loop_steps [OF assms(1) m(2), of 0] steps_beep [OF assms(1)]
    by (auto simp: completeLine_def t file_completion [OF m(1)] candidate_steps_def)
qed

section \<open>The loop\<close>

lemma edit_loop_ends:
  "loop_ok s \<Longrightarrow> \<exists>n s'. edit_loop s = Some (n, s') \<and> left_ok s' \<and> tty_same s s' \<and> (n = -1 \<or> n = int (l_len s'))"
proof (induction s rule: edit_loop.induct)
  case (1 s)
  obtain q s1 where rd: "os_read (l_ifd s) 1 s = (q, s1)" by fastforce
  have s1: "loop_ok s1" "tty_same s s1" using loop_ok_read [OF rd "1.prems"] by simp_all
  note step = edit_loop.simps [of s, unfolded rd, simplified prod.case]
  show ?case
  proof (cases "\<exists>c cs. q = Inr (c # cs)")
    case False
    then show ?thesis
      using s1 loop_left [of s1] loop_left [of "s1\<lparr>os_errno := EAGAIN\<rparr>"]
      by (cases q) (auto simp: step tty_same_def files_same_def split: list.split)
  next
    case True
    then obtain c cs where q: "q = Inr (c # cs)" by blast
    let ?tab = "c = TAB \<and> completionCallback s1 \<noteq> No_cb"
    let ?m = "if ?tab then completeLine s1 else Some (Some c, s1)"
    have "candidate_steps s1 ?m" using completeLine_steps [OF s1(1)] s1(1) by (simp add: candidate_steps_def)
    then obtain r s2 where r: "?m = Some (r, s2)" "loop_ok s2" "tty_same s1 s2" by (auto simp: candidate_steps_def)
    have t2: "tty_same s s2" using tty_same_trans [OF s1(2) r(3)] .
    note step2 = step [unfolded q, simplified sum.case list.case Let_def r(1) option.case prod.case]
    show ?thesis
    proof (cases r)
      case None
      then show ?thesis using r(2) t2 loop_left [OF r(2)] by (simp add: step2)
    next
      case (Some d)
      note step3 = step2 [unfolded Some, simplified option.case]
      consider "?tab \<and> 128 \<le> byte_val d" | "\<not> (?tab \<and> 128 \<le> byte_val d)" "?tab \<and> d = EOS"
        | "\<not> (?tab \<and> 128 \<le> byte_val d)" "\<not> (?tab \<and> d = EOS)" by blast
      then show ?thesis
      proof cases
        case 1
        then show ?thesis using r(2) t2 loop_left [OF r(2)] by (simp add: step3)
      next
        case 2
        have "\<exists>n s'. edit_loop s2 = Some (n, s') \<and> left_ok s' \<and> tty_same s2 s' \<and> (n = -1 \<or> n = int (l_len s'))"
          using "1.IH"(1) [OF rd [symmetric] q refl refl r(1) refl Some] 2 r(2) by blast
        then show ?thesis using 2 tty_same_trans [OF t2] by (auto simp: step3)
      next
        case 3
        obtain k s3 where k: "edit_key d s2 = Some (k, s3)" "tty_same s2 s3"
            "case k of None \<Rightarrow> loop_ok s3 | Some n \<Rightarrow> left_ok s3 \<and> (n = -1 \<or> n = int (l_len s3))"
          using key_steps_key [OF r(2), of d] by (auto simp: key_steps_def)
        have t3: "tty_same s s3" using tty_same_trans [OF t2 k(2)] .
        have e: "edit_loop s = (case k of None \<Rightarrow> edit_loop s3 | Some r \<Rightarrow> Some (r, s3))"
          using 3 by (cases k) (auto simp: step3 k(1))
        show ?thesis
        proof (cases k)
          case (Some n)
          then show ?thesis using k(3) t3 by (simp add: e)
        next
          case None
          have "\<exists>n s'. edit_loop s3 = Some (n, s') \<and> left_ok s' \<and> tty_same s3 s' \<and> (n = -1 \<or> n = int (l_len s'))"
            using "1.IH"(2) [OF rd [symmetric] q refl refl r(1) refl Some] 3 k(1,3) None by auto
          then show ?thesis using None tty_same_trans [OF t3] by (auto simp: e)
        qed
      qed
    qed
  qed
qed

end
