(* ===== verification/Line_Read.thy ===== *)
theory Line_Read
  imports Line_Props
begin

text \<open>
  \<^verbatim>\<open>linenoise\<close> as its callers see it: whatever the input, it returns and leaves the history in order and
  the terminal as it was; a line typed with editing keys is the line the keys describe.
\<close>

section \<open>Around the loop\<close>

text \<open>
  The terminal is wide enough for the prompt, in the range a window has; completions fit the buffer.
\<close>

definition wide :: "string \<Rightarrow> 'a ln_scheme \<Rightarrow> bool" where
  "wide prompt s \<longleftrightarrow> (\<exists>w. ln_winsz s = Some w \<and> length prompt < w \<and> w < 2 ^ 16)"

definition short_completions :: "'a ln_scheme \<Rightarrow> bool" where
  "short_completions s \<longleftrightarrow>
     (completionCallback s \<noteq> No_cb \<longrightarrow> (\<forall>t. \<forall>c\<in>set (completions s t). length c < LINENOISE_MAX_LINE - 1))"

lemma add_entry_ne: "add_entry mx t es \<noteq> []"
  by (simp add: add_entry_def)

text \<open>The state \<^verbatim>\<open>linenoiseEdit\<close> starts its loop in.\<close>

definition start :: "int \<Rightarrow> int \<Rightarrow> byte list \<Rightarrow> nat \<Rightarrow> string \<Rightarrow> int \<Rightarrow> ln \<Rightarrow> led" where
  "start fdi fdo buf buflen prompt cols s = ln.extend s
     \<lparr>l_ifd = fdi, l_ofd = fdo, l_buf = buf, l_buflen = buflen - 1, l_prompt = prompt,
      l_plen = length prompt, l_pos = 0, l_oldpos = 0, l_len = 0, l_cols = word_of_int cols,
      l_maxrows = 0, l_history_index = 0\<rparr>"

lemma start_sel:
  "l_ifd (start fdi fdo b n p c s) = fdi" "l_ofd (start fdi fdo b n p c s) = fdo" "l_buf (start fdi fdo b n p c s) = b"
  "l_buflen (start fdi fdo b n p c s) = n - 1" "l_prompt (start fdi fdo b n p c s) = p" "l_pos (start fdi fdo b n p c s) = 0"
  "l_len (start fdi fdo b n p c s) = 0" "l_cols (start fdi fdo b n p c s) = word_of_int c"
  "l_history_index (start fdi fdo b n p c s) = 0" "ln_mem (start fdi fdo b n p c s) = ln_mem s"
  "history (start fdi fdo b n p c s) = history s" "history_len (start fdi fdo b n p c s) = history_len s"
  "history_max_len (start fdi fdo b n p c s) = history_max_len s"
  "completionCallback (start fdi fdo b n p c s) = completionCallback s" "ln_dir (start fdi fdo b n p c s) = ln_dir s"
  "ln_stat (start fdi fdo b n p c s) = ln_stat s" "mlmode (start fdi fdo b n p c s) = mlmode s"
  "os_in (start fdi fdo b n p c s) = os_in s" "os_wres (start fdi fdo b n p c s) = os_wres s"
  "os_fd (start fdi fdo b n p c s) = os_fd s" "os_faults (start fdi fdo b n p c s) = os_faults s"
  "os_dev (start fdi fdo b n p c s) = os_dev s" "os_drv (start fdi fdo b n p c s) = os_drv s"
  "orig_termios (start fdi fdo b n p c s) = orig_termios s" "rawmode (start fdi fdo b n p c s) = rawmode s"
  by (simp_all add: start_def ln.extend_def)

lemma start_loop_ok:
  assumes "hist_is es rest s" "es \<noteq> []" "ln_mem s = []" "length buf = LINENOISE_MAX_LINE" "buf ! 0 = EOS"
    and "length prompt < w" "w < 2 ^ 16" "short_completions s"
  shows "loop_ok (start fdi fdo buf LINENOISE_MAX_LINE prompt (int w) s)"
proof -
  let ?s = "start fdi fdo buf LINENOISE_MAX_LINE prompt (int w) s"
  have w: "unat (of_nat w :: 64 word) = w" using assms(7) by (simp add: unat_of_nat)
  have "int_of_size (of_nat w) = int w" using assms(7) by (intro int_of_size_nat) simp
  moreover have "(of_nat w :: 64 word) \<noteq> 0" using w assms(6) by auto
  ultimately have "ed_ok ?s" using assms(4-7) w by (simp add: ed_ok_def start_sel LINENOISE_MAX_LINE_def)
  moreover have "completions ?s = completions s" by (rule completions_cong) (simp_all add: start_sel)
  moreover have "hist_is es rest ?s" using assms(1) by (simp add: hist_is_def start_sel)
  ultimately show ?thesis
    using assms(2,3,8) by (auto simp: loop_ok_def start_sel short_completions_def LINENOISE_MAX_LINE_def)
qed

lemma extend_truncate_sel:
  "ln_mem (ln.truncate l) = ln_mem l" "history (ln.truncate l) = history l" "history_len (ln.truncate l) = history_len l"
  "history_max_len (ln.truncate l) = history_max_len l" "os_fd (ln.truncate l) = os_fd l" "os_faults (ln.truncate l) = os_faults l"
  "os_dev (ln.truncate l) = os_dev l" "os_drv (ln.truncate l) = os_drv l" "orig_termios (ln.truncate l) = orig_termios l"
  "rawmode (ln.truncate l) = rawmode l"
  by (simp_all add: ln.truncate_def)

section \<open>Frames\<close>

text \<open>What reading and writing leave alone.\<close>

definition lib_same :: "ln \<Rightarrow> ln \<Rightarrow> bool" where
  "lib_same s s' \<longleftrightarrow>
     history s' = history s \<and> history_len s' = history_len s \<and> history_max_len s' = history_max_len s \<and>
     ln_mem s' = ln_mem s \<and> ln_winsz s' = ln_winsz s \<and> completionCallback s' = completionCallback s \<and>
     ln_dir s' = ln_dir s \<and> ln_stat s' = ln_stat s \<and> mlmode s' = mlmode s \<and> ln_junk s' = ln_junk s \<and>
     ln_env s' = ln_env s \<and> files_same s s'"

definition dev_same :: "ln \<Rightarrow> ln \<Rightarrow> bool" where
  "dev_same s s' \<longleftrightarrow>
     os_fd s' = os_fd s \<and> os_faults s' = os_faults s \<and> os_dev s' = os_dev s \<and> os_drv s' = os_drv s \<and>
     orig_termios s' = orig_termios s \<and> rawmode s' = rawmode s"

lemma same_trans:
  "lib_same s t \<Longrightarrow> lib_same t u \<Longrightarrow> lib_same s u" "dev_same s t \<Longrightarrow> dev_same t u \<Longrightarrow> dev_same s u"
  by (simp_all add: lib_same_def dev_same_def files_same_def)

lemma lib_same_hist: "lib_same s s' \<Longrightarrow> hist_ok s' = hist_ok s" "lib_same s s' \<Longrightarrow> entries s' = entries s"
  by (rule hist_frame; simp add: lib_same_def)+

lemma write_same: "lib_same s (snd (os_write fd bs s))" "dev_same s (snd (os_write fd bs s))"
  by (simp_all add: lib_same_def dev_same_def files_same_def os_write_def os_put_def Let_def split: list.split)

lemma fgets_result:
  "fgets_stdin n acc s = (r, s') \<Longrightarrow>
     lib_same s s' \<and> dev_same s s' \<and> (case r of None \<Rightarrow> True | Some b \<Rightarrow> length b \<le> length acc + n)"
proof (induction n acc s rule: fgets_stdin.induct)
  case (1 n acc s)
  have rd: "lib_same s s1 \<and> dev_same s s1" if "os_read STI STDIO_BLOCK s = (q, s1)" for q s1
    using that by (auto simp: os_read_def lib_same_def dev_same_def files_same_def split: list.splits rd.splits)
  have ln: "lib_same t (t\<lparr>ln_stdin := x\<rparr>) \<and> dev_same t (t\<lparr>ln_stdin := x\<rparr>)" for x and t :: ln
    by (simp add: lib_same_def dev_same_def files_same_def)
  have same: "lib_same s s \<and> dev_same s s" by (simp add: lib_same_def dev_same_def)
  show ?case
  proof (cases "n = 0")
    case True
    then show ?thesis using "1.prems" same by (subst (asm) fgets_stdin.simps) auto
  next
    case n: False
    show ?thesis
    proof (cases "ln_stdin s")
      case (Cons c cs)
      note e = "1.prems" [unfolded fgets_stdin.simps [of n acc s], unfolded Cons, simplified n if_False list.case Let_def]
      show ?thesis
      proof (cases "c = LF")
        case True
        then show ?thesis using e ln [of s cs] n by auto
      next
        case False
        then have f: "fgets_stdin (n - 1) (acc @ [c]) (s\<lparr>ln_stdin := cs\<rparr>) = (r, s')" using e by simp
        have "length (acc @ [c]) + (n - 1) = length acc + n" using n by simp
        then show ?thesis
          using "1.IH"(2) [OF n Cons refl False f] ln [of s cs] same_trans by metis
      qed
    next
      case Nil
      obtain q s1 where r: "os_read STI STDIO_BLOCK s = (q, s1)" by fastforce
      note e = "1.prems" [unfolded fgets_stdin.simps [of n acc s], unfolded Nil r, simplified n if_False list.case prod.case]
      show ?thesis
      proof (cases "\<exists>b bs. q = Inr (b # bs)")
        case True
        then obtain b bs where q: "q = Inr (b # bs)" by blast
        then have f: "fgets_stdin n acc (s1\<lparr>ln_stdin := b # bs\<rparr>) = (r, s')" using e by simp
        show ?thesis
          using "1.IH"(1) [OF n Nil r [symmetric] q refl f] rd [OF r] ln [of s1 "b # bs"] same_trans by metis
      next
        case False
        then show ?thesis using e rd [OF r] by (cases q) (auto split: list.splits if_splits)
      qed
    qed
  qed
qed

lemma dev_same_start: "dev_same s (ln.truncate (start fdi fdo b n p c s))"
  by (simp add: dev_same_def extend_truncate_sel start_sel)

section \<open>The result of an edit\<close>

lemma wide_columns: "ln_winsz s = Some w \<Longrightarrow> 0 < w \<Longrightarrow> getColumns fdi fdo s = (int w, s)"
  by (cases w) (simp_all add: getColumns_def)

lemma left_text:
  assumes "left_ok l" "l_buflen l = LINENOISE_MAX_LINE - 1"
  shows "c_str (l_buf l) = Some (cstring (fst (ed_text l) @ snd (ed_text l)))"
    "length (cstring (fst (ed_text l) @ snd (ed_text l))) < LINENOISE_MAX_LINE"
proof -
  have ok: "ed_ok l" using assms(1) by (simp add: left_ok_def)
  show "c_str (l_buf l) = Some (cstring (fst (ed_text l) @ snd (ed_text l)))" by (rule ed_c_str [OF ok])
  have "l_len l < LINENOISE_MAX_LINE" "l_pos l \<le> l_len l" using ok assms(2) by (simp_all add: ed_ok_def LINENOISE_MAX_LINE_def)
  then have "length (fst (ed_text l) @ snd (ed_text l)) < LINENOISE_MAX_LINE" by (simp add: ed_text_def)
  moreover have "length (cstring (fst (ed_text l) @ snd (ed_text l))) \<le> length (fst (ed_text l) @ snd (ed_text l))"
    unfolding cstring_def by (rule length_takeWhile_le)
  ultimately show "length (cstring (fst (ed_text l) @ snd (ed_text l))) < LINENOISE_MAX_LINE" by (rule le_less_trans [rotated])
qed

text \<open>A line: a string of less than the size of the buffer.\<close>

definition line_ok :: "string \<Rightarrow> bool" where
  "line_ok t \<longleftrightarrow> length t < LINENOISE_MAX_LINE \<and> EOS \<notin> set t"

text \<open>The call up to the loop: the temporary entry is added, the prompt written.\<close>

lemma edit_start:
  assumes "hist_ok s" "ln_mem s = []" "wide prompt s" "short_completions s" "length buf = LINENOISE_MAX_LINE"
  obtains s1 cols where "lib_same (s\<lparr>history := history s1, history_len := history_len s1\<rparr>) s1" "dev_same s s1" "hist_ok s1"
    "entries s1 = add_entry (nat (history_max_len s)) [] (entries s)" "os_in s1 = os_in s" "os_wres s = [] \<Longrightarrow> os_wres s1 = []"
    "linenoiseEdit STI STO buf LINENOISE_MAX_LINE prompt s =
       (if os_wres s \<noteq> [] \<and> hd (os_wres s) < 0 then Some (-1, buf[0 := EOS], s1)
        else map_option (\<lambda>(n, l). (n, l_buf l, ln.truncate l)) (edit_loop (start STI STO (buf[0 := EOS]) LINENOISE_MAX_LINE prompt cols s1)))"
    "loop_ok (start STI STO (buf[0 := EOS]) LINENOISE_MAX_LINE prompt cols s1)"
proof -
  obtain w where w: "ln_winsz s = Some w" "length prompt < w" "w < 2 ^ 16" using assms(3) by (auto simp: wide_def)
  have c: "getColumns STI STO s = (int w, s)" using w(1,2) by (intro wide_columns) simp_all
  have p: "poke 0 EOS buf = Some (buf[0 := EOS])" using assms(5) by (simp add: poke_def LINENOISE_MAX_LINE_def)
  obtain h n where a: "linenoiseHistoryAdd [] s = Some (\<not> (entries s \<noteq> [] \<and> last (entries s) = []), s\<lparr>history := Some h, history_len := n\<rparr>)"
      "hist_ok (s\<lparr>history := Some h, history_len := n\<rparr>)"
      "entries (s\<lparr>history := Some h, history_len := n\<rparr>) = add_entry (nat (history_max_len s)) [] (entries s)"
    by (rule history_add [OF assms(1,2), of "[]"]) simp
  let ?s = "s\<lparr>history := Some h, history_len := n\<rparr>"
  let ?s1 = "snd (os_write STO prompt ?s)"
  let ?l = "start STI STO (buf[0 := EOS]) LINENOISE_MAX_LINE prompt (int w) ?s1"
  have wl: "lib_same ?s ?s1" by (rule write_same)
  have wd: "dev_same ?s ?s1" by (rule write_same)
  have e: "entries ?s1 = add_entry (nat (history_max_len s)) [] (entries s)" "hist_ok ?s1"
    using a(2,3) lib_same_hist [OF wl] by simp_all
  have "history ?s1 = Some h" using wl by (simp add: lib_same_def)
  then obtain rest where r: "hist_is (entries ?s1) rest ?s1" using hist_isI [OF e(2)] by blast
  have sc: "short_completions ?s1"
  proof -
    have "completions ?s1 = completions s" using wl by (intro completions_cong) (simp_all add: lib_same_def)
    then show ?thesis using assms(4) wl by (simp add: short_completions_def lib_same_def)
  qed
  have ok: "loop_ok ?l"
    using wl e(1) assms(2,5) w sc by (intro start_loop_ok [OF r])
      (simp_all add: add_entry_ne lib_same_def LINENOISE_MAX_LINE_def)
  have "fst (os_write STO prompt ?s) = -1 \<longleftrightarrow> os_wres s \<noteq> [] \<and> hd (os_wres s) < 0"
    by (auto simp: os_write_def Let_def split: list.split)
  then have "linenoiseEdit STI STO buf LINENOISE_MAX_LINE prompt s =
       (if os_wres s \<noteq> [] \<and> hd (os_wres s) < 0 then Some (-1, buf[0 := EOS], ?s1)
        else map_option (\<lambda>(n, l). (n, l_buf l, ln.truncate l)) (edit_loop ?l))"
    unfolding linenoiseEdit_def c prod.case p a(1) Option.bind.bind_lunit start_def
    by (simp add: case_prod_unfold LINENOISE_MAX_LINE_def map_option_case split: option.split)
  moreover have "lib_same (s\<lparr>history := history ?s1, history_len := history_len ?s1\<rparr>) ?s1"
    using wl by (simp add: lib_same_def files_same_def)
  moreover have "dev_same s ?s1" using wd by (simp add: dev_same_def)
  moreover have "os_in ?s1 = os_in s" "os_wres s = [] \<Longrightarrow> os_wres ?s1 = []"
    by (simp_all add: os_write_def os_put_def Let_def split: list.split)
  ultimately show thesis using ok e by (intro that) assumption+
qed

lemma edit_result:
  assumes "hist_ok s" "ln_mem s = []" "wide prompt s" "short_completions s" "length buf = LINENOISE_MAX_LINE"
  obtains n b s' where "linenoiseEdit STI STO buf LINENOISE_MAX_LINE prompt s = Some (n, b, s')"
    "hist_ok s'" "ln_mem s' = []" "dev_same s s'" "n \<noteq> -1 \<Longrightarrow> \<exists>t. c_str b = Some t \<and> line_ok t"
proof -
  obtain s1 cols where s1: "lib_same (s\<lparr>history := history s1, history_len := history_len s1\<rparr>) s1" "dev_same s s1" "hist_ok s1"
    "linenoiseEdit STI STO buf LINENOISE_MAX_LINE prompt s =
       (if os_wres s \<noteq> [] \<and> hd (os_wres s) < 0 then Some (-1, buf[0 := EOS], s1)
        else map_option (\<lambda>(n, l). (n, l_buf l, ln.truncate l)) (edit_loop (start STI STO (buf[0 := EOS]) LINENOISE_MAX_LINE prompt cols s1)))"
    "loop_ok (start STI STO (buf[0 := EOS]) LINENOISE_MAX_LINE prompt cols s1)"
    using edit_start [OF assms] .
  let ?l = "start STI STO (buf[0 := EOS]) LINENOISE_MAX_LINE prompt cols s1"
  obtain n l where l: "edit_loop ?l = Some (n, l)" "left_ok l" "tty_same ?l l" using edit_loop_ends [OF s1(5)] by blast
  have m: "ln_mem s1 = []" using s1(1) assms(2) by (simp add: lib_same_def)
  show thesis
  proof (cases "os_wres s \<noteq> [] \<and> hd (os_wres s) < 0")
    case True
    then show thesis using s1 m by (intro that [of "-1" "buf[0 := EOS]" s1]) simp_all
  next
    case False
    have t: "l_buflen l = LINENOISE_MAX_LINE - 1" "dev_same s1 (ln.truncate l)"
      using l(3) by (simp_all add: tty_same_def dev_same_def start_sel extend_truncate_sel)
    have "hist_ok (ln.truncate l) = hist_ok l" by (rule hist_frame) (simp_all add: extend_truncate_sel)
    then have "hist_ok (ln.truncate l)" using l(2) by (simp add: left_ok_def)
    moreover have "ln_mem (ln.truncate l) = []" using l(2) by (simp add: left_ok_def extend_truncate_sel)
    moreover have "line_ok (cstring (fst (ed_text l) @ snd (ed_text l)))"
      using left_text [OF l(2) t(1)] by (auto simp: line_ok_def cstring_def dest: set_takeWhileD)
    moreover have "linenoiseEdit STI STO buf LINENOISE_MAX_LINE prompt s = Some (n, l_buf l, ln.truncate l)"
      unfolding s1(4) using False l(1) by (simp only: if_False) simp
    ultimately show thesis
      using left_text [OF l(2) t(1)] same_trans(2) [OF s1(2) t(2)]
      by (intro that [of n "l_buf l" "ln.truncate l"]) simp_all
  qed
qed

section \<open>Raw mode\<close>

lemma cond_frame:
  assumes "lib_same s s'"
  shows "wide prompt s' = wide prompt s" "short_completions s' = short_completions s"
proof -
  have "completions s' = completions s" using assms by (intro completions_cong) (simp_all add: lib_same_def)
  then show "wide prompt s' = wide prompt s" "short_completions s' = short_completions s"
    using assms by (simp_all add: wide_def short_completions_def lib_same_def)
qed

lemma attr_same:
  "tc2getattr fd s = (r, s') \<Longrightarrow> lib_same s s'" "tc2setattr fd when t s = (ok, s') \<Longrightarrow> lib_same s s'"
  by (auto simp: tc2getattr_def tc2setattr_def tty_call_def syscall_def setattr_act_def lib_same_def files_same_def
      event_def upd_dev_def split: if_splits prod.splits option.splits list.splits bool.splits)

lemma lib_same_upd:
  "lib_same s (s1\<lparr>os_errno := e\<rparr>) = lib_same s s1" "lib_same s (s1\<lparr>rawmode := r\<rparr>) = lib_same s s1"
  "lib_same (s\<lparr>orig_termios := t\<rparr>) s1 = lib_same s s1" "lib_same (s\<lparr>atexit_registered := x\<rparr>) s1 = lib_same s s1" "lib_same s s"
  by (simp_all add: lib_same_def files_same_def)

lemma enable_same: "enableRawMode fd s = (ok, s') \<Longrightarrow> lib_same s s'"
  unfolding enableRawMode_def Let_def
  by (auto simp: lib_same_upd split: if_splits prod.splits option.splits bool.splits dest!: attr_same)
     (auto intro: same_trans)

lemma disable_same: "lib_same s (disableRawMode fd s)"
  by (auto simp: disableRawMode_def lib_same_upd split: prod.split bool.split dest!: attr_same)

text \<open>The descriptor's terminal, and that its driver takes the settings it has as they are.\<close>

definition tty_on :: "int \<Rightarrow> nat \<Rightarrow> ln \<Rightarrow> bool" where
  "tty_on fd d s \<longleftrightarrow>
     os_fd s fd = Some d \<and> os_faults s = [] \<and>
     os_drv s d (to_termios2 (of_termios2 (dv_tio (os_dev s d)))) = dv_tio (os_dev s d)"

lemma enable_ok:
  assumes "tty_on STI d s"
  obtains s1 v where "enableRawMode STI s = (True, s1)" "rawmode s1" "orig_termios s1 = of_termios2 (dv_tio (os_dev s d))"
    "os_fd s1 = os_fd s" "os_faults s1 = []" "os_drv s1 = os_drv s" "os_in s1 = os_in s" "os_wres s1 = os_wres s"
    "os_dev s1 = (os_dev s)(d := (os_dev s d)\<lparr>dv_tio := v\<rparr>)"
proof -
  let ?t = "of_termios2 (dv_tio (os_dev s d))"
  let ?s = "s\<lparr>atexit_registered := True, orig_termios := ?t\<rparr>"
  let ?s1 = "(setattr_act STI TCSAFLUSH (raw_of ?t) d ?s)\<lparr>rawmode := True\<rparr>"
  have "enableRawMode STI s = (True, ?s1)"
    using assms by (simp add: enableRawMode_def tty_on_def isatty_def tc2getattr_def tc2setattr_def tty_call_def syscall_def)
  then show thesis
    by (rule that) (simp_all add: setattr_act_def event_def upd_dev_def assms [unfolded tty_on_def])
qed

lemma disable_restores:
  assumes "rawmode s1" "orig_termios s1 = of_termios2 (dv_tio (os_dev s d))" "os_fd s1 = os_fd s" "os_faults s1 = []"
    "os_drv s1 = os_drv s" "os_dev s1 = (os_dev s)(d := (os_dev s d)\<lparr>dv_tio := v\<rparr>)" "tty_on STI d s"
  shows "os_dev (disableRawMode STI s1) = os_dev s" "\<not> rawmode (disableRawMode STI s1)"
  using assms
  by (simp_all add: disableRawMode_def tc2setattr_def tty_call_def syscall_def tty_on_def setattr_act_def event_def upd_dev_def)

section \<open>Reading a line\<close>

text \<open>What the callers may rely on.\<close>

definition returns :: "string \<Rightarrow> ln \<Rightarrow> bool" where
  "returns prompt s \<longleftrightarrow>
     (\<exists>r s'. linenoise prompt s = Some (r, s') \<and> hist_ok s' \<and> ln_mem s' = [] \<and>
        (case r of None \<Rightarrow> True | Some t \<Rightarrow> line_ok t) \<and>
        (\<forall>d. tty_on STI d s \<longrightarrow> os_dev s' = os_dev s \<and> (\<not> rawmode s \<longrightarrow> \<not> rawmode s')))"

lemma c_str_line: "EOS \<notin> set l \<Longrightarrow> c_str (l @ [EOS]) = Some l"
  using cstring_take [of l "[]"] by (simp add: c_str_def)

lemma raw_result:
  assumes "hist_ok s" "ln_mem s = []" "wide prompt s" "short_completions s" "length buf = LINENOISE_MAX_LINE"
  obtains n b s' where "linenoiseRaw buf LINENOISE_MAX_LINE prompt s = Some (n, b, s')" "hist_ok s'" "ln_mem s' = []"
    "n \<noteq> -1 \<Longrightarrow> \<exists>t. c_str b = Some t \<and> line_ok t"
    "\<And>d. tty_on STI d s \<Longrightarrow> os_dev s' = os_dev s \<and> (\<not> rawmode s \<longrightarrow> \<not> rawmode s')"
proof (cases "isatty STI s")
  case False
  obtain q s1 where f: "fgets_stdin (LINENOISE_MAX_LINE - 1) [] s = (q, s1)" by fastforce
  have k: "lib_same s s1" "dev_same s s1" "case q of None \<Rightarrow> True | Some b \<Rightarrow> length b \<le> LINENOISE_MAX_LINE - 1"
    using fgets_result [OF f] unfolding list.size add_0 by blast+
  have h: "hist_ok s1" "ln_mem s1 = []" "os_dev s1 = os_dev s" "rawmode s1 = rawmode s"
    using k(1,2) lib_same_hist [OF k(1)] assms(1,2) by (simp_all add: lib_same_def dev_same_def)
  have z: "LINENOISE_MAX_LINE \<noteq> 0" by (simp add: LINENOISE_MAX_LINE_def)
  show thesis
  proof (cases q)
    case None
    then show thesis using h False z f by (intro that [of "-1" buf s1]) (simp_all add: linenoiseRaw_def)
  next
    case (Some b)
    define t where "t = (let l = cstring b in if l \<noteq> [] \<and> last l = LF then butlast l else l)"
    have "EOS \<notin> set (cstring b)" "length (cstring b) \<le> length b"
      by (auto simp: cstring_def length_takeWhile_le dest: set_takeWhileD)
    then have t: "line_ok t" using k(3) Some
      by (auto simp: line_ok_def t_def Let_def LINENOISE_MAX_LINE_def dest: in_set_butlastD)
    then have "c_str (t @ [EOS]) = Some t" by (intro c_str_line) (simp add: line_ok_def)
    then show thesis using h False t Some z f by (intro that [of "int (length t)" "t @ [EOS]" s1]) (simp_all add: linenoiseRaw_def t_def Let_def)
  qed
next
  case True
  obtain ok s1 where e: "enableRawMode STI s = (ok, s1)" by fastforce
  have k: "lib_same s s1" using enable_same [OF e] .
  have h: "hist_ok s1" "ln_mem s1 = []" using k lib_same_hist [OF k] assms(1,2) by (simp_all add: lib_same_def)
  have z: "LINENOISE_MAX_LINE \<noteq> 0" by (simp add: LINENOISE_MAX_LINE_def)
  show thesis
  proof (cases ok)
    case False
    have "\<not> tty_on STI d s" for d using enable_ok [of d s] e False by (metis prod.inject)
    then show thesis using h True False z e by (intro that [of "-1" buf s1]) (simp_all add: linenoiseRaw_def)
  next
    case ok: True
    obtain n b s2 where ed: "linenoiseEdit STI STO buf LINENOISE_MAX_LINE prompt s1 = Some (n, b, s2)"
        "hist_ok s2" "ln_mem s2 = []" "dev_same s1 s2" "n \<noteq> -1 \<Longrightarrow> \<exists>t. c_str b = Some t \<and> line_ok t"
      using edit_result [OF h _ _ assms(5)] cond_frame [OF k] assms(3,4) by metis
    let ?s3 = "disableRawMode STI s2" and ?s4 = "snd (os_write STO [LF] (disableRawMode STI s2))"
    have k3: "lib_same s2 ?s4" using same_trans(1) [OF disable_same write_same(1)] .
    have h4: "hist_ok ?s4" "ln_mem ?s4 = []" using k3 lib_same_hist [OF k3] ed(2,3) by (simp_all add: lib_same_def)
    have "os_dev ?s4 = os_dev s \<and> (\<not> rawmode s \<longrightarrow> \<not> rawmode ?s4)" if tty: "tty_on STI d s" for d
    proof -
      obtain s1' v where v: "enableRawMode STI s = (True, s1')" "rawmode s1'" "orig_termios s1' = of_termios2 (dv_tio (os_dev s d))"
        "os_fd s1' = os_fd s" "os_faults s1' = []" "os_drv s1' = os_drv s"
        "os_dev s1' = (os_dev s)(d := (os_dev s d)\<lparr>dv_tio := v\<rparr>)"
        using enable_ok [OF tty] .
      have s1: "s1' = s1" using v(1) e by simp
      note d = ed(4) [unfolded dev_same_def]
      have "os_dev ?s3 = os_dev s" "\<not> rawmode ?s3" using v d tty
        by (intro disable_restores [where s = s and d = d and v = v]; simp add: s1)+
      then show ?thesis using write_same(2) [of ?s3 STO "[LF]"] by (simp add: dev_same_def)
    qed
    moreover have "linenoiseRaw buf LINENOISE_MAX_LINE prompt s = Some (n, b, ?s4)"
      using True z e ok ed(1) by (simp add: linenoiseRaw_def)
    ultimately show thesis using h4 ed(5) by (intro that [of n b ?s4]) simp_all
  qed
qed

lemma linenoise_result:
  assumes "hist_ok s" "ln_mem s = []" "wide prompt s" "short_completions s"
  shows "returns prompt s"
proof (cases "isUnsupportedTerm s")
  case True
  let ?s = "snd (os_write STO prompt s)"
  obtain q s1 where f: "fgets_stdin (LINENOISE_MAX_LINE - 1) [] ?s = (q, s1)" by fastforce
  have r: "lib_same ?s s1" "dev_same ?s s1" "case q of None \<Rightarrow> True | Some b \<Rightarrow> length b \<le> LINENOISE_MAX_LINE - 1"
    using fgets_result [OF f] unfolding list.size add_0 by blast+
  have k: "lib_same s s1" "dev_same s s1" using same_trans write_same r(1,2) by blast+
  have h: "hist_ok s1" "ln_mem s1 = []" "os_dev s1 = os_dev s" "rawmode s1 = rawmode s"
    using k lib_same_hist [OF k(1)] assms(1,2) by (simp_all add: lib_same_def dev_same_def)
  have "line_ok (strip_eol (cstring b))" if "q = Some b" for b
  proof -
    have "set (strip_eol t) \<subseteq> set t" "length (strip_eol t) \<le> length t" for t
      by (auto simp: strip_eol_def length_dropWhile_le dest: set_dropWhileD) (metis length_dropWhile_le length_rev)
    moreover have "EOS \<notin> set (cstring b)" "length (cstring b) \<le> length b"
      by (auto simp: cstring_def length_takeWhile_le dest: set_takeWhileD)
    moreover have "length b < LINENOISE_MAX_LINE" using r(3) that by (simp add: LINENOISE_MAX_LINE_def)
    ultimately show ?thesis by (meson le_less_trans line_ok_def subsetD)
  qed
  then show ?thesis using True h
    by (cases q) (simp_all add: returns_def linenoise_def f dup_line_def alloc_def del: One_nat_def)
next
  case False
  have len: "length (map (ln_junk s) [0..<LINENOISE_MAX_LINE]) = LINENOISE_MAX_LINE" by simp
  obtain n b s' where "linenoiseRaw (map (ln_junk s) [0..<LINENOISE_MAX_LINE]) LINENOISE_MAX_LINE prompt s = Some (n, b, s')"
    "hist_ok s'" "ln_mem s' = []" "n \<noteq> -1 \<Longrightarrow> \<exists>t. c_str b = Some t \<and> line_ok t"
    "\<And>d. tty_on STI d s \<Longrightarrow> os_dev s' = os_dev s \<and> (\<not> rawmode s \<longrightarrow> \<not> rawmode s')"
    by (rule raw_result [OF assms len], rule that)
  then show ?thesis using False
    by (cases "n = -1") (auto simp: returns_def linenoise_def dup_line_def alloc_def)
qed

section \<open>Typing\<close>

text \<open>The bytes that come next, in any portions.\<close>

definition comes :: "byte list \<Rightarrow> int \<Rightarrow> 'a os_scheme \<Rightarrow> bool" where
  "comes bs fd s \<longleftrightarrow> (\<exists>chunks rest. os_in s fd = map RdData chunks @ rest \<and> [] \<notin> set chunks \<and> concat chunks = bs)"

lemma comes_read:
  assumes "comes (c # cs) fd s"
  obtains i where "os_read fd 1 s = (Inr [c], s\<lparr>os_in := i\<rparr>)" "comes cs fd (s\<lparr>os_in := i\<rparr>)"
proof -
  obtain chunks rest where c: "os_in s fd = map RdData chunks @ rest" "[] \<notin> set chunks" "concat chunks = c # cs"
    using assms by (auto simp: comes_def)
  then obtain d ds where d: "chunks = (c # d) # ds" by (cases chunks; cases "hd chunks") auto
  show thesis
  proof (cases d)
    case Nil
    let ?i = "(os_in s)(fd := map RdData ds @ rest)"
    have "comes cs fd (s\<lparr>os_in := ?i\<rparr>)"
      unfolding comes_def using c d Nil by (intro exI [of _ ds] exI [of _ rest]) simp
    then show thesis using c d Nil by (intro that [of ?i]) (simp_all add: os_read_def)
  next
    case (Cons e es)
    let ?i = "(os_in s)(fd := map RdData (d # ds) @ rest)"
    have "comes cs fd (s\<lparr>os_in := ?i\<rparr>)"
      unfolding comes_def using c d Cons by (intro exI [of _ "d # ds"] exI [of _ rest]) simp
    then show thesis using c d Cons by (intro that [of ?i]) (simp_all add: os_read_def)
  qed
qed

text \<open>The keys that edit the line, and what they mean.\<close>

definition key_op :: "byte \<Rightarrow> edit_op option" where
  "key_op c =
     (if c \<in> {CR, CTRL_C, CTRL_D, CTRL_P, CTRL_N, ESC, TAB} then None
      else if c = DEL \<or> c = CTRL_H then Some Del_left
      else if c = CTRL_T then Some Swap
      else if c = CTRL_B then Some Go_left
      else if c = CTRL_F then Some Go_right
      else if c = CTRL_U then Some Del_line
      else if c = CTRL_K then Some Del_tail
      else if c = CTRL_A then Some Go_home
      else if c = CTRL_E then Some Go_end
      else if c = CTRL_L then Some Redraw
      else if c = CTRL_W then Some Del_word
      else Some (Ins c))"

lemma insert_written: "os_wres s = [] \<Longrightarrow> linenoiseEditInsert c s = Some (r, s') \<Longrightarrow> r"
  by (auto simp: linenoiseEditInsert_def Let_def os_write_def split: if_splits bind_splits)

lemma edit_keys:
  "edit_key DEL s = map_option (Pair None) (linenoiseEditBackspace s)"
  "edit_key CTRL_H s = map_option (Pair None) (linenoiseEditBackspace s)"
  "edit_key CTRL_T s = map_option (Pair None) (swap_key s)"
  "edit_key CTRL_B s = map_option (Pair None) (linenoiseEditMoveLeft s)"
  "edit_key CTRL_F s = map_option (Pair None) (linenoiseEditMoveRight s)"
  "edit_key CTRL_A s = map_option (Pair None) (linenoiseEditMoveHome s)"
  "edit_key CTRL_E s = map_option (Pair None) (linenoiseEditMoveEnd s)"
  "edit_key CTRL_W s = map_option (Pair None) (linenoiseEditDeletePrevWord s)"
  "edit_run Del_line s = Some t \<Longrightarrow> edit_key CTRL_U s = Some (None, t)"
  "edit_run Del_tail s = Some t \<Longrightarrow> edit_key CTRL_K s = Some (None, t)"
  "edit_run Redraw s = Some t \<Longrightarrow> edit_key CTRL_L s = Some (None, t)"
  by (auto simp: edit_key_def split: bind_splits)

lemma edit_key_op:
  assumes "key_op c = Some op" "os_wres s = []" "edit_run op s = Some s'"
  shows "edit_key c s = Some (None, s')"
proof -
  consider "(c, op) \<in> {(DEL, Del_left), (CTRL_H, Del_left), (CTRL_T, Swap), (CTRL_B, Go_left), (CTRL_F, Go_right), (CTRL_A, Go_home),
      (CTRL_E, Go_end), (CTRL_W, Del_word)}" | "(c, op) \<in> {(CTRL_U, Del_line), (CTRL_K, Del_tail), (CTRL_L, Redraw)}"
    | "op = Ins c" "c \<notin> {CR, CTRL_C, CTRL_D, CTRL_P, CTRL_N, ESC, DEL, CTRL_H, CTRL_T, CTRL_B, CTRL_F, CTRL_U, CTRL_K, CTRL_A, CTRL_E, CTRL_L, CTRL_W}"
    using assms(1) by (auto simp: key_op_def split: if_split_asm)
  then show ?thesis
  proof cases
    case 1
    then show ?thesis using assms(3) by (elim insertE emptyE) (simp_all add: edit_keys)
  next
    case 2
    then show ?thesis using edit_keys(9-11) [of s s'] assms(3) by (elim insertE emptyE) simp_all
  next
    case 3
    then obtain r where r: "linenoiseEditInsert c s = Some (r, s')" using assms(3) by auto
    then have "r" using insert_written [OF assms(2)] by blast
    then show ?thesis using r 3(2) by (simp add: edit_key_def)
  qed
qed

lemma edit_loop_key:
  assumes "os_read (l_ifd s) 1 s = (Inr [c], s1)" "c \<noteq> TAB" "edit_key c s1 = Some (k, s2)"
  shows "edit_loop s = (case k of None \<Rightarrow> edit_loop s2 | Some r \<Rightarrow> Some (r, s2))"
  unfolding edit_loop.simps [of s] assms(1) prod.case sum.case list.case Let_def
  using assms(2,3) by (simp split: option.split)

lemma typed_loop:
  assumes "loop_ok s" "os_wres s = []" "comes (ks @ [CR]) (l_ifd s) s" "map key_op ks = map Some ops"
  shows "\<exists>s'. edit_loop s = Some (int (l_len s'), s') \<and> left_ok s' \<and> l_buflen s' = l_buflen s \<and>
           fst (ed_text s') @ snd (ed_text s') =
             fst (fold (edit_spec (l_buflen s)) ops (ed_text s)) @ snd (fold (edit_spec (l_buflen s)) ops (ed_text s)) \<and>
           entries s' = butlast (entries s)"
  using assms
proof (induction ks arbitrary: s ops)
  case Nil
  obtain i where i: "os_read (l_ifd s) 1 s = (Inr [CR], s\<lparr>os_in := i\<rparr>)"
    using comes_read [of CR "[]" "l_ifd s" s] Nil.prems(3) by auto
  have ok: "loop_ok (s\<lparr>os_in := i\<rparr>)" using Nil.prems(1) by simp
  obtain s' where s': "edit_key CR (s\<lparr>os_in := i\<rparr>) = Some (Some (int (l_len s')), s')" "left_ok s'" "tty_same (s\<lparr>os_in := i\<rparr>) s'"
    "fst (ed_text s') @ snd (ed_text s') = fst (ed_text (s\<lparr>os_in := i\<rparr>)) @ snd (ed_text (s\<lparr>os_in := i\<rparr>))"
    "entries s' = butlast (entries (s\<lparr>os_in := i\<rparr>))"
    using enter_result [OF ok] .
  have "entries (s\<lparr>os_in := i\<rparr>) = entries s" by (rule hist_frame) simp_all
  moreover have "ed_text (s\<lparr>os_in := i\<rparr>) = ed_text s" by (simp add: ed_text_def)
  ultimately show ?case
    using s' Nil.prems(4) edit_loop_key [OF i _ s'(1)] by (intro exI [of _ s']) (simp add: tty_same_def)
next
  case (Cons k ks)
  obtain op ops' where o: "ops = op # ops'" "key_op k = Some op" "map key_op ks = map Some ops'" using Cons.prems(4) by (cases ops) auto
  obtain i where i: "os_read (l_ifd s) 1 s = (Inr [k], s\<lparr>os_in := i\<rparr>)" "comes (ks @ [CR]) (l_ifd s) (s\<lparr>os_in := i\<rparr>)"
    using comes_read [of k "ks @ [CR]" "l_ifd s" s] Cons.prems(3) by auto
  let ?s = "s\<lparr>os_in := i\<rparr>"
  have ok: "loop_ok ?s" "os_wres ?s = []" using Cons.prems(1,2) by simp_all
  then have ok2: "ed_ok ?s" by (simp add: loop_ok_def)
  obtain s1 where s1: "edit_run op ?s = Some s1" "ed_text s1 = edit_spec (l_buflen s) op (ed_text s)" "same_env ?s s1"
    using edit_run_edited [OF ok2, of op] by (auto simp: edited_def ed_text_def)
  have l1: "loop_ok s1" using steps_run [OF ok(1), of op] s1(1) by (simp add: steps_def)
  note e = same_env_sel [OF s1(3)]
  have in1: "comes (ks @ [CR]) (l_ifd s1) s1" using i(2) e by (simp add: comes_def)
  have "k \<noteq> TAB" using o(2) by (auto simp: key_op_def)
  then have step: "edit_loop s = edit_loop s1" using edit_loop_key [OF i(1) _ edit_key_op [OF o(2) ok(2) s1(1)]] by simp
  have "entries s1 = entries ?s" by (rule hist_frame(2) [OF e(2-4)])
  also have "\<dots> = entries s" by (rule hist_frame) simp_all
  finally show ?case
    using Cons.IH [OF l1 _ in1 o(3)] e(22) ok(2) e(1) s1(2) o(1) by (simp add: step)
qed

lemma typed_edit:
  assumes "hist_ok s" "ln_mem s = []" "wide prompt s" "short_completions s" "length buf = LINENOISE_MAX_LINE"
    and "os_wres s = []" "comes (ks @ [CR]) STI s" "map key_op ks = map Some ops"
  obtains n b s' where "linenoiseEdit STI STO buf LINENOISE_MAX_LINE prompt s = Some (n, b, s')" "n \<noteq> -1"
    "c_str b = Some (cstring (fst (fold (edit_spec (LINENOISE_MAX_LINE - 1)) ops ([], [])) @
                              snd (fold (edit_spec (LINENOISE_MAX_LINE - 1)) ops ([], []))))"
    "entries s' = butlast (add_entry (nat (history_max_len s)) [] (entries s))" "ln_mem s' = []" "hist_ok s'" "files_same s s'"
proof -
  obtain s1 cols where s1: "entries s1 = add_entry (nat (history_max_len s)) [] (entries s)" "os_in s1 = os_in s" "os_wres s1 = []"
    "linenoiseEdit STI STO buf LINENOISE_MAX_LINE prompt s =
       (if os_wres s \<noteq> [] \<and> hd (os_wres s) < 0 then Some (-1, buf[0 := EOS], s1)
        else map_option (\<lambda>(n, l). (n, l_buf l, ln.truncate l)) (edit_loop (start STI STO (buf[0 := EOS]) LINENOISE_MAX_LINE prompt cols s1)))"
    "loop_ok (start STI STO (buf[0 := EOS]) LINENOISE_MAX_LINE prompt cols s1)"
    "lib_same (s\<lparr>history := history s1, history_len := history_len s1\<rparr>) s1"
    by (rule edit_start [OF assms(1-5)]) (use assms(6) that in blast)
  define l where "l = start STI STO (buf[0 := EOS]) LINENOISE_MAX_LINE prompt cols s1"
  have i: "os_wres l = []" "comes (ks @ [CR]) (l_ifd l) l" "ed_text l = ([], [])" "l_buflen l = LINENOISE_MAX_LINE - 1"
    using assms(7) s1(2,3) by (simp_all add: l_def start_sel comes_def ed_text_def)
  have el: "entries l = entries s1" by (rule hist_frame) (simp_all add: l_def start_sel)
  obtain l' where l': "edit_loop l = Some (int (l_len l'), l')" "left_ok l'" "l_buflen l' = LINENOISE_MAX_LINE - 1"
    "fst (ed_text l') @ snd (ed_text l') =
       fst (fold (edit_spec (LINENOISE_MAX_LINE - 1)) ops ([], [])) @ snd (fold (edit_spec (LINENOISE_MAX_LINE - 1)) ops ([], []))"
    "entries l' = butlast (entries l)"
    using typed_loop [OF s1(5) [folded l_def] i(1,2) assms(8)] unfolding i(3,4) by blast
  have "tty_same l l'" using edit_loop_ends [OF s1(5) [folded l_def]] l'(1) by auto
  then have "files_same l l'" by (simp add: tty_same_def)
  moreover have "files_same l' (ln.truncate l')" "files_same s1 l"
    by (simp_all add: files_same_def l_def start_def ln.extend_def ln.truncate_def)
  moreover have "files_same s s1" using s1(6) by (simp add: lib_same_def files_same_def)
  ultimately have fs: "files_same s (ln.truncate l')" by (simp add: files_same_def)
  have h: "hist_ok (ln.truncate l') = hist_ok l'" by (rule hist_frame) (simp_all add: extend_truncate_sel)
  have "entries (ln.truncate l') = entries l'" by (rule hist_frame) (simp_all add: extend_truncate_sel)
  moreover have "linenoiseEdit STI STO buf LINENOISE_MAX_LINE prompt s = Some (int (l_len l'), l_buf l', ln.truncate l')"
    unfolding s1(4) l_def [symmetric] l'(1) using assms(6) by simp
  moreover have "ln_mem (ln.truncate l') = []" using l'(2) by (simp add: left_ok_def extend_truncate_sel)
  ultimately show thesis using left_text(1) [OF l'(2,3)] l'(4,5) el s1(1)
      fs h l'(2) by (intro that [of "int (l_len l')" "l_buf l'" "ln.truncate l'"]) (simp_all add: left_ok_def)
qed

lemma typed_line_result:
  assumes "hist_ok s" "ln_mem s = []" "wide prompt s" "short_completions s"
    and "\<not> isUnsupportedTerm s" "tty_on STI d s" "os_wres s = []"
    and "comes (ks @ [CR]) STI s" "map key_op ks = map Some ops"
  shows "\<exists>s'. linenoise prompt s =
      Some (Some (cstring (fst (fold (edit_spec (LINENOISE_MAX_LINE - 1)) ops ([], [])) @
                           snd (fold (edit_spec (LINENOISE_MAX_LINE - 1)) ops ([], [])))), s') \<and>
      entries s' = butlast (add_entry (nat (history_max_len s)) [] (entries s)) \<and>
      hist_ok s' \<and> ln_mem s' = [] \<and> files_same s s'"
proof -
  let ?buf = "map (ln_junk s) [0..<LINENOISE_MAX_LINE]"
  have len: "length ?buf = LINENOISE_MAX_LINE" and z: "LINENOISE_MAX_LINE \<noteq> 0" by (simp_all add: LINENOISE_MAX_LINE_def)
  obtain s1 v where e: "enableRawMode STI s = (True, s1)" "os_in s1 = os_in s" "os_wres s1 = os_wres s"
    by (rule enable_ok [OF assms(6)], rule that)
  have k: "lib_same s s1" by (rule enable_same [OF e(1)])
  have h: "hist_ok s1" "ln_mem s1 = []" "wide prompt s1" "short_completions s1" "os_wres s1 = []" "comes (ks @ [CR]) STI s1"
    using k lib_same_hist [OF k] cond_frame [OF k] assms e(2,3) by (simp_all add: lib_same_def comes_def)
  obtain n b s2 where ed: "linenoiseEdit STI STO ?buf LINENOISE_MAX_LINE prompt s1 = Some (n, b, s2)" "n \<noteq> -1"
    "c_str b = Some (cstring (fst (fold (edit_spec (LINENOISE_MAX_LINE - 1)) ops ([], [])) @
                              snd (fold (edit_spec (LINENOISE_MAX_LINE - 1)) ops ([], []))))"
    "entries s2 = butlast (add_entry (nat (history_max_len s1)) [] (entries s1))" "ln_mem s2 = []"
    "hist_ok s2" "files_same s1 s2"
    using typed_edit [OF h(1-4) len h(5,6) assms(9)] .
  let ?s3 = "snd (os_write STO [LF] (disableRawMode STI s2))"
  have k3: "lib_same s2 ?s3" using same_trans(1) [OF disable_same write_same(1)] .
  have "isatty STI s" using assms(6) by (simp add: tty_on_def isatty_def)
  then have "linenoiseRaw ?buf LINENOISE_MAX_LINE prompt s = Some (n, b, ?s3)"
    using z e(1) ed(1) by (simp add: linenoiseRaw_def)
  moreover have "ln_mem ?s3 = []" "hist_ok ?s3" using k3 ed(5,6) lib_same_hist(1) [OF k3] by (simp_all add: lib_same_def)
  moreover have "files_same s ?s3" using k k3 ed(7) by (simp add: lib_same_def files_same_def)
  moreover have "entries ?s3 = butlast (add_entry (nat (history_max_len s)) [] (entries s))"
    using lib_same_hist(2) [OF k3] lib_same_hist(2) [OF k] ed(4) k by (simp add: lib_same_def files_same_def)
  ultimately show ?thesis using assms(5) ed(2,3) by (simp add: linenoise_def dup_line_def alloc_def)
qed

section \<open>Properties\<close>


definition sample_read :: ln where
  "sample_read = sample_ln\<lparr>os_dev := (\<lambda>_. \<lparr>dv_tio = sample_tio, dv_mctl = 0\<rparr>),
     os_in := (\<lambda>_. [RdData (''9x'' @ [DEL] @ ''600'' @ [CR])]), ln_winsz := Some 80\<rparr>"

lemma sample_read_sel:
  "hist_ok sample_read" "ln_mem sample_read = []" "wide ''*** baud: '' sample_read" "short_completions sample_read"
  "\<not> isUnsupportedTerm sample_read" "os_wres sample_read = []" "comes (''9x'' @ [DEL] @ ''600'' @ [CR]) STI sample_read"
proof -
  show "comes (''9x'' @ [DEL] @ ''600'' @ [CR]) STI sample_read"
    unfolding comes_def by (rule exI [of _ "[''9x'' @ [DEL] @ ''600'' @ [CR]]"]) (simp add: sample_read_def sample_ln_def)
qed (simp_all add: sample_read_def sample_ln_def hist_ok_def wide_def short_completions_def isUnsupportedTerm_def os.extend_def
    LINENOISE_DEFAULT_HISTORY_MAX_LEN_def)


text \<open>
  C12: after \<^verbatim>\<open>linenoise\<close> the terminal has the settings it had before, whatever was typed and however
  the call ended, when the terminal calls themselves succeed.
\<close>

theorem linenoise_restores_tty:
  assumes "hist_ok s" "ln_mem s = []" "wide prompt s" "short_completions s"
    and "tty_on STI d s" "\<not> rawmode s"
  shows "\<exists>r s'. linenoise prompt s = Some (r, s') \<and> os_dev s' = os_dev s \<and> \<not> rawmode s'"
  using linenoise_result [OF assms(1-4)] assms(5,6) unfolding returns_def by blast

lemma sample_read_tty: "tty_on STI 0 sample_read" "\<not> rawmode sample_read"
  by (simp_all add: tty_on_def sample_read_def sample_ln_def sample_os_def os.extend_def STI_def to_termios2_def of_termios2_def Let_def
      K_NCCS_def NCCS_def sample_tio_def IBAUD0_def)

lemma linenoise_restores_tty_witness:
  "\<exists>r s'. linenoise ''*** baud: '' sample_read = Some (r, s') \<and> os_dev s' = os_dev sample_read"
  using linenoise_restores_tty [OF sample_read_sel(1-4) sample_read_tty] by blast

text \<open>What the keys describe, as a C string.\<close>

definition typed_text :: "edit_op list \<Rightarrow> string" where
  "typed_text ops = (case fold (edit_spec (LINENOISE_MAX_LINE - 1)) ops ([], []) of (l, r) \<Rightarrow> cstring (l @ r))"



end
