(* ===== verification/Printing.thy ===== *)
theory Printing
  imports Fdio
begin

text \<open>
  The frame of output: what a message printed with \<^verbatim>\<open>fd_vprintf\<close> may change of a state, whichever record the
  state is.
\<close>

text \<open>What printing may change.\<close>

definition printed :: "'a os_scheme \<Rightarrow> 'a os_scheme \<Rightarrow> bool" where
  "printed s s' \<longleftrightarrow>
     s' = s\<lparr>os_wres := os_wres s', os_out := os_out s', os_errno := os_errno s'\<rparr> \<and> (os_wres s = [] \<longrightarrow> os_wres s' = [])"

lemma printed_refl [simp]: "printed s s"
  by (simp add: printed_def)

lemma printed_trans: "printed s t \<Longrightarrow> printed t u \<Longrightarrow> printed s u"
  by (cases s; cases t; cases u) (simp add: printed_def)

lemma printed_write: "printed s (snd (os_write fd bs s))"
  by (cases s) (simp add: printed_def os_write_def os_put_def Let_def split: list.split)

lemma printed_retry: "printed s (snd (write_retry fd p s))"
proof (induction fd p s rule: write_retry.induct)
  case (1 fd p s)
  obtain n s1 where w: "os_write fd p s = (n, s1)" by fastforce
  have p1: "printed s s1" using printed_write [of s fd p] w by simp
  show ?case
  proof (cases "n < 0 \<and> os_errno s1 = EINTR")
    case True
    then have e: "write_retry fd p s = write_retry fd p s1" by (subst write_retry.simps) (simp add: w)
    show ?thesis unfolding e using 1 [OF w [symmetric] refl] True p1 printed_trans by blast
  next
    case False
    then show ?thesis using p1 by (subst write_retry.simps) (auto simp: w)
  qed
qed

lemma printed_loop: "printed s (snd (writen_loop fd p s))"
proof (induction fd p s rule: writen_loop.induct)
  case (1 fd p s)
  obtain n s1 where w: "write_retry fd p s = (n, s1)" by fastforce
  have p1: "printed s s1" using printed_retry [of s fd p] w by simp
  show ?case
  proof (cases "p = [] \<or> n \<le> 0")
    case True
    then show ?thesis using p1 by (subst writen_loop.simps) (auto simp: w)
  next
    case False
    then have e: "writen_loop fd p s = writen_loop fd (drop (nat n) p) s1" by (subst writen_loop.simps) (simp add: w)
    show ?thesis unfolding e using 1 [OF _ w [symmetric] refl] False p1 printed_trans by blast
  qed
qed

lemma printed_text: "printed s (snd (fd_vprintf fd msg stack s))"
  by (simp add: fd_vprintf_def writen_ni_def Let_def case_prod_unfold printed_loop)

end
