(* ===== verification/Line_Prompts.thy ===== *)
theory Line_Prompts
  imports Line_Read Printing
begin

text \<open>
  The prompts of the program in the build with \<^verbatim>\<open>LINENOISE\<close>, \<^verbatim>\<open>src/ppcom/src/ppcom.cpp\<close>: the history file and
  \<^verbatim>\<open>read_filename\<close>, \<^verbatim>\<open>read_baud\<close>, \<^verbatim>\<open>read_hex\<close> on top of \<^verbatim>\<open>linenoise\<close>.  \<open>None\<close> is undefined behaviour, as in the
  library.
\<close>

section \<open>What is left of the input\<close>

definition input_left :: "'a ln_scheme \<Rightarrow> nat" where
  "input_left s = length (ln_stdin s) + in_size STI s"

definition same_input :: "'a ln_scheme \<Rightarrow> 'b ln_scheme \<Rightarrow> bool" where
  "same_input s s' \<longleftrightarrow> os_in s' = os_in s \<and> ln_stdin s' = ln_stdin s"

lemma same_input_left: "same_input s s' \<Longrightarrow> input_left s' = input_left s"
  by (simp add: same_input_def input_left_def in_size_def)

lemma same_input_trans: "same_input s t \<Longrightarrow> same_input t u \<Longrightarrow> same_input s u"
  by (simp add: same_input_def)

lemma same_input_write: "same_input s (snd (os_write fd bs s))"
  by (simp add: same_input_def os_write_def os_put_def Let_def split: list.split)

lemma read_left:
  assumes "os_read STI n s = (r, s')"
  shows "input_left s' \<le> input_left s" "ln_stdin s' = ln_stdin s" "r = Inr (c # cs) \<Longrightarrow> input_left s' < input_left s"
  using assms os_read_decreases [of STI n s c cs s']
  by (auto simp: os_read_def input_left_def in_size_def split: list.splits rd.splits if_splits)

lemma reads_on_left: "reads_on s s' \<Longrightarrow> l_ifd s = STI \<Longrightarrow> l_ifd s' = STI \<and> input_left s' \<le> input_left s"
  by (simp add: reads_on_def input_left_def)

lemma edit_loop_left:
  "edit_loop s = Some (n, s') \<Longrightarrow> l_ifd s = STI \<Longrightarrow> input_left s' \<le> input_left s \<and> (n \<noteq> -1 \<longrightarrow> input_left s' < input_left s)"
proof (induction s arbitrary: n s' rule: edit_loop.induct)
  case (1 s)
  obtain q s1 where rd: "os_read (l_ifd s) 1 s = (q, s1)" by fastforce
  have rd': "os_read STI 1 s = (q, s1)" using rd "1.prems"(2) by simp
  have fd1: "l_ifd s1 = STI" using rd "1.prems"(2) by (auto simp: os_read_def split: list.splits rd.splits)
  note e = "1.prems"(1) [unfolded edit_loop.simps [of s] rd, simplified prod.case]
  show ?case
  proof (cases "\<exists>c cs. q = Inr (c # cs)")
    case False
    then show ?thesis using e read_left(1) [OF rd'] by (cases q) (auto simp: input_left_def in_size_def split: list.splits)
  next
    case True
    then obtain c cs where q: "q = Inr (c # cs)" by blast
    have less: "input_left s1 < input_left s" using read_left(3) [OF rd' q] .
    let ?tab = "c = TAB \<and> completionCallback s1 \<noteq> No_cb"
    let ?m = "if ?tab then completeLine s1 else Some (Some c, s1)"
    note e1 = e [unfolded q, simplified sum.case list.case Let_def]
    obtain r s2 where r: "?m = Some (r, s2)" using e1 by (cases ?m) auto
    have "reads_on s1 s2" using r completeLine_reads by (auto simp: reads_on_same split: if_splits)
    then have l2: "l_ifd s2 = STI" "input_left s2 < input_left s" using reads_on_left fd1 less by fastforce+
    note e2 = e1 [unfolded r, simplified option.case prod.case]
    show ?thesis
    proof (cases r)
      case None
      then show ?thesis using e2 l2 by auto
    next
      case (Some d)
      note e3 = e2 [unfolded Some, simplified option.case]
      consider "?tab \<and> 128 \<le> byte_val d" | "\<not> (?tab \<and> 128 \<le> byte_val d)" "?tab \<and> d = EOS"
        | "\<not> (?tab \<and> 128 \<le> byte_val d)" "\<not> (?tab \<and> d = EOS)" by blast
      then show ?thesis
      proof cases
        case 1
        then show ?thesis using e3 l2 by auto
      next
        case 2
        then have "edit_loop s2 = Some (n, s')" using e3 by simp
        then show ?thesis using "1.IH"(1) [OF rd [symmetric] q refl refl r refl Some 2 _ l2(1)] l2(2) by fastforce
      next
        case 3
        obtain k s3 where k: "edit_key d s2 = Some (k, s3)" using e3 3 by (cases "edit_key d s2") auto
        have l3: "l_ifd s3 = STI" "input_left s3 < input_left s" using reads_on_left [OF edit_key_reads [OF k] l2(1)] l2(2) by auto
        have ek: "(case k of None \<Rightarrow> edit_loop s3 | Some r \<Rightarrow> Some (r, s3)) = Some (n, s')"
          using e3 3 by (cases k) (auto simp: k)
        show ?thesis
        proof (cases k)
          case (Some x)
          then show ?thesis using ek l3 by simp
        next
          case None
          then have "edit_loop s3 = Some (n, s')" using ek by simp
          moreover have "edit_key d s2 = Some (None, s3)" using k None by simp
          ultimately show ?thesis
            using "1.IH"(2) [OF rd [symmetric] q refl refl r refl Some 3] l3 by fastforce
        qed
      qed
    qed
  qed
qed

lemma report_left: "read_report STI n s = (b, s') \<Longrightarrow> input_left s' \<le> input_left s"
proof (induction STI n s arbitrary: b s' rule: read_report.induct)
  case (2 n s)
  obtain q s1 where rd: "os_read STI 1 s = (q, s1)" by fastforce
  note l = read_left(1) [OF rd]
  show ?case
  proof (cases "\<exists>c. q = Inr [c] \<and> c \<noteq> CHR ''R''")
    case True
    then obtain c where q: "q = Inr [c]" "c \<noteq> CHR ''R''" by blast
    obtain b' s2 where r: "read_report STI n s1 = (b', s2)" by fastforce
    have "s' = s2" using 2(2) q r rd by simp
    then show ?thesis using 2(1) [OF rd [symmetric] q(1) refl refl q(2) r] l by simp
  next
    case False
    have "s' = s1" using 2(2) False rd by (auto split: sum.splits list.splits if_splits)
    then show ?thesis using l by simp
  qed
qed simp

lemma write_left: "os_write fd bs s = (n, s') \<Longrightarrow> input_left s' = input_left s"
  using same_input_left [OF same_input_write [of s fd bs]] by simp

lemma cursor_left: "getCursorPosition STI fdo s = (n, s') \<Longrightarrow> input_left s' \<le> input_left s"
  by (auto simp: getCursorPosition_def split: prod.splits if_splits dest!: report_left write_left)

lemma columns_left: "getColumns STI fdo s = (n, s') \<Longrightarrow> input_left s' \<le> input_left s"
  unfolding getColumns_def
  by (auto split: prod.splits if_splits option.splits nat.splits dest!: cursor_left write_left
      simp: same_input_left [OF same_input_write])

lemma hist_same_input:
  "hist_put i p s = Some s' \<Longrightarrow> same_input s s'" "hist_free i s = Some s' \<Longrightarrow> same_input s s'"
  "strdup t s = (q, s') \<Longrightarrow> same_input s s'" "history_shift s = Some s' \<Longrightarrow> same_input s s'"
  by (auto simp: hist_put_def hist_free_def strdup_def history_shift_def Let_def alloc_def same_input_def
      split: option.splits if_splits ptr.splits list.splits bind_splits)

lemma add_same_input:
  assumes "linenoiseHistoryAdd line s = Some (ok, s')"
  shows "same_input s s'"
proof -
  have a: "same_input s s1" if "alloc s = (b, s1)" for b and s1 :: "'a ln_scheme"
    using that by (auto simp: alloc_def same_input_def split: list.splits)
  show ?thesis
    using assms unfolding linenoiseHistoryAdd_def
    by (auto split: if_splits prod.splits bool.splits bind_splits dest!: hist_same_input a simp: same_input_def)
qed

lemma attr_input:
  "tc2getattr fd s = (r, s') \<Longrightarrow> same_input s s'" "tc2setattr fd when t s = (ok, s') \<Longrightarrow> same_input s s'"
  for s s' :: ln
  by (auto simp: tc2getattr_def tc2setattr_def tty_call_def syscall_def setattr_act_def same_input_def
      event_def upd_dev_def split: if_splits prod.splits option.splits list.splits bool.splits)

lemma raw_mode_input: "enableRawMode fd s = (ok, s') \<Longrightarrow> same_input s s'" "same_input s (disableRawMode fd s)" for s s' :: ln
  unfolding enableRawMode_def disableRawMode_def Let_def
  by (auto split: if_splits prod.splits option.splits bool.splits dest!: attr_input)
     (auto simp: same_input_def)

lemma edit_left:
  assumes "linenoiseEdit STI STO buf n prompt s = Some (k, b, s')"
  shows "input_left s' \<le> input_left s \<and> (k \<noteq> -1 \<longrightarrow> input_left s' < input_left s)"
proof -
  obtain cols s1 where c: "getColumns STI STO s = (cols, s1)" by fastforce
  obtain b0 where p: "poke 0 EOS buf = Some b0" and nz: "n \<noteq> 0"
    using assms by (auto simp: linenoiseEdit_def c split: bind_splits if_splits)
  obtain ok s2 where a: "linenoiseHistoryAdd [] s1 = Some (ok, s2)"
    using assms nz by (auto simp: linenoiseEdit_def c p split: bind_splits)
  obtain r s3 where w: "os_write STO prompt s2 = (r, s3)" by fastforce
  have l3: "input_left s3 \<le> input_left s"
    using columns_left [OF c] same_input_left [OF add_same_input [OF a]] write_left [OF w] by simp
  let ?l = "start STI STO b0 n prompt cols s3"
  have e: "(if r = -1 then Some (-1, b0, s3) else edit_loop ?l \<bind> (\<lambda>(n, l). Some (n, l_buf l, ln.truncate l))) = Some (k, b, s')"
    using assms nz unfolding linenoiseEdit_def c p a w prod.case Option.bind.bind_lunit by (auto simp: start_def split: if_splits)
  show ?thesis
  proof (cases "r = -1")
    case True
    then show ?thesis using e l3 by simp
  next
    case False
    then obtain l where l: "edit_loop ?l = Some (k, l)" "s' = ln.truncate l" using e by (auto split: bind_splits)
    have "input_left l \<le> input_left ?l \<and> (k \<noteq> -1 \<longrightarrow> input_left l < input_left ?l)"
      using edit_loop_left [OF l(1)] by (simp add: start_sel)
    moreover have "input_left ?l = input_left s3" by (simp add: input_left_def in_size_def start_def ln.extend_def)
    moreover have "input_left s' = input_left l" by (simp add: l(2) input_left_def in_size_def ln.truncate_def)
    ultimately show ?thesis using l3 by linarith
  qed
qed

lemma fgets_left:
  "fgets_stdin n acc s = (r, s') \<Longrightarrow> input_left s' \<le> input_left s \<and> (r \<noteq> None \<longrightarrow> 0 < n \<longrightarrow> acc = [] \<longrightarrow> input_left s' < input_left s)"
proof (induction n acc s rule: fgets_stdin.induct)
  case (1 n acc s)
  show ?case
  proof (cases "n = 0")
    case True
    then show ?thesis using "1.prems" by (subst (asm) fgets_stdin.simps) simp
  next
    case n: False
    show ?thesis
    proof (cases "ln_stdin s")
      case (Cons c cs)
      have l: "input_left (s\<lparr>ln_stdin := cs\<rparr>) < input_left s" using Cons by (simp add: input_left_def in_size_def)
      note e = "1.prems" [unfolded fgets_stdin.simps [of n acc s], unfolded Cons, simplified n if_False list.case Let_def]
      show ?thesis
      proof (cases "c = LF")
        case True
        then show ?thesis using e l by auto
      next
        case False
        then have f: "fgets_stdin (n - 1) (acc @ [c]) (s\<lparr>ln_stdin := cs\<rparr>) = (r, s')" using e by simp
        show ?thesis using "1.IH"(2) [OF n Cons refl False f] l by linarith
      qed
    next
      case Nil
      obtain q s1 where r: "os_read STI STDIO_BLOCK s = (q, s1)" by fastforce
      note e = "1.prems" [unfolded fgets_stdin.simps [of n acc s], unfolded Nil r, simplified n if_False list.case prod.case]
      show ?thesis
      proof (cases "\<exists>b bs. q = Inr (b # bs)")
        case True
        then obtain b bs where q: "q = Inr (b # bs)" by blast
        then have f: "fgets_stdin n acc (s1\<lparr>ln_stdin := b # bs\<rparr>) = (r, s')" using e by simp
        have "input_left (s1\<lparr>ln_stdin := b # bs\<rparr>) \<le> input_left s"
        proof -
          obtain x rest where x: "os_in s STI = RdData x # rest" "b # bs = take STDIO_BLOCK x"
              "s1 = s\<lparr>os_in := (os_in s)(STI := (if length x \<le> STDIO_BLOCK then rest else RdData (drop STDIO_BLOCK x) # rest))\<rparr>"
            using r q by (auto simp: os_read_def split: list.splits rd.splits)
          have "length (b # bs) = min (length x) STDIO_BLOCK" by (simp only: x(2) length_take)
          then show ?thesis using Nil by (simp add: x(1,3) input_left_def in_size_def)
        qed
        then show ?thesis
          using "1.IH"(1) [OF n Nil r [symmetric] q refl f] by linarith
      next
        case False
        then show ?thesis using e read_left(1) [OF r] by (cases q) (auto split: list.splits if_splits)
      qed
    qed
  qed
qed

lemma raw_left:
  assumes "linenoiseRaw buf LINENOISE_MAX_LINE prompt s = Some (n, b, s')"
  shows "input_left s' \<le> input_left s \<and> (n \<noteq> -1 \<longrightarrow> input_left s' < input_left s)"
proof -
  have z: "LINENOISE_MAX_LINE \<noteq> 0" "0 < LINENOISE_MAX_LINE - 1" by (simp_all add: LINENOISE_MAX_LINE_def)
  show ?thesis
  proof (cases "isatty STI s")
    case False
    obtain q s1 where f: "fgets_stdin (LINENOISE_MAX_LINE - 1) [] s = (q, s1)" by fastforce
    have "s' = s1" "n \<noteq> -1 \<Longrightarrow> q \<noteq> None"
      using assms False z unfolding linenoiseRaw_def f by (auto simp: Let_def split: option.splits)
    then show ?thesis using fgets_left [OF f] z(2) by simp
  next
    case True
    obtain ok s1 where e: "enableRawMode STI s = (ok, s1)" by fastforce
    note s1 = same_input_left [OF raw_mode_input(1) [OF e]]
    show ?thesis
    proof (cases ok)
      case False
      then show ?thesis using assms True z s1 e by (simp add: linenoiseRaw_def)
    next
      case ok: True
      obtain s2 where ed: "linenoiseEdit STI STO buf LINENOISE_MAX_LINE prompt s1 = Some (n, b, s2)"
          "s' = snd (os_write STO [LF] (disableRawMode STI s2))"
        using assms True z e ok by (auto simp: linenoiseRaw_def split: bind_splits)
      have "input_left s' = input_left s2"
        using same_input_left [OF same_input_trans [OF raw_mode_input(2) same_input_write]] by (simp add: ed(2))
      then show ?thesis using edit_left [OF ed(1)] s1 by simp
    qed
  qed
qed

lemma dup_line_left: "dup_line t s = (r, s') \<Longrightarrow> input_left s' = input_left s"
  by (auto simp: dup_line_def alloc_def input_left_def in_size_def split: prod.splits list.splits if_splits)

lemma linenoise_left:
  assumes "linenoise prompt s = Some (r, s')"
  shows "input_left s' \<le> input_left s \<and> (r \<noteq> None \<longrightarrow> input_left s' < input_left s)"
proof (cases "isUnsupportedTerm s")
  case True
  have z: "0 < LINENOISE_MAX_LINE - 1" by (simp add: LINENOISE_MAX_LINE_def)
  obtain q s1 where f: "fgets_stdin (LINENOISE_MAX_LINE - 1) [] (snd (os_write STO prompt s)) = (q, s1)" by fastforce
  have "(case q of None \<Rightarrow> Some (None, s1) | Some b \<Rightarrow> Some (dup_line (strip_eol (cstring b)) s1)) = Some (r, s')"
    using assms True unfolding linenoise_def f by simp
  then have "input_left s' = input_left s1" "r \<noteq> None \<Longrightarrow> q \<noteq> None" using dup_line_left by (auto split: option.splits)
  then show ?thesis using fgets_left [OF f] z same_input_left [OF same_input_write [of s STO prompt]] by auto
next
  case False
  obtain n b s1 where w: "linenoiseRaw (map (ln_junk s) [0..<LINENOISE_MAX_LINE]) LINENOISE_MAX_LINE prompt s = Some (n, b, s1)"
      "(if n = -1 then Some (None, s1) else c_str b \<bind> (\<lambda>t. Some (dup_line t s1))) = Some (r, s')"
    using assms False by (auto simp: linenoise_def split: bind_splits)
  have "input_left s' = input_left s1" "r \<noteq> None \<Longrightarrow> n \<noteq> -1"
    using w(2) dup_line_left by (auto split: if_splits bind_splits)
  then show ?thesis using raw_left [OF w(1)] by auto
qed

section \<open>Messages\<close>

text \<open>The texts are shorter than the buffer of \<^verbatim>\<open>fd_printf\<close>: nothing behind it is printed.\<close>

definition fd_say :: "string \<Rightarrow> 'a os_scheme \<Rightarrow> 'a os_scheme" where
  "fd_say txt s = snd (fd_printf STO txt [] s)"

lemma printed_say: "printed s (fd_say t s)"
  using printed_text by (simp add: fd_say_def fd_printf_def)

lemma printed_sel:
  assumes "printed s (s' :: ln)"
  shows "lib_same s s'" "dev_same s s'" "same_input s s'" "os_cfg s' = os_cfg s" "os_wres s = [] \<Longrightarrow> os_wres s' = []"
  using assms by (cases s; cases s'; simp add: printed_def lib_same_def dev_same_def same_input_def files_same_def)+

section \<open>The history file\<close>

definition HISTFILE :: string where "HISTFILE = ''.ppcom_history''"

text \<open>With \<^verbatim>\<open>HOME\<close> empty the character before the string is looked at; a failed \<^verbatim>\<open>malloc\<close> is not checked.\<close>

definition init_history :: "ln \<Rightarrow> ln option" where
  "init_history s =
     (case ln_env s ''HOME'' of
        None \<Rightarrow> Some s
      | Some home \<Rightarrow>
          (case alloc s of
             (False, s) \<Rightarrow> None
           | (True, s) \<Rightarrow>
               if home = [] then None
               else
                 let path = (if last home \<noteq> SLASH then home @ [SLASH] else home) @ HISTFILE in
                 map_option snd (linenoiseHistoryLoad path (s\<lparr>history_file_path := Str path\<rparr>))))"

definition cleanup_history :: "ln \<Rightarrow> ln option" where
  "cleanup_history s =
     (case history_file_path s of
        Null \<Rightarrow> Some s
      | Str _ \<Rightarrow> Some (s\<lparr>history_file_path := Freed\<rparr>)
      | Freed \<Rightarrow> None)"

definition add_history :: "string \<Rightarrow> ln \<Rightarrow> ln option" where
  "add_history fname s = do {
     (_, s) \<leftarrow> linenoiseHistoryAdd fname s;
     case history_file_path s of
       Null \<Rightarrow> Some s
     | Str path \<Rightarrow> map_option snd (linenoiseHistorySave path s)
     | Freed \<Rightarrow> None }"

section \<open>The prompts\<close>

definition linenoiseSetCompletionCallback :: "callback_ptr \<Rightarrow> ln \<Rightarrow> ln" where
  "linenoiseSetCompletionCallback fn s = s\<lparr>completionCallback := fn\<rparr>"

definition read_filename_ln :: "ln \<Rightarrow> (string option \<times> ln) option" where
  "read_filename_ln s = do {
     (fname, s) \<leftarrow> linenoise ''*** file: '' (fd_say crlf (linenoiseSetCompletionCallback File_cb s));
     let s = linenoiseSetCompletionCallback No_cb (fd_say [CR] s);
     case fname of
       None \<Rightarrow> Some (None, s)
     | Some t \<Rightarrow> map_option (Pair (Some t)) (add_history t s) }"

text \<open>
  The loop of \<^verbatim>\<open>read_baud\<close>; the result is \<^verbatim>\<open>baud\<close> and the pointer \<^verbatim>\<open>baudstr\<close> after the loop, \<open>Freed\<close> when a
  rate was accepted.
\<close>

function baud_prompts :: "int \<Rightarrow> ln \<Rightarrow> (int \<times> ptr \<times> ln) option" where
  "baud_prompts bd s =
     (case linenoise ''*** baud: '' (fd_say crlf s) of
        None \<Rightarrow> None
      | Some (None, s') \<Rightarrow> Some (bd, Null, fd_say [CR] s')
      | Some (Some t, s') \<Rightarrow>
          (let s1 = fd_say [CR] s';
               (v, ep) = strtol 0 t;
               b = c_int v;
               bad = (ep \<noteq> [] \<or> \<not> term_baud_ok (custom_on (os_cfg s1)) (HIGH_BAUD (os_cfg s1)) b \<or> b = 0);
               s2 = (if bad then fd_say ''*** Invalid baudrate!'' s1 else s1);
               b' = (if bad then -1 else b)
           in if b' < 0 then baud_prompts b' s2 else Some (b', Freed, s2)))"
  by pat_completeness auto
termination
proof (relation "measure (\<lambda>(b, s). input_left s)", simp)
  fix bd b b' s x y t s' s1 v ep bad s2 r
  assume l: "linenoise ''*** baud: '' (fd_say crlf s) = Some y" "(x, s') = y" "x = Some t"
    and d: "s1 = fd_say [CR] s'" "s2 = (if bad then fd_say ''*** Invalid baudrate!'' s1 else s1)"
  have s: "input_left (fd_say u z) = input_left z" for u and z :: ln
    using same_input_left printed_sel(3) printed_say by blast
  have "linenoise ''*** baud: '' (fd_say crlf s) = Some (Some t, s')" using l by auto
  then have "input_left s' < input_left s" using linenoise_left [of "''*** baud: ''" "fd_say crlf s" "Some t" s'] by (simp add: s)
  then show "((b', s2), (bd, s)) \<in> measure (\<lambda>(b, s). input_left s)" by (simp add: d s)
qed

declare baud_prompts.simps [simp del]

text \<open>The string is given to \<^verbatim>\<open>add_history\<close> after it has been freed.\<close>

definition read_baud_ln :: "ln \<Rightarrow> (int \<times> ln) option" where
  "read_baud_ln s = do {
     (bd, baudstr, s) \<leftarrow> baud_prompts (-1) s;
     case baudstr of
       Null \<Rightarrow> Some (bd, s)
     | Str t \<Rightarrow> map_option (Pair bd) (add_history t s)
     | Freed \<Rightarrow> None }"

function read_hex_ln :: "nat \<Rightarrow> ln \<Rightarrow> (byte list \<times> ln) option" where
  "read_hex_ln sz s =
     (case linenoise ''*** hex: '' (fd_say crlf s) of
        None \<Rightarrow> None
      | Some (None, s') \<Rightarrow> Some ([], fd_say [CR] s')
      | Some (Some t, s') \<Rightarrow>
          (case hex2bin sz t of
             None \<Rightarrow> read_hex_ln sz (fd_say ''*** Invalid hex!'' (fd_say [CR] s'))
           | Some bs \<Rightarrow> Some (bs, fd_say [CR] s')))"
  by pat_completeness auto
termination
proof (relation "measure (\<lambda>(sz, s). input_left s)", simp)
  fix sz :: nat and s x y t s'
  assume l: "linenoise ''*** hex: '' (fd_say crlf s) = Some y" "(x, s') = y" "x = Some t"
  have s: "input_left (fd_say u z) = input_left z" for u and z :: ln
    using same_input_left printed_sel(3) printed_say by blast
  have "linenoise ''*** hex: '' (fd_say crlf s) = Some (Some t, s')" using l by auto
  then have "input_left s' < input_left s" using linenoise_left [of "''*** hex: ''" "fd_say crlf s" "Some t" s'] by (simp add: s)
  then show "((sz, fd_say ''*** Invalid hex!'' (fd_say [CR] s')), (sz, s)) \<in> measure (\<lambda>(sz, s). input_left s)" by (simp add: s)
qed

declare read_hex_ln.simps [simp del]

section \<open>Properties\<close>

text \<open>Printing and setting the callback, before the call: what is typed is still to come.\<close>

lemma tty_on_frame: "dev_same s s' \<Longrightarrow> tty_on fd d s' = tty_on fd d s"
  by (simp add: tty_on_def dev_same_def)

lemma unsupported_frame: "lib_same s s' \<Longrightarrow> isUnsupportedTerm s' = isUnsupportedTerm s"
  by (simp add: isUnsupportedTerm_def lib_same_def)

lemma typed_at_prompt:
  assumes "hist_ok s" "ln_mem s = []" "wide prompt s" "short_completions s"
    and "\<not> isUnsupportedTerm s" "tty_on STI d s" "os_wres s = []"
    and "comes (ks @ [CR]) STI s" "map key_op ks = map Some ops"
  obtains s' where "linenoise prompt (fd_say msg s) = Some (Some (typed_text ops), s')" "hist_ok s'" "ln_mem s' = []"
    "entries s' = butlast (add_entry (nat (history_max_len s)) [] (entries s))" "files_same s s'"
proof -
  note p = printed_sel [OF printed_say [where s = s and t = msg]]
  have "lib_same s (fd_say msg s)" by (rule p(1))
  then have fs: "files_same s (fd_say msg s)" "history_max_len (fd_say msg s) = history_max_len s"
    "ln_mem (fd_say msg s) = ln_mem s" by (simp_all add: lib_same_def)
  have "comes (ks @ [CR]) STI (fd_say msg s)" using p(3) assms(8) by (simp add: comes_def same_input_def)
  then obtain s' where "linenoise prompt (fd_say msg s) = Some (Some (typed_text ops), s')"
    "entries s' = butlast (add_entry (nat (history_max_len s)) [] (entries s)) \<and> hist_ok s' \<and> ln_mem s' = [] \<and> files_same (fd_say msg s) s'"
    using typed_line_result [of "fd_say msg s" prompt d ks ops] lib_same_hist [OF p(1)] cond_frame [OF p(1)]
      unsupported_frame [OF p(1)] tty_on_frame [OF p(2)] p(5) fs(2,3) assms
    unfolding typed_text_def case_prod_unfold by auto
  then show thesis using fs(1) by (intro that [of s']) (auto simp: files_same_def)
qed

lemma typed_text_eos: "EOS \<notin> set (typed_text ops)"
  by (auto simp: typed_text_def cstring_def case_prod_unfold dest: set_takeWhileD)


definition sample_prompt :: ln where
  "sample_prompt = sample_read\<lparr>history_file_path := Str ''h''\<rparr>"

lemma sample_prompt_sel:
  "hist_ok sample_prompt" "ln_mem sample_prompt = []" "wide ''*** file: '' sample_prompt" "wide ''*** baud: '' sample_prompt"
  "short_completions sample_prompt" "short_completions (sample_prompt\<lparr>completionCallback := File_cb\<rparr>)"
  "\<not> isUnsupportedTerm sample_prompt" "tty_on STI 0 sample_prompt" "os_wres sample_prompt = []"
  "comes ((''9x'' @ [DEL] @ ''600'') @ [CR]) STI sample_prompt" "history_file_path sample_prompt = Str ''h''"
  "\<not> ln_readonly sample_prompt f"
  using sample_read_sel sample_read_tty
  by (simp_all add: sample_prompt_def hist_ok_def wide_def short_completions_def isUnsupportedTerm_def tty_on_def comes_def
      completions_def) (simp_all add: sample_read_def sample_ln_def os.extend_def)

definition sample_ops :: "edit_op list" where
  "sample_ops = [Ins CHR ''9'', Ins CHR ''x'', Del_left, Ins CHR ''6'', Ins CHR ''0'', Ins CHR ''0'']"

lemma sample_ops_typed:
  "map key_op (''9x'' @ [DEL] @ ''600'') = map Some sample_ops" "typed_text sample_ops = ''9600''"
  by (simp_all add: sample_ops_def key_op_def typed_text_def cstring_def LINENOISE_MAX_LINE_def)


text \<open>
  C35: \<^verbatim>\<open>read_baud\<close>, given a valid rate, hands the line to the history after having freed it: the call has
  no defined result.
\<close>

theorem read_baud_after_free:
  assumes "hist_ok s" "ln_mem s = []" "wide ''*** baud: '' s" "short_completions s"
    and "\<not> isUnsupportedTerm s" "tty_on STI d s" "os_wres s = []" "comes (ks @ [CR]) STI s" "map key_op ks = map Some ops"
    and "strtol 0 (typed_text ops) = (v, [])" "0 < c_int v" "\<And>c h. term_baud_ok c h (c_int v)"
  shows "read_baud_ln s = None"
proof -
  obtain s1 where "linenoise ''*** baud: '' (fd_say crlf s) = Some (Some (typed_text ops), s1)"
    using typed_at_prompt [OF assms(1-9)] .
  then have "baud_prompts (-1) s = Some (c_int v, Freed, fd_say [CR] s1)"
    using assms(10-12) by (subst baud_prompts.simps) (simp add: Let_def)
  then show ?thesis by (simp add: read_baud_ln_def)
qed

lemma read_baud_after_free_witness: "read_baud_ln sample_prompt = None"
proof -
  have v: "strtol 0 (typed_text sample_ops) = (9600, [])" unfolding sample_ops_typed(2) by code_simp
  have c: "c_int 9600 = 9600" by (simp add: c_int_id)
  have "Bcode True 9600 \<noteq> BNONE" "Bcode False 9600 \<noteq> BNONE" by code_simp+
  then have "term_baud_ok c h (c_int 9600)" for c h by (cases h) (simp_all add: c term_baud_ok_def)
  then show ?thesis
    using read_baud_after_free [OF sample_prompt_sel(1,2,4,5,7-10) sample_ops_typed(1) v] by (simp add: c_int_id)
qed

end
