(* ===== verification/Uucp_Lock.thy ===== *)
theory Uucp_Lock
  imports Commands Decimal Printing "HOL-Library.Monad_Syntax"
begin

text \<open>
  Lock files in the manner of UUCP, \<^verbatim>\<open>src/ppcom/src/ppcom.cpp\<close>, the build with \<^verbatim>\<open>UUCP_LOCK_DIR\<close>:
  \<^verbatim>\<open>uucp_lockname\<close>, \<^verbatim>\<open>uucp_lock\<close>, \<^verbatim>\<open>uucp_unlock\<close> and their use in \<^verbatim>\<open>main\<close>.  The lock of a port is a file with the
  number of the process that holds it; a file that names a process that is gone is stale.  \<open>None\<close> is
  behaviour the language does not define.
\<close>

section \<open>State\<close>

text \<open>
  The files by their names, which directories exist and which names may not be made or removed, what
  \<^verbatim>\<open>kill\<close> with signal 0 says of a process (its \<^verbatim>\<open>errno\<close>, 0 for success), and what an uninitialised array
  of 16 bytes holds, with what is behind it.
\<close>

record uu = os +
  lockname :: string
  uu_files :: "string \<Rightarrow> byte list option"
  uu_dirs :: "string \<Rightarrow> bool"
  uu_deny :: "string \<Rightarrow> bool"
  uu_kill :: "int \<Rightarrow> nat"
  uu_pid :: nat
  uu_umask :: nat
  uu_stack :: "byte list"
  uu_quiet :: bool

definition ESRCH :: nat where "ESRCH = 3"
definition EACCES :: nat where "EACCES = 13"
definition EEXIST :: nat where "EEXIST = 17"

section \<open>The name of the lock\<close>

definition lock_base :: "string \<Rightarrow> string" where
  "lock_base file = (case dropWhile (\<lambda>c. c \<noteq> CHR ''/'') (tl file) of [] \<Rightarrow> file | _ # p \<Rightarrow> p)"

definition uucp_lockname :: "string option \<Rightarrow> string \<Rightarrow> uu \<Rightarrow> (int \<times> uu) option" where
  "uucp_lockname dir file s =
     (case dir of
        None \<Rightarrow> Some (-1, s)
      | Some d \<Rightarrow>
          if d = [] \<or> \<not> uu_dirs s d then Some (-1, s)
          else if file = [] then None
          else
            (case syscall (\<lambda>s. s) s of
               (False, s) \<Rightarrow> None
             | (True, s) \<Rightarrow>
                 (let cp = map (\<lambda>c. if c = CHR ''/'' then CHR ''_'' else c) (lock_base file) in
                  Some (0, s\<lparr>lockname := take (POSIX_PATH_MAX - 1) (d @ ''/LCK..'' @ cp)\<rparr>))))"

section \<open>Taking the lock\<close>

text \<open>\<^verbatim>\<open>strtol\<close> on an array that need not hold a NUL: it may not run off its end.\<close>

definition array_num :: "byte list \<Rightarrow> int option" where
  "array_num b =
     (case strtol 10 (cstring b) of
        (v, ep) \<Rightarrow>
          if EOS \<notin> set b \<and> (ep = [] \<or> dropWhile isspace b \<in> {[], ''-'', ''+''}) then None else Some (c_int v))"

text \<open>The number in the file; four bytes are a binary number.\<close>

definition lock_pid :: "byte list option \<Rightarrow> byte list \<Rightarrow> int option" where
  "lock_pid r junk =
     (case r of
        None \<Rightarrow> array_num junk
      | Some b \<Rightarrow>
          if length b = 4 then Some (c_int (foldr (\<lambda>c a. int (byte_val c) + 256 * a) b 0))
          else array_num (b @ drop (length b) junk))"

datatype lock_state = Lock_free | Lock_stale | Lock_held

definition lock_look :: "uu \<Rightarrow> (lock_state \<times> uu) option" where
  "lock_look s =
     (case uu_files s (lockname s) of
        None \<Rightarrow> Some (Lock_free, s)
      | Some content \<Rightarrow>
          (case syscall (\<lambda>s. s) s of
             (False, s) \<Rightarrow> Some (Lock_free, s)
           | (True, s) \<Rightarrow>
               (case syscall (\<lambda>s. s) s of
                  (ok, s) \<Rightarrow> do {
                    pid \<leftarrow> lock_pid (if ok then Some (take 16 content) else None) (take 16 (uu_stack s));
                    Some (if pid > 0 \<and> uu_kill s pid = ESRCH then Lock_stale else Lock_held, s) })))"

definition uu_unlink :: "string \<Rightarrow> uu \<Rightarrow> uu" where
  "uu_unlink name s =
     (if uu_deny s name then s\<lparr>os_errno := EACCES\<rparr> else s\<lparr>uu_files := (uu_files s)(name := None)\<rparr>)"

definition uu_pinfo :: "string \<Rightarrow> uu \<Rightarrow> uu" where
  "uu_pinfo msg s = (if uu_quiet s then s else snd (fd_vprintf STO msg (uu_stack s) s))"

definition remove_stale :: "uu \<Rightarrow> uu" where
  "remove_stale s =
     (let s = uu_pinfo (crlf @ ''Removing stale lock: '' @ lockname s @ crlf) s in
      uu_unlink (lockname s) (usleep 1000000 s))"

text \<open>\<^verbatim>\<open>open\<close> with \<^verbatim>\<open>O_CREAT\<close> and \<^verbatim>\<open>O_EXCL\<close>; when it fails the mask stays changed.\<close>

definition lock_create :: "uu \<Rightarrow> bool \<times> uu" where
  "lock_create s =
     (let m = uu_umask s;
          s = s\<lparr>uu_umask := 18\<rparr>;
          fail = (\<lambda>e. (False, s\<lparr>lockname := [], os_errno := e\<rparr>))
      in if uu_files s (lockname s) \<noteq> None then fail EEXIST
         else if uu_deny s (lockname s) then fail EACCES
         else (True, s\<lparr>uu_files := (uu_files s)(lockname s \<mapsto> []), uu_umask := m\<rparr>))"

text \<open>\<^verbatim>\<open>%04d\<close> and a line end, in an array of 16 bytes.\<close>

definition pid_text :: "nat \<Rightarrow> string" where
  "pid_text p = take 15 (replicate (4 - length (dec_nat p)) CHR ''0'' @ dec_nat p @ [LF])"

definition lock_write :: "uu \<Rightarrow> uu" where
  "lock_write s =
     (case syscall (\<lambda>s. s\<lparr>uu_files := (uu_files s)(lockname s \<mapsto> pid_text (uu_pid s))\<rparr>) s of (_, s) \<Rightarrow> s)"

definition lock_make :: "uu \<Rightarrow> int \<times> uu" where
  "lock_make s = (case lock_create s of (False, s) \<Rightarrow> (-1, s) | (True, s) \<Rightarrow> (0, lock_write s))"

definition uucp_lock :: "uu \<Rightarrow> (int \<times> uu) option" where
  "uucp_lock s =
     (if lockname s = [] then Some (0, s)
      else do {
        (st, s) \<leftarrow> lock_look s;
        case st of
          Lock_free \<Rightarrow> Some (lock_make s)
        | Lock_stale \<Rightarrow> Some (lock_make (remove_stale s))
        | Lock_held \<Rightarrow> Some (-1, s\<lparr>lockname := [], os_errno := EEXIST\<rparr>) })"

definition uucp_unlock :: "uu \<Rightarrow> int \<times> uu" where
  "uucp_unlock s = (0, if lockname s \<noteq> [] then uu_unlink (lockname s) s else s)"

text \<open>In \<^verbatim>\<open>main\<close>: whether the program goes on.\<close>

definition uucp_lock_port :: "bool \<Rightarrow> string option \<Rightarrow> string \<Rightarrow> uu \<Rightarrow> (bool \<times> uu) option" where
  "uucp_lock_port nolck dir file s = do {
     s \<leftarrow> (if nolck then Some s else map_option snd (uucp_lockname dir file s));
     (r, s) \<leftarrow> uucp_lock s;
     Some (\<not> r < 0, s) }"

section \<open>The number of a process\<close>

lemma pid_digits: "dec_nat p = ds \<Longrightarrow> \<forall>c\<in>set (replicate k CHR ''0'' @ ds). 48 \<le> byte_val c \<and> byte_val c \<le> 57"
  using dec_nat_digits by auto

lemma foldl_zeros: "foldl (\<lambda>a c. a * int 10 + int (digit_val c)) 0 (replicate k CHR ''0'' @ ds) =
    foldl (\<lambda>a c. a * int 10 + int (digit_val c)) 0 ds"
  by (induction k) (simp_all add: digit_val_def Let_def)

lemma dec_nat_len: "n < 10 ^ k \<Longrightarrow> 0 < k \<Longrightarrow> length (dec_nat n) \<le> k"
proof (induction k arbitrary: n)
  case (Suc k)
  show ?case
  proof (cases "n < 10")
    case True
    then show ?thesis by (subst dec_nat.simps) simp
  next
    case False
    then have "0 < k" using Suc.prems by (cases k) auto
    moreover have "n div 10 < 10 ^ k" using Suc.prems by (simp add: less_mult_imp_div_less)
    ultimately have "length (dec_nat (n div 10)) \<le> k" by (rule Suc.IH [rotated])
    then show ?thesis using False by (subst dec_nat.simps) simp
  qed
qed simp

lemma pid_text_whole: "p < 2 ^ 31 \<Longrightarrow> pid_text p = replicate (4 - length (dec_nat p)) CHR ''0'' @ dec_nat p @ [LF]"
  using dec_nat_len [of p 10] by (simp add: pid_text_def)

text \<open>What a process writes is read back as its number, whatever is behind it in the array.\<close>

lemma lock_pid_text:
  assumes "p < 2 ^ 31"
  shows "lock_pid (Some (take 16 (pid_text p))) junk = Some (int p)"
proof -
  let ?z = "replicate (4 - length (dec_nat p)) CHR ''0''"
  let ?d = "?z @ dec_nat p"
  have t: "pid_text p = ?d @ [LF]" using pid_text_whole [OF assms] by simp
  have len: "length (pid_text p) \<le> 15" by (simp add: pid_text_def)
  have n4: "length (pid_text p) \<noteq> 4" unfolding t by simp
  have dig: "\<forall>c\<in>set ?d. 48 \<le> byte_val c \<and> byte_val c \<le> 57" by (rule pid_digits) simp
  let ?b = "?d @ LF # drop (length (pid_text p)) junk"
  have nz: "c \<noteq> EOS" if "c \<in> set ?d" for c using bspec [OF dig that] by auto
  have cs: "cstring ?b = ?d @ LF # cstring (drop (length (pid_text p)) junk)"
    unfolding cstring_def using nz by (subst takeWhile_append2) auto
  have v: "foldl (\<lambda>a c. a * int 10 + int (digit_val c)) 0 ?d = int p" unfolding foldl_zeros by (rule dec_nat_value)
  have lf: "10 \<le> digit_val LF" by (simp add: digit_val_def Let_def)
  have "?d \<noteq> []" by simp
  then have "strtol 10 (cstring ?b) = (int p, LF # cstring (drop (length (pid_text p)) junk))"
    unfolding cs by (rule strtol_digits [OF _ dig _ v]) (use lf assms in \<open>simp_all add: LONG_MAX_def\<close>)
  moreover obtain c ds where "?d = c # ds" by (cases ?d) auto
  then have "dropWhile isspace ?b = ?b" "length ?d \<ge> 2 \<or> True" using dig by (auto simp: isspace_def)
  moreover have "?b \<noteq> []" "?b \<noteq> ''-''" "?b \<noteq> ''+''"
    using \<open>?d = c # ds\<close> dig by auto
  ultimately have "array_num ?b = Some (c_int (int p))" by (simp add: array_num_def)
  moreover have "c_int (int p) = int p" using assms by (intro c_int_id) simp_all
  ultimately show ?thesis using len n4 by (simp add: lock_pid_def t)
qed

section \<open>What the operations do\<close>

lemma pinfo_keeps:
  "lockname (uu_pinfo msg s) = lockname s" "uu_files (uu_pinfo msg s) = uu_files s" "uu_deny (uu_pinfo msg s) = uu_deny s"
  "uu_pid (uu_pinfo msg s) = uu_pid s" "os_faults (uu_pinfo msg s) = os_faults s" "uu_kill (uu_pinfo msg s) = uu_kill s"
proof -
  have p: "printed s (uu_pinfo msg s)" by (simp add: uu_pinfo_def printed_text)
  then have e: "uu_pinfo msg s = s\<lparr>os_wres := os_wres (uu_pinfo msg s), os_out := os_out (uu_pinfo msg s),
      os_errno := os_errno (uu_pinfo msg s)\<rparr>" unfolding printed_def by blast
  show "lockname (uu_pinfo msg s) = lockname s" "uu_files (uu_pinfo msg s) = uu_files s" "uu_deny (uu_pinfo msg s) = uu_deny s"
    "uu_pid (uu_pinfo msg s) = uu_pid s" "os_faults (uu_pinfo msg s) = os_faults s" "uu_kill (uu_pinfo msg s) = uu_kill s"
    by (subst e, simp)+
qed

lemma usleep_keeps [simp]:
  "lockname (usleep n s) = lockname s" "uu_files (usleep n s) = uu_files s" "uu_deny (usleep n s) = uu_deny s"
  "uu_pid (usleep n s) = uu_pid s" "os_faults (usleep n s) = os_faults s" "uu_kill (usleep n s) = uu_kill s"
  by (simp_all add: usleep_def event_def)

lemma remove_stale_result:
  "lockname (remove_stale s) = lockname s" "uu_deny (remove_stale s) = uu_deny s" "uu_pid (remove_stale s) = uu_pid s"
  "os_faults (remove_stale s) = os_faults s" "uu_kill (remove_stale s) = uu_kill s"
  "uu_files (remove_stale s) = (if uu_deny s (lockname s) then uu_files s else (uu_files s)(lockname s := None))"
  by (simp_all add: remove_stale_def uu_unlink_def Let_def pinfo_keeps)

lemma lock_make_free:
  assumes "uu_files s (lockname s) = None" "\<not> uu_deny s (lockname s)" "os_faults s = []"
  obtains s' where "lock_make s = (0, s')" "uu_files s' = (uu_files s)(lockname s \<mapsto> pid_text (uu_pid s))" "lockname s' = lockname s"
    "uu_deny s' = uu_deny s"
proof -
  let ?s = "s\<lparr>uu_files := (uu_files s)(lockname s \<mapsto> pid_text (uu_pid s))\<rparr>"
  have "lock_make s = (0, ?s)" using assms by (simp add: lock_make_def lock_create_def lock_write_def syscall_def Let_def)
  then show thesis by (rule that) simp_all
qed

lemma lock_look_file:
  assumes "os_faults s = []" "uu_files s (lockname s) = Some b"
    and "lock_pid (Some (take 16 b)) (take 16 (uu_stack s)) = Some pid"
  shows "lock_look s = Some (if pid > 0 \<and> uu_kill s pid = ESRCH then Lock_stale else Lock_held, s)"
  using assms by (simp add: lock_look_def syscall_def)

lemma lock_refused:
  assumes "lockname t \<noteq> []" "os_faults t = []" "uu_files t (lockname t) = Some (pid_text p)" "p < 2 ^ 31"
    and "uu_kill t (int p) \<noteq> ESRCH"
  shows "\<exists>t'. uucp_lock t = Some (-1, t') \<and> uu_files t' = uu_files t \<and> lockname t' = [] \<and> os_errno t' = EEXIST"
proof -
  have "lock_look t = Some (Lock_held, t)"
    using lock_look_file [OF assms(2,3) lock_pid_text [OF assms(4)]] assms(5) by simp
  then show ?thesis using assms(1) by (simp add: uucp_lock_def)
qed

text \<open>When the lock is free or stale, what is left to do is to make the file, with its name free.\<close>

lemma lock_ready:
  assumes "lockname s \<noteq> []" "os_faults s = []" "\<not> uu_deny s (lockname s)"
    and "case uu_files s (lockname s) of
           None \<Rightarrow> True
         | Some b \<Rightarrow> (\<exists>pid. lock_pid (Some (take 16 b)) (take 16 (uu_stack s)) = Some pid \<and> 0 < pid \<and> uu_kill s pid = ESRCH)"
  shows "\<exists>s1. uucp_lock s = Some (lock_make s1) \<and> lockname s1 = lockname s \<and> uu_files s1 = (uu_files s)(lockname s := None) \<and>
    \<not> uu_deny s1 (lockname s1) \<and> os_faults s1 = [] \<and> uu_pid s1 = uu_pid s"
proof (cases "uu_files s (lockname s)")
  case None
  then have "lock_look s = Some (Lock_free, s)" by (simp add: lock_look_def)
  moreover have "(uu_files s)(lockname s := None) = uu_files s" using None by (rule fun_upd_idem)
  ultimately show ?thesis using assms(1-3) by (intro exI [of _ s]) (simp add: uucp_lock_def)
next
  case (Some b)
  then obtain pid where pid: "lock_pid (Some (take 16 b)) (take 16 (uu_stack s)) = Some pid" "0 < pid" "uu_kill s pid = ESRCH"
    using assms(4) by auto
  have "lock_look s = Some (Lock_stale, s)" using lock_look_file [OF assms(2) Some pid(1)] pid(2,3) by simp
  then show ?thesis using assms(1-3)
    by (intro exI [of _ "remove_stale s"]) (simp add: uucp_lock_def remove_stale_result)
qed

section \<open>Properties\<close>

text \<open>
  C26: a lock that is free or stale can be taken: the file then holds the number of the process, and
  as long as that process is alive every other one that asks for the lock is refused and leaves the
  file alone.  Giving the lock back removes the file.
\<close>

theorem uucp_lock_excludes:
  assumes "lockname s \<noteq> []" "os_faults s = []" "\<not> uu_deny s (lockname s)" "uu_pid s < 2 ^ 31"
    and "case uu_files s (lockname s) of
           None \<Rightarrow> True
         | Some b \<Rightarrow> (\<exists>pid. lock_pid (Some (take 16 b)) (take 16 (uu_stack s)) = Some pid \<and> 0 < pid \<and> uu_kill s pid = ESRCH)"
  shows "\<exists>s'. uucp_lock s = Some (0, s') \<and> uu_files s' = (uu_files s)(lockname s \<mapsto> pid_text (uu_pid s)) \<and>
           (\<forall>t. lockname t = lockname s \<and> uu_files t = uu_files s' \<and> os_faults t = [] \<and> uu_kill t (int (uu_pid s)) \<noteq> ESRCH \<longrightarrow>
              (\<exists>t'. uucp_lock t = Some (-1, t') \<and> uu_files t' = uu_files t \<and> lockname t' = [] \<and> os_errno t' = EEXIST)) \<and>
           uu_files (snd (uucp_unlock s')) = (uu_files s)(lockname s := None)"
proof -
  obtain s1 where s1: "uucp_lock s = Some (lock_make s1)" "lockname s1 = lockname s"
    "uu_files s1 = (uu_files s)(lockname s := None)" "\<not> uu_deny s1 (lockname s1)" "os_faults s1 = []" "uu_pid s1 = uu_pid s"
    using lock_ready [OF assms(1,2,3,5)] by metis
  have free: "uu_files s1 (lockname s1) = None" using s1(2,3) by simp
  obtain s' where s': "lock_make s1 = (0, s')" "uu_files s' = (uu_files s1)(lockname s1 \<mapsto> pid_text (uu_pid s1))"
    "lockname s' = lockname s1" "uu_deny s' = uu_deny s1"
    by (rule lock_make_free [OF free s1(4,5)])
  have f': "uu_files s' = (uu_files s)(lockname s \<mapsto> pid_text (uu_pid s))" unfolding s'(2) s1(2,3,6) by simp
  have lock: "uucp_lock s = Some (0, s')" using s1(1) s'(1) by simp
  have others: "\<exists>t'. uucp_lock t = Some (-1, t') \<and> uu_files t' = uu_files t \<and> lockname t' = [] \<and> os_errno t' = EEXIST"
    if t: "lockname t = lockname s \<and> uu_files t = uu_files s' \<and> os_faults t = [] \<and> uu_kill t (int (uu_pid s)) \<noteq> ESRCH" for t
  proof (rule lock_refused)
    show "lockname t \<noteq> []" "os_faults t = []" using t assms(1) by simp_all
    show "uu_files t (lockname t) = Some (pid_text (uu_pid s))" using t f' by simp
    show "uu_pid s < 2 ^ 31" by (rule assms(4))
    show "uu_kill t (int (uu_pid s)) \<noteq> ESRCH" using t by simp
  qed
  have ln: "lockname s' = lockname s" "\<not> uu_deny s' (lockname s')" using s1(2,4) s'(3,4) by simp_all
  have "uu_files (snd (uucp_unlock s')) = (uu_files s')(lockname s' := None)"
    using ln assms(1) by (simp add: uucp_unlock_def uu_unlink_def)
  then have gone: "uu_files (snd (uucp_unlock s')) = (uu_files s)(lockname s := None)" unfolding f' ln(1) by simp
  show ?thesis
    by (rule exI [of _ s'], intro conjI allI impI) (rule lock, rule f', erule others, rule gone)
qed

definition sample_uu :: uu where
  "sample_uu = os.extend sample_os
     \<lparr>lockname = ''/var/lock/LCK..ttyS0'', uu_files = [''/var/lock/LCK..ttyS0'' \<mapsto> pid_text 77], uu_dirs = (\<lambda>d. d = ''/var/lock''),
      uu_deny = (\<lambda>_. False), uu_kill = (\<lambda>p. if p = 77 then ESRCH else 0), uu_pid = 42, uu_umask = 0,
      uu_stack = replicate 16 EOS, uu_quiet = True\<rparr>"

lemma uucp_lock_excludes_witness:
  "\<exists>s'. uucp_lock sample_uu = Some (0, s') \<and> uu_files s' ''/var/lock/LCK..ttyS0'' = Some (pid_text 42)"
proof -
  have f: "lockname sample_uu \<noteq> []" "os_faults sample_uu = []" "\<not> uu_deny sample_uu (lockname sample_uu)" "uu_pid sample_uu < 2 ^ 31"
    "uu_files sample_uu (lockname sample_uu) = Some (pid_text 77)" "uu_kill sample_uu 77 = ESRCH"
    by (simp_all add: sample_uu_def sample_os_def os.extend_def)
  have "\<exists>pid. lock_pid (Some (take 16 (pid_text 77))) (take 16 (uu_stack sample_uu)) = Some pid \<and> 0 < pid \<and> uu_kill sample_uu pid = ESRCH"
    using lock_pid_text [of 77] f(6) by simp
  then show ?thesis
    using uucp_lock_excludes [OF f(1-4)] f(5) by (auto simp: sample_uu_def os.extend_def)
qed

end
