(* ===== verification/Uucp_Race.thy ===== *)
theory Uucp_Race
  imports Uucp_Lock
begin

text \<open>
  Several processes at one lock file: \<^verbatim>\<open>uucp_lock\<close> and \<^verbatim>\<open>uucp_unlock\<close> cut at their system calls and run
  in any order over shared files.  Looking at the file (\<^verbatim>\<open>open\<close>, \<^verbatim>\<open>read\<close> and \<^verbatim>\<open>kill\<close>) is one step.
\<close>

section \<open>The steps of one process\<close>

datatype lock_pc = Pc_look | Pc_stale | Pc_make | Pc_write | Pc_hold | Pc_out

fun lock_phase :: "lock_pc \<Rightarrow> uu \<Rightarrow> (lock_pc \<times> uu) option" where
  "lock_phase Pc_look s =
     (if lockname s = [] then Some (Pc_hold, s)
      else
        (case lock_look s of
           None \<Rightarrow> None
         | Some (Lock_free, s) \<Rightarrow> Some (Pc_make, s)
         | Some (Lock_stale, s) \<Rightarrow> Some (Pc_stale, s)
         | Some (Lock_held, s) \<Rightarrow> Some (Pc_out, s\<lparr>lockname := [], os_errno := EEXIST\<rparr>)))"
| "lock_phase Pc_stale s = Some (Pc_make, remove_stale s)"
| "lock_phase Pc_make s = Some (case lock_create s of (ok, s) \<Rightarrow> (if ok then Pc_write else Pc_out, s))"
| "lock_phase Pc_write s = Some (Pc_hold, lock_write s)"
| "lock_phase Pc_hold s = Some (Pc_out, snd (uucp_unlock s))"
| "lock_phase Pc_out s = None"

text \<open>The steps one after the other are the function: at most four, and every step defined or the whole undefined.\<close>

fun lock_run :: "nat \<Rightarrow> lock_pc \<Rightarrow> uu \<Rightarrow> (int \<times> uu) option" where
  "lock_run n Pc_hold s = Some (0, s)"
| "lock_run n Pc_out s = Some (-1, s)"
| "lock_run 0 pc s = None"
| "lock_run (Suc n) pc s = Option.bind (lock_phase pc s) (\<lambda>(pc, s). lock_run n pc s)"

section \<open>Processes side by side\<close>

record lock_world =
  lw_files :: "string \<Rightarrow> byte list option"
  lw_pc :: "nat \<Rightarrow> lock_pc"
  lw_proc :: "nat \<Rightarrow> uu"

definition lw_view :: "lock_world \<Rightarrow> nat \<Rightarrow> uu" where
  "lw_view w p = (lw_proc w p)\<lparr>uu_files := lw_files w\<rparr>"

definition lw_put :: "nat \<Rightarrow> lock_pc \<Rightarrow> uu \<Rightarrow> lock_world \<Rightarrow> lock_world" where
  "lw_put p pc s w = w\<lparr>lw_files := uu_files s, lw_pc := (lw_pc w)(p := pc), lw_proc := (lw_proc w)(p := s)\<rparr>"

definition lw_step :: "nat \<Rightarrow> lock_world \<Rightarrow> lock_world option" where
  "lw_step p w = map_option (\<lambda>(pc, s). lw_put p pc s w) (lock_phase (lw_pc w p) (lw_view w p))"

inductive lock_steps :: "nat set \<Rightarrow> lock_world \<Rightarrow> lock_world \<Rightarrow> bool" for P w where
  ls_refl: "lock_steps P w w"
| ls_step: "lock_steps P w w1 \<Longrightarrow> p \<in> P \<Longrightarrow> lw_step p w1 = Some w2 \<Longrightarrow> lock_steps P w w2"

text \<open>
  A process that takes part, with its own number: every process of the set is alive for it, and what its
  array holds, read when the file is still empty, is not the number of a process that is gone.
\<close>

definition racer :: "nat set \<Rightarrow> string \<Rightarrow> nat \<Rightarrow> uu \<Rightarrow> bool" where
  "racer P L p s \<longleftrightarrow> lockname s = L \<and> os_faults s = [] \<and> uu_pid s = p \<and> p < 2 ^ 31 \<and> (\<forall>q\<in>P. uu_kill s (int q) \<noteq> ESRCH) \<and>
     (case lock_pid (Some []) (take 16 (uu_stack s)) of None \<Rightarrow> True | Some q \<Rightarrow> \<not> (q > 0 \<and> uu_kill s q = ESRCH))"

lemma racer_iff:
  "racer P L p s \<longleftrightarrow> lockname s = L \<and> os_faults s = [] \<and> uu_pid s = p \<and> p < 2 ^ 31 \<and> (\<forall>q\<in>P. uu_kill s (int q) \<noteq> ESRCH) \<and>
     (\<forall>q. lock_pid (Some []) (take 16 (uu_stack s)) = Some q \<longrightarrow> \<not> (q > 0 \<and> uu_kill s q = ESRCH))"
  by (auto simp: racer_def split: option.split)

lemma lw_put_simps [simp]:
  "lw_files (lw_put p pc s w) = uu_files s" "lw_pc (lw_put p pc s w) = (lw_pc w)(p := pc)"
  "lw_proc (lw_put p pc s w) = (lw_proc w)(p := s)"
  by (simp_all add: lw_put_def)

lemma lw_view_simps [simp]:
  "uu_files (lw_view w p) = lw_files w" "lockname (lw_view w p) = lockname (lw_proc w p)"
  "os_faults (lw_view w p) = os_faults (lw_proc w p)" "uu_pid (lw_view w p) = uu_pid (lw_proc w p)"
  "uu_kill (lw_view w p) = uu_kill (lw_proc w p)" "uu_stack (lw_view w p) = uu_stack (lw_proc w p)"
  "uu_deny (lw_view w p) = uu_deny (lw_proc w p)"
  by (simp_all add: lw_view_def)

lemma racer_files [simp]: "racer P L p (s\<lparr>uu_files := f\<rparr>) = racer P L p s" "racer P L p (lw_view w p) = racer P L p (lw_proc w p)"
  by (simp_all add: racer_iff lw_view_def)

lemma racer_umask [simp]: "racer P L p (s\<lparr>uu_umask := m\<rparr>) = racer P L p s"
  by (simp add: racer_iff)

section \<open>What a step does\<close>

lemma create_racer:
  assumes "racer P L p s" "lock_create s = (ok, s')"
  shows "if ok then racer P L p s' \<and> uu_files s L = None \<and> uu_files s' = (uu_files s)(L \<mapsto> []) else uu_files s' = uu_files s"
  using assms by (auto simp: lock_create_def Let_def racer_iff split: if_splits)

lemma write_racer: "racer P L p s \<Longrightarrow> racer P L p (lock_write s) \<and> uu_files (lock_write s) = (uu_files s)(L \<mapsto> pid_text p)"
  by (simp add: lock_write_def syscall_def racer_iff)

lemma unlock_racer: "racer P L p s \<Longrightarrow> uu_files (snd (uucp_unlock s)) \<in> {uu_files s, (uu_files s)(L := None)}"
  by (auto simp: uucp_unlock_def uu_unlink_def racer_iff)

text \<open>A file that a live process holds, or that is not yet written, is never taken for a stale one.\<close>

lemma look_racer:
  assumes "racer P L p s" "L \<noteq> []" "uu_files s L \<in> {None, Some []} \<union> (Some \<circ> pid_text) ` P" "\<forall>q\<in>P. q < 2 ^ 31"
    and "lock_phase Pc_look s = Some (pc, s')"
  shows "uu_files s' = uu_files s \<and> (pc = Pc_make \<and> racer P L p s' \<or> pc = Pc_out)"
proof (cases "uu_files s L")
  case None
  then have "lock_look s = Some (Lock_free, s)" using assms(1) by (simp add: lock_look_def racer_iff)
  then show ?thesis using assms(1,2,5) by (simp add: racer_iff)
next
  case (Some b)
  have f: "os_faults s = []" "lockname s = L" using assms(1) by (simp_all add: racer_iff)
  have "lock_look s = Some (Lock_held, s) \<or> lock_look s = None"
  proof (cases "b = []")
    case True
    then show ?thesis using assms(1) Some f
      by (cases "lock_pid (Some []) (take 16 (uu_stack s))") (simp_all add: lock_look_def syscall_def racer_iff)
  next
    case False
    then obtain q where q: "q \<in> P" "b = pid_text q" using assms(3) Some by auto
    have "lock_pid (Some (take 16 b)) (take 16 (uu_stack s)) = Some (int q)"
      unfolding q(2) using assms(4) q(1) by (simp add: lock_pid_text)
    then have "lock_look s = Some (if int q > 0 \<and> uu_kill s (int q) = ESRCH then Lock_stale else Lock_held, s)"
      using lock_look_file f Some by simp
    moreover have "uu_kill s (int q) \<noteq> ESRCH" using assms(1) q(1) by (simp add: racer_iff)
    ultimately show ?thesis by simp
  qed
  then show ?thesis using assms(2,5) f by auto
qed

section \<open>The invariant\<close>

definition in_lock :: "lock_world \<Rightarrow> nat \<Rightarrow> bool" where
  "in_lock w p \<longleftrightarrow> lw_pc w p = Pc_write \<or> lw_pc w p = Pc_hold"

definition lock_inv :: "nat set \<Rightarrow> string \<Rightarrow> lock_world \<Rightarrow> bool" where
  "lock_inv P L w \<longleftrightarrow>
     (\<forall>p\<in>P. lw_pc w p \<noteq> Pc_stale \<and> (lw_pc w p \<noteq> Pc_out \<longrightarrow> racer P L p (lw_proc w p))) \<and>
     lw_files w L \<in> {None, Some []} \<union> (Some \<circ> pid_text) ` P \<and>
     (\<forall>p\<in>P. in_lock w p \<longrightarrow> lw_files w L \<noteq> None \<and> (\<forall>q\<in>P. in_lock w q \<longrightarrow> q = p) \<and>
        (lw_pc w p = Pc_hold \<longrightarrow> lw_files w L = Some (pid_text p)))"

lemma lock_invI:
  assumes "lock_inv P L w" "p \<in> P" "pc \<noteq> Pc_stale" "pc \<noteq> Pc_out \<Longrightarrow> racer P L p s"
    and "uu_files s L \<in> {None, Some []} \<union> (Some \<circ> pid_text) ` P"
    and "uu_files s L = lw_files w L \<or> (\<forall>q\<in>P. in_lock w q \<longrightarrow> q = p)"
    and "pc = Pc_write \<or> pc = Pc_hold \<Longrightarrow> uu_files s L \<noteq> None \<and> (\<forall>q\<in>P. in_lock w q \<longrightarrow> q = p)"
    and "pc = Pc_hold \<Longrightarrow> uu_files s L = Some (pid_text p)"
  shows "lock_inv P L (lw_put p pc s w)"
  unfolding lock_inv_def
proof (intro conjI ballI impI)
  fix q assume q: "q \<in> P"
  show "lw_pc (lw_put p pc s w) q \<noteq> Pc_stale" using assms(1,3) q by (simp add: lock_inv_def)
  show "racer P L q (lw_proc (lw_put p pc s w) q)" if "lw_pc (lw_put p pc s w) q \<noteq> Pc_out"
    using assms(1,4) q that by (cases "q = p") (simp_all add: lock_inv_def)
  assume i: "in_lock (lw_put p pc s w) q"
  have e: "in_lock (lw_put p pc s w) r \<longleftrightarrow> (if r = p then pc = Pc_write \<or> pc = Pc_hold else in_lock w r)" for r
    by (simp add: in_lock_def)
  have old: "q \<noteq> p \<Longrightarrow> in_lock w q" using i e by simp
  show "lw_files (lw_put p pc s w) L \<noteq> None"
    using assms(1,2,6,7) i e old q unfolding lock_inv_def lw_put_simps by metis
  show "r = q" if "r \<in> P" "in_lock (lw_put p pc s w) r" for r
    using assms(1,2,7) i that q unfolding e lock_inv_def by metis
  show "lw_files (lw_put p pc s w) L = Some (pid_text q)" if "lw_pc (lw_put p pc s w) q = Pc_hold"
  proof (cases "q = p")
    case True
    then show ?thesis using assms(8) that by simp
  next
    case False
    then have "lw_pc w q = Pc_hold" "in_lock w q" using that old by simp_all
    then show ?thesis using assms(1,6) False q unfolding lock_inv_def lw_put_simps by metis
  qed
qed (use assms(5) in simp)

lemma lock_inv_step:
  assumes inv: "lock_inv P L w" and p: "p \<in> P" "\<forall>q\<in>P. q < 2 ^ 31" "L \<noteq> []" and step: "lw_step p w = Some w'"
  shows "lock_inv P L w'"
proof -
  obtain pc s where ph: "lock_phase (lw_pc w p) (lw_view w p) = Some (pc, s)" and w': "w' = lw_put p pc s w"
    using step by (auto simp: lw_step_def)
  have live: "lw_pc w p \<noteq> Pc_out" "lw_pc w p \<noteq> Pc_stale" using ph inv p(1) by (auto simp: lock_inv_def)
  then have r: "racer P L p (lw_view w p)" using inv p(1) by (simp add: lock_inv_def)
  have files: "uu_files (lw_view w p) L \<in> {None, Some []} \<union> (Some \<circ> pid_text) ` P" using inv by (simp add: lock_inv_def)
  have one: "\<forall>q\<in>P. in_lock w q \<longrightarrow> q = p" if "in_lock w p" using inv p(1) that unfolding lock_inv_def by blast
  have none: "\<forall>q\<in>P. \<not> in_lock w q" if "lw_files w L = None" using inv that unfolding lock_inv_def by blast
  have pid: "Some (pid_text p) \<in> {None, Some []} \<union> (Some \<circ> pid_text) ` P" using p(1) by auto
  define F where "F = {None, Some []} \<union> (Some \<circ> pid_text) ` P"
  note inv = lock_invI [OF inv p(1), folded F_def] and files = files [folded F_def] and pid = pid [folded F_def]
  have F: "None \<in> F" "Some [] \<in> F" by (simp_all add: F_def)
  show ?thesis
  proof (cases "lw_pc w p")
    case Pc_look
    then have "uu_files s = lw_files w" "pc = Pc_make \<and> racer P L p s \<or> pc = Pc_out"
      using look_racer [OF r p(3) _ p(2), folded F_def, OF files] ph by simp_all
    then show ?thesis unfolding w' by (intro inv) (use files in auto)
  next
    case Pc_make
    obtain ok s1 where c: "lock_create (lw_view w p) = (ok, s1)" by fastforce
    then have e: "pc = (if ok then Pc_write else Pc_out)" "s = s1" using ph Pc_make by auto
    note cr = create_racer [OF r c, folded e(2), unfolded lw_view_simps]
    show ?thesis
    proof (cases ok)
      case True
      then have "racer P L p s" "lw_files w L = None" "uu_files s L = Some []" "pc = Pc_write" using cr e(1) by simp_all
      then show ?thesis unfolding w' by (intro inv) (use F none in auto)
    next
      case False
      then have "uu_files s = lw_files w" "pc = Pc_out" using cr e(1) by simp_all
      then show ?thesis unfolding w' by (intro inv) (use files in auto)
    qed
  next
    case Pc_write
    then have "pc = Pc_hold" "racer P L p s" "uu_files s L = Some (pid_text p)" using ph write_racer [OF r] by auto
    moreover have "\<forall>q\<in>P. in_lock w q \<longrightarrow> q = p" using one Pc_write by (simp add: in_lock_def)
    ultimately show ?thesis unfolding w' by (intro inv) (use pid in auto)
  next
    case Pc_hold
    then have "pc = Pc_out" "uu_files s L = lw_files w L \<or> uu_files s L = None" using ph unlock_racer [OF r] by auto
    moreover have "\<forall>q\<in>P. in_lock w q \<longrightarrow> q = p" using one Pc_hold by (simp add: in_lock_def)
    ultimately show ?thesis unfolding w' by (intro inv) (use files F in auto)
  qed (use live in simp_all)
qed

lemma lock_inv_steps:
  assumes "lock_steps P w w'" "lock_inv P L w" "\<forall>q\<in>P. q < 2 ^ 31" "L \<noteq> []"
  shows "lock_inv P L w'"
  using assms(1) by induction (use assms lock_inv_step in blast)+

section \<open>A stale lock\<close>

lemma lock_steps_trans: "lock_steps P w1 w2 \<Longrightarrow> lock_steps P w w1 \<Longrightarrow> lock_steps P w w2"
  by (induction rule: lock_steps.induct) (auto intro: ls_step)

lemma lw_stepI: "lock_phase (lw_pc w p) (lw_view w p) = Some (pc, s) \<Longrightarrow> lw_step p w = Some (lw_put p pc s w)"
  by (simp add: lw_step_def)

definition can_make :: "string \<Rightarrow> uu \<Rightarrow> bool" where
  "can_make L s \<longleftrightarrow> lockname s = L \<and> L \<noteq> [] \<and> os_faults s = [] \<and> \<not> uu_deny s L"

definition sees_stale :: "byte list \<Rightarrow> uu \<Rightarrow> bool" where
  "sees_stale b s \<longleftrightarrow>
     (case lock_pid (Some (take 16 b)) (take 16 (uu_stack s)) of None \<Rightarrow> False | Some pid \<Rightarrow> 0 < pid \<and> uu_kill s pid = ESRCH)"

lemma look_stale:
  assumes "i \<in> P" "lw_pc w i = Pc_look" "can_make L (lw_proc w i)" "lw_files w L = Some b" "sees_stale b (lw_proc w i)"
  shows "\<exists>w'. lock_steps P w w' \<and> lw_pc w' = (lw_pc w)(i := Pc_stale) \<and> lw_files w' = lw_files w \<and>
           can_make L (lw_proc w' i) \<and> (\<forall>j. j \<noteq> i \<longrightarrow> lw_proc w' j = lw_proc w j)"
proof -
  obtain pid where "lock_pid (Some (take 16 b)) (take 16 (uu_stack (lw_proc w i))) = Some pid" "0 < pid" "uu_kill (lw_proc w i) pid = ESRCH"
    using assms(5) by (auto simp: sees_stale_def split: option.splits)
  then have "lock_look (lw_view w i) = Some (Lock_stale, lw_view w i)"
    using lock_look_file [of "lw_view w i" b pid] assms(3,4) by (simp add: can_make_def)
  then have "lw_step i w = Some (lw_put i Pc_stale (lw_view w i) w)"
    by (intro lw_stepI) (use assms(2,3) in \<open>simp add: can_make_def\<close>)
  then have "lock_steps P w (lw_put i Pc_stale (lw_view w i) w)" by (rule ls_step [OF ls_refl assms(1)])
  then show ?thesis 
    by (intro exI [of _ "lw_put i Pc_stale (lw_view w i) w"]) (use assms(3) in \<open>simp add: can_make_def\<close>)
qed

lemma make_hold:
  assumes "i \<in> P" "lw_pc w i = Pc_make" "can_make L (lw_proc w i)" "lw_files w L = None"
  shows "\<exists>w'. lock_steps P w w' \<and> lw_pc w' = (lw_pc w)(i := Pc_hold) \<and> (\<forall>j. j \<noteq> i \<longrightarrow> lw_proc w' j = lw_proc w j)"
proof -
  obtain s2 where s2: "lock_create (lw_view w i) = (True, s2)" using assms(3,4) by (auto simp: can_make_def lock_create_def Let_def)
  let ?w2 = "lw_put i Pc_write s2 w"
  have st2: "lw_step i w = Some ?w2" by (rule lw_stepI) (simp add: assms(2) s2)
  let ?w3 = "lw_put i Pc_hold (lock_write (lw_view ?w2 i)) ?w2"
  have st3: "lw_step i ?w2 = Some ?w3" by (rule lw_stepI) simp
  have "lock_steps P w ?w3" using ls_step [OF ls_step [OF ls_refl assms(1) st2] assms(1) st3] .
  then show ?thesis by (intro exI [of _ ?w3]) simp
qed

lemma stale_hold:
  assumes "i \<in> P" "lw_pc w i = Pc_stale" "can_make L (lw_proc w i)"
  shows "\<exists>w'. lock_steps P w w' \<and> lw_pc w' = (lw_pc w)(i := Pc_hold) \<and> (\<forall>j. j \<noteq> i \<longrightarrow> lw_proc w' j = lw_proc w j)"
proof -
  let ?s1 = "remove_stale (lw_view w i)"
  let ?w1 = "lw_put i Pc_make ?s1 w"
  have s1: "can_make L ?s1" "uu_files ?s1 L = None" using assms(3) by (simp_all add: can_make_def remove_stale_result)
  have st1: "lw_step i w = Some ?w1" by (rule lw_stepI) (simp add: assms(2))
  have "lock_steps P w ?w1" using ls_step [OF ls_refl assms(1) st1] .
  moreover obtain w' where "lock_steps P ?w1 w'" "lw_pc w' = (lw_pc ?w1)(i := Pc_hold)" "\<forall>j. j \<noteq> i \<longrightarrow> lw_proc w' j = lw_proc ?w1 j"
    using make_hold [of i P ?w1 L] assms(1) s1 by auto
  ultimately show ?thesis using lock_steps_trans by (intro exI [of _ w']) auto
qed

section \<open>Properties\<close>

text \<open>The steps, run one after the other by one process, are \<^verbatim>\<open>uucp_lock\<close>; four are always enough.\<close>

theorem lock_steps_sequential: "lock_run 4 Pc_look s = uucp_lock s"
proof -
  have m: "(case (case lock_create s of (ok, s) \<Rightarrow> (if ok then Pc_write else Pc_out, s)) of (pc, s) \<Rightarrow> lock_run (Suc n) pc s) =
    Some (lock_make s)" for n s
    by (cases "lock_create s") (simp add: lock_make_def)
  have "lock_run (Suc (Suc (Suc (Suc 0)))) Pc_look s = uucp_lock s"
  proof (cases "lock_look s")
    case (Some x)
    then obtain st t where "lock_look s = Some (st, t)" by (cases x) auto
    then show ?thesis by (cases st) (simp_all add: uucp_lock_def m)
  qed (simp add: uucp_lock_def)
  then show ?thesis by (simp only: numeral_eq_Suc pred_numeral_simps BitM.simps numeral_One One_nat_def) 
qed


definition sample_race :: lock_world where
  "sample_race = \<lparr>lw_files = Map.empty, lw_pc = (\<lambda>_. Pc_look), lw_proc = (\<lambda>p. sample_uu\<lparr>uu_pid := p\<rparr>)\<rparr>"

text \<open>
  C38: the lock does not exclude when it is stale: two processes that both found it stale both end
  with the lock, the slower one having removed the file of the other.
\<close>

theorem stale_lock_race:
  assumes "p \<noteq> q" "lw_pc w p = Pc_look" "lw_pc w q = Pc_look" "can_make L (lw_proc w p)" "can_make L (lw_proc w q)"
    and "lw_files w L = Some b" "sees_stale b (lw_proc w p)" "sees_stale b (lw_proc w q)"
  shows "\<exists>w'. lock_steps {p, q} w w' \<and> lw_pc w' p = Pc_hold \<and> lw_pc w' q = Pc_hold"
proof -
  let ?P = "{p, q}"
  have P: "p \<in> ?P" "q \<in> ?P" by simp_all
  obtain w1 where w1: "lock_steps ?P w w1" "lw_pc w1 = (lw_pc w)(p := Pc_stale)" "lw_files w1 = lw_files w"
    "can_make L (lw_proc w1 p)" "\<forall>j. j \<noteq> p \<longrightarrow> lw_proc w1 j = lw_proc w j"
    using look_stale [OF P(1) assms(2,4,6,7)] by blast
  have q1: "lw_pc w1 q = Pc_look" "can_make L (lw_proc w1 q)" "lw_files w1 L = Some b" "sees_stale b (lw_proc w1 q)"
    using w1(2,3,5) assms by simp_all
  obtain w2 where w2: "lock_steps ?P w1 w2" "lw_pc w2 = (lw_pc w1)(q := Pc_stale)" "can_make L (lw_proc w2 q)"
    "\<forall>j. j \<noteq> q \<longrightarrow> lw_proc w2 j = lw_proc w1 j"
    using look_stale [OF P(2) q1] by blast
  have p2: "lw_pc w2 p = Pc_stale" "can_make L (lw_proc w2 p)" using w1(2,4) w2(2,4) assms(1) by simp_all
  obtain w3 where w3: "lock_steps ?P w2 w3" "lw_pc w3 = (lw_pc w2)(p := Pc_hold)" "\<forall>j. j \<noteq> p \<longrightarrow> lw_proc w3 j = lw_proc w2 j"
    using stale_hold [OF P(1) p2] by blast
  have q3: "lw_pc w3 q = Pc_stale" "can_make L (lw_proc w3 q)" using w2(2,3) w3(2,3) assms(1) by simp_all
  obtain w4 where w4: "lock_steps ?P w3 w4" "lw_pc w4 = (lw_pc w3)(q := Pc_hold)"
    using stale_hold [OF P(2) q3] by blast
  have "lock_steps ?P w w4"
    using lock_steps_trans [OF w4(1) lock_steps_trans [OF w3(1) lock_steps_trans [OF w2(1) w1(1)]]] .
  then show ?thesis using w3(2) w4(2) assms(1) by (intro exI [of _ w4]) simp
qed

lemma stale_lock_race_witness:
  "\<exists>w'. lock_steps {42, 43} (sample_race\<lparr>lw_files := uu_files sample_uu\<rparr>) w' \<and> lw_pc w' 42 = Pc_hold \<and> lw_pc w' 43 = Pc_hold"
proof -
  have "can_make ''/var/lock/LCK..ttyS0'' (lw_proc sample_race i)" for i
    by (simp add: can_make_def sample_race_def sample_uu_def sample_os_def os.extend_def)
  moreover have "sees_stale (pid_text 77) (lw_proc sample_race i)" for i
    using lock_pid_text [of 77] by (simp add: sees_stale_def sample_race_def sample_uu_def os.extend_def)
  ultimately show ?thesis
    by (intro stale_lock_race [of _ _ _ "''/var/lock/LCK..ttyS0''" "pid_text 77"])
       (simp_all add: sample_race_def sample_uu_def os.extend_def)
qed


end
