(* ===== verification/Fd_Classes.thy ===== *)
theory Fd_Classes
  imports Fdio
begin

text \<open>
  The classes of \<^verbatim>\<open>src/libffwd\<close> that hold a descriptor: \<^verbatim>\<open>Pipe\<close>, \<^verbatim>\<open>FileDescriptor\<close>, \<^verbatim>\<open>FifoDes\<close> and
  \<^verbatim>\<open>SocketClient\<close>.  The state has the open descriptors; a new one is the lowest that is free.  What an object
  opens its destructor is to close, and nothing else.  Messages of \<^verbatim>\<open>qLogE\<close> and \<^verbatim>\<open>std::cerr\<close> are left out.
\<close>

section \<open>Descriptors\<close>

text \<open>
  \<open>fw_pton\<close> is the address \<^verbatim>\<open>inet_pton\<close> finds in a text, \<open>fw_conn\<close> the connections asked for: descriptor,
  address and port in host order.
\<close>

record fdw = os +
  fw_open :: "int list"
  fw_pton :: "string \<Rightarrow> 32 word option"
  fw_conn :: "(int \<times> 32 word \<times> 16 word) list"

text \<open>How a call of a method ends; the object is there in every case.\<close>

datatype 'r fc_res = Fc_ret 'r | Fc_throw string | Fc_undef

definition ENOENT :: nat where "ENOENT = 2"
definition EBADF :: nat where "EBADF = 9"

definition fresh_fd :: "int list \<Rightarrow> int" where
  "fresh_fd fds = hd (filter (\<lambda>n. n \<notin> set fds) (List.map int [0..<Suc (length fds)]))"

text \<open>A call that returns a new descriptor, or fails (-1).\<close>

definition fw_new :: "fdw \<Rightarrow> int \<times> fdw" where
  "fw_new s =
     (case syscall (\<lambda>s. s\<lparr>fw_open := fresh_fd (fw_open s) # fw_open s\<rparr>) s of
        (False, s') \<Rightarrow> (-1, s')
      | (True, s') \<Rightarrow> (fresh_fd (fw_open s), s'))"

text \<open>\<^verbatim>\<open>close\<close>: a descriptor that is not open is an error; an open one is gone even when the call fails.\<close>

definition fw_close :: "int \<Rightarrow> fdw \<Rightarrow> bool \<times> fdw" where
  "fw_close fd s =
     (if fd \<in> set (fw_open s) then syscall (\<lambda>s. s) ((os_close fd s)\<lparr>fw_open := removeAll fd (fw_open s)\<rparr>)
      else (False, s\<lparr>os_errno := EBADF\<rparr>))"

definition fw_read :: "int \<Rightarrow> nat \<Rightarrow> fdw \<Rightarrow> (nat + byte list) \<times> fdw" where
  "fw_read fd n s = (if fd \<in> set (fw_open s) then os_read fd n s else (Inl EBADF, s\<lparr>os_errno := EBADF\<rparr>))"

definition fw_write :: "int \<Rightarrow> byte list \<Rightarrow> fdw \<Rightarrow> int \<times> fdw" where
  "fw_write fd bs s = (if fd \<in> set (fw_open s) then os_write fd bs s else (-1, s\<lparr>os_errno := EBADF\<rparr>))"

section \<open>Pipe\<close>

record pipe =
  pipe_rd :: int
  pipe_wr :: int

definition pipe_new :: "fdw \<Rightarrow> pipe fc_res \<times> fdw" where
  "pipe_new s =
     (let r = fresh_fd (fw_open s); w = fresh_fd (r # fw_open s) in
      case syscall (\<lambda>s. s\<lparr>fw_open := w # r # fw_open s\<rparr>) s of
        (False, s) \<Rightarrow> (Fc_throw ''Failed to create pipe'', s)
      | (True, s) \<Rightarrow> (Fc_ret \<lparr>pipe_rd = r, pipe_wr = w\<rparr>, s))"

definition pipe_destroy :: "pipe \<Rightarrow> fdw \<Rightarrow> fdw" where
  "pipe_destroy p s = snd (fw_close (pipe_wr p) (snd (fw_close (pipe_rd p) s)))"

text \<open>The bytes read are thrown away, the number of them is the result.\<close>

definition pipe_read :: "pipe \<Rightarrow> fdw \<Rightarrow> int fc_res \<times> fdw" where
  "pipe_read p s =
     (case fw_read (pipe_rd p) 1024 s of
        (Inl _, s) \<Rightarrow> (Fc_throw ''Failed to read from pipe'', s)
      | (Inr bs, s) \<Rightarrow> (Fc_ret (int (length bs)), s))"

definition pipe_write :: "byte list \<Rightarrow> pipe \<Rightarrow> fdw \<Rightarrow> int fc_res \<times> fdw" where
  "pipe_write data p s =
     (case fw_write (pipe_wr p) data s of
        (n, s) \<Rightarrow> (if n < 0 then Fc_throw ''Failed to write to pipe'' else Fc_ret 0, s))"

section \<open>FileDescriptor\<close>

text \<open>The object is its descriptor.\<close>

definition fd_new :: int where "fd_new = -1"

definition fd_open_file :: "int \<Rightarrow> fdw \<Rightarrow> int fc_res \<times> int \<times> fdw" where
  "fd_open_file fd s =
     (case fw_new s of (fd, s) \<Rightarrow> (if fd = -1 then Fc_throw ''Failed to open file descriptor'' else Fc_ret 0, fd, s))"

text \<open>The parameter has the name of the member, so the member keeps its value.\<close>

definition fd_close :: "int \<Rightarrow> fdw \<Rightarrow> int fc_res \<times> fdw" where
  "fd_close arg s =
     (if arg \<noteq> -1 then
        (case fw_close arg s of
           (False, s) \<Rightarrow> (Fc_throw ''Failed to close file descriptor'', s)
         | (True, s) \<Rightarrow> (Fc_ret 0, s))
      else (Fc_ret 0, s))"

text \<open>An exception that leaves a destructor ends the program: \<open>None\<close>.\<close>

definition fd_destroy :: "int \<Rightarrow> fdw \<Rightarrow> fdw option" where
  "fd_destroy fd s =
     (if fd \<noteq> -1 then (case fd_close fd s of (Fc_ret _, s) \<Rightarrow> Some s | _ \<Rightarrow> None) else Some s)"

definition fd_read :: "int \<Rightarrow> nat \<Rightarrow> fdw \<Rightarrow> (nat + byte list) fc_res \<times> fdw" where
  "fd_read fd n s =
     (if fd = -1 then (Fc_throw ''File descriptor is not open'', s)
      else (case fw_read fd n s of (r, s) \<Rightarrow> (Fc_ret r, s)))"

section \<open>FifoDes\<close>

record fifodes =
  fifoPath :: string
  fifoFd :: int

text \<open>The argument of the constructor is not used.\<close>

definition fifo_new :: "string \<Rightarrow> fifodes" where
  "fifo_new path = \<lparr>fifoPath = ''/tmp/ffwd_fifo'', fifoFd = -1\<rparr>"

definition create_fifo :: "fdw \<Rightarrow> int fc_res \<times> fdw" where
  "create_fifo s =
     (case syscall (\<lambda>s. s) (snd (syscall (\<lambda>s. s) s)) of
        (False, s) \<Rightarrow> (Fc_throw ''Failed to create FifoDes'', s)
      | (True, s) \<Rightarrow> (Fc_ret 0, s))"

text \<open>The result is a \<^verbatim>\<open>bool\<close> as a number.\<close>

definition open_fifo :: "fifodes \<Rightarrow> fdw \<Rightarrow> int \<times> fifodes \<times> fdw" where
  "open_fifo f s =
     (case fw_new s of
        (fd, s) \<Rightarrow> if fd < 0 then (0, f\<lparr>fifoFd := fd\<rparr>, event (E_stderr ''Failed to open FIFO'') s) else (1, f\<lparr>fifoFd := fd\<rparr>, s))"

definition fifo_init :: "fifodes \<Rightarrow> fdw \<Rightarrow> int fc_res \<times> fifodes \<times> fdw" where
  "fifo_init f s =
     (case create_fifo s of
        (Fc_ret _, s) \<Rightarrow>
          (case open_fifo f s of
             (r, f, s) \<Rightarrow>
               (let f = f\<lparr>fifoFd := r\<rparr> in
                if fifoFd f < 0 then (Fc_throw ''Failed to open FifoDes'', f, s) else (Fc_ret 0, f, s)))
      | (e, s) \<Rightarrow> (e, f, s))"

text \<open>\<^verbatim>\<open>write_fifo\<close> hands a local variable that was never set to \<^verbatim>\<open>write\<close>.\<close>

definition write_fifo :: "fifodes \<Rightarrow> byte list \<Rightarrow> fdw \<Rightarrow> int fc_res \<times> fdw" where
  "write_fifo f msg s = (if fifoFd f < 0 then Fc_throw ''Failed to open FifoDes for writing'' else Fc_undef, s)"

text \<open>An array of size 0 is not defined.  The buffer is only set when something was read.\<close>

definition read_fifo :: "fifodes \<Rightarrow> byte list \<Rightarrow> nat \<Rightarrow> fdw \<Rightarrow> int fc_res \<times> byte list \<times> fdw" where
  "read_fifo f buf n s =
     (if fifoFd f < 0 then (Fc_ret (-1), buf, s)
      else if n = 0 then (Fc_undef, buf, s)
      else
        (case fw_read (fifoFd f) n s of
           (Inl _, s) \<Rightarrow> (Fc_ret (-1), buf, s)
         | (Inr bs, s) \<Rightarrow> (Fc_ret (int (length bs)), if bs \<noteq> [] then bs else buf, s)))"

definition close_fifo :: "fifodes \<Rightarrow> fdw \<Rightarrow> fdw" where
  "close_fifo f s = (if fifoFd f > 0 then snd (fw_close (fifoFd f) s) else s)"

section \<open>SocketClient\<close>

text \<open>The object is its descriptor, -1 when there is none.  The result of \<^verbatim>\<open>inet_pton\<close> is not looked at.\<close>

definition sc_new :: int where "sc_new = -1"

definition sc_connect :: "string \<Rightarrow> int \<Rightarrow> int \<Rightarrow> fdw \<Rightarrow> bool \<times> int \<times> fdw" where
  "sc_connect ip port sock s =
     (case fw_new s of
        (fd, s) \<Rightarrow>
          if fd < 0 then (False, fd, s)
          else
            (let addr = (case fw_pton s ip of None \<Rightarrow> 0 | Some a \<Rightarrow> a) in
             case syscall (\<lambda>s. s\<lparr>fw_conn := fw_conn s @ [(fd, addr, word_of_int port)]\<rparr>) s of
               (False, s) \<Rightarrow> (False, -1, snd (fw_close fd s))
             | (True, s) \<Rightarrow> (True, fd, s)))"

definition sc_disconnect :: "int \<Rightarrow> fdw \<Rightarrow> int \<times> fdw" where
  "sc_disconnect sock s = (if sock \<noteq> -1 then (-1, snd (fw_close sock s)) else (sock, s))"

definition sc_send :: "byte list \<Rightarrow> int \<Rightarrow> fdw \<Rightarrow> bool \<times> fdw" where
  "sc_send msg sock s =
     (if sock = -1 then (False, s) else (case fw_write sock msg s of (n, s) \<Rightarrow> (\<not> n < 0, s)))"

definition sc_destroy :: "int \<Rightarrow> fdw \<Rightarrow> fdw" where
  "sc_destroy sock s = snd (sc_disconnect sock s)"

section \<open>Objects and what they own\<close>

text \<open>
  Calls of methods up to the end of the block or the first exception; \<open>okay\<close> says of each call whether the
  object may be used so in its present state.
\<close>

fun uses :: "('op \<Rightarrow> 'o \<Rightarrow> fdw \<Rightarrow> 'r fc_res \<times> 'o \<times> fdw) \<Rightarrow> 'op list \<Rightarrow> 'o \<Rightarrow> fdw \<Rightarrow> 'o \<times> fdw" where
  "uses run [] ob s = (ob, s)"
| "uses run (op # ops) ob s =
     (case run op ob s of (Fc_ret _, ob, s) \<Rightarrow> uses run ops ob s | (_, ob, s) \<Rightarrow> (ob, s))"

fun uses_ok :: "('op \<Rightarrow> 'o \<Rightarrow> bool) \<Rightarrow> ('op \<Rightarrow> 'o \<Rightarrow> fdw \<Rightarrow> 'r fc_res \<times> 'o \<times> fdw) \<Rightarrow> 'op list \<Rightarrow> 'o \<Rightarrow> fdw \<Rightarrow> bool" where
  "uses_ok okay run [] ob s = True"
| "uses_ok okay run (op # ops) ob s \<longleftrightarrow>
     okay op ob \<and> (case run op ob s of (Fc_ret _, ob, s) \<Rightarrow> uses_ok okay run ops ob s | _ \<Rightarrow> True)"

definition owns :: "int set \<Rightarrow> int set \<Rightarrow> fdw \<Rightarrow> bool" where
  "owns D F s \<longleftrightarrow> set (fw_open s) = D \<union> F \<and> D \<inter> F = {}"

locale descriptor_owner =
  fixes owned :: "'o \<Rightarrow> int set"
    and run :: "'op \<Rightarrow> 'o \<Rightarrow> fdw \<Rightarrow> 'r fc_res \<times> 'o \<times> fdw"
    and okay :: "'op \<Rightarrow> 'o \<Rightarrow> bool"
    and destroy :: "'o \<Rightarrow> fdw \<Rightarrow> fdw"
  assumes run_owns: "owns (owned ob) F s \<Longrightarrow> okay op ob \<Longrightarrow> run op ob s = (r, ob', s') \<Longrightarrow> owns (owned ob') F s'"
    and destroy_owns: "owns (owned ob) F s \<Longrightarrow> owns {} F (destroy ob s)"
begin

lemma uses_owns:
  assumes "owns (owned ob) F s" "uses_ok okay run ops ob s" "uses run ops ob s = (ob', s')"
  shows "owns (owned ob') F s'"
  using assms
proof (induction ops arbitrary: ob s)
  case (Cons op ops)
  obtain r ob1 s1 where r: "run op ob s = (r, ob1, s1)" by (metis prod_cases3)
  have o1: "owns (owned ob1) F s1" using run_owns [OF Cons.prems(1) _ r] Cons.prems(2) by simp
  then show ?case using Cons.IH [OF o1] Cons.prems(2,3) r by (cases r) auto
qed simp

lemma lifetime:
  assumes "owns (owned ob) F s" "uses_ok okay run ops ob s" "uses run ops ob s = (ob', s')"
  shows "set (fw_open (destroy ob' s')) = F"
  using destroy_owns [OF uses_owns [OF assms]] by (simp add: owns_def)

end

text \<open>The methods of each class as one function.\<close>

datatype pipe_op = Pipe_read | Pipe_write "byte list"

fun pipe_run :: "pipe_op \<Rightarrow> pipe \<Rightarrow> fdw \<Rightarrow> int fc_res \<times> pipe \<times> fdw" where
  "pipe_run Pipe_read p s = (case pipe_read p s of (r, s) \<Rightarrow> (r, p, s))"
| "pipe_run (Pipe_write bs) p s = (case pipe_write bs p s of (r, s) \<Rightarrow> (r, p, s))"

datatype sc_op = Sc_connect string int | Sc_disconnect | Sc_send "byte list"

fun sc_run :: "sc_op \<Rightarrow> int \<Rightarrow> fdw \<Rightarrow> bool fc_res \<times> int \<times> fdw" where
  "sc_run (Sc_connect ip port) sock s = (case sc_connect ip port sock s of (r, sock, s) \<Rightarrow> (Fc_ret r, sock, s))"
| "sc_run Sc_disconnect sock s = (case sc_disconnect sock s of (sock, s) \<Rightarrow> (Fc_ret True, sock, s))"
| "sc_run (Sc_send msg) sock s = (case sc_send msg sock s of (r, s) \<Rightarrow> (Fc_ret r, sock, s))"

text \<open>A client is connected again only after it has been disconnected.\<close>

definition sc_okay :: "sc_op \<Rightarrow> int \<Rightarrow> bool" where
  "sc_okay op sock = (case op of Sc_connect _ _ \<Rightarrow> sock = -1 | _ \<Rightarrow> True)"

definition fd_set :: "int \<Rightarrow> int set" where
  "fd_set fd = (if fd = -1 then {} else {fd})"

section \<open>Descriptors: lemmas\<close>

lemma fresh_free: "fresh_fd fds \<notin> set fds \<and> 0 \<le> fresh_fd fds"
proof -
  have "\<not> set (List.map int [0..<Suc (length fds)]) \<subseteq> set fds"
  proof
    assume "set (List.map int [0..<Suc (length fds)]) \<subseteq> set fds"
    then have "card (set (List.map int [0..<Suc (length fds)])) \<le> card (set fds)" by (rule card_mono [rotated]) simp
    moreover have "card (set (List.map int [0..<Suc (length fds)])) = Suc (length fds)"
      by (subst distinct_card) (simp_all add: distinct_map del: upt_Suc)
    ultimately show False using card_length [of fds] by simp
  qed
  then have "filter (\<lambda>n. n \<notin> set fds) (List.map int [0..<Suc (length fds)]) \<noteq> []"
    by (auto simp: filter_empty_conv simp del: upt_Suc)
  then have "fresh_fd fds \<in> set (filter (\<lambda>n. n \<notin> set fds) (List.map int [0..<Suc (length fds)]))"
    unfolding fresh_fd_def by (rule hd_in_set)
  then show ?thesis by (auto simp del: upt_Suc)
qed

lemmas fresh_new = fresh_free [THEN conjunct1] and fresh_nonneg = fresh_free [THEN conjunct2]

lemma fresh_noerr [simp]: "fresh_fd fds \<noteq> -1" "\<not> fresh_fd fds < 0"
  using fresh_nonneg [of fds] by simp_all

lemma fresh_least:
  assumes "int n \<notin> set fds" "\<forall>m<n. int m \<in> set fds"
  shows "fresh_fd fds = int n"
proof -
  have "int ` {..<n} \<subseteq> set fds" using assms(2) by auto
  then have "card (int ` {..<n}) \<le> card (set fds)" by (rule card_mono [rotated]) simp
  then have "n \<le> length fds" using card_length [of fds] by (simp add: card_image)
  then have "[0..<Suc (length fds)] = [0..<n] @ n # [Suc n..<Suc (length fds)]"
    by (metis le_imp_less_Suc upt_add_eq_append upt_conv_Cons le0 le_add_diff_inverse add_0 less_imp_le)
  then show ?thesis using assms by (simp add: fresh_fd_def del: upt_Suc)
qed

lemma fresh_std: "set fds = {0, 1, 2} \<Longrightarrow> fresh_fd fds = 3"
  using fresh_least [of 3 fds] by (auto simp: less_Suc_eq numeral_eq_Suc)

lemma fw_new_owns:
  assumes "fw_new s = (fd, s')" "set (fw_open s) = F"
  shows "owns (fd_set fd) F s' \<and> (fd = -1 \<or> 0 \<le> fd)"
  using assms fresh_free [of "fw_open s"]
  by (auto simp: fw_new_def syscall_def owns_def fd_set_def split: list.splits if_splits)

lemma fw_close_open: "set (fw_open (snd (fw_close fd s))) = set (fw_open s) - {fd}"
  by (auto simp: fw_close_def syscall_def os_close_def event_def split: list.splits)

lemma fw_close_owns: "owns (insert fd D) F s \<Longrightarrow> fd \<notin> D \<Longrightarrow> owns D F (snd (fw_close fd s))"
  by (auto simp: owns_def fw_close_open)

lemma fw_read_open: "fw_open (snd (fw_read fd n s)) = fw_open s"
  by (simp add: fw_read_def os_read_def split: list.split rd.split)

lemma fw_write_open: "fw_open (snd (fw_write fd bs s)) = fw_open s"
  by (simp add: fw_write_def os_write_def os_put_def Let_def split: list.split)

section \<open>Two classes that clean up\<close>

lemma pipe_new_owns:
  assumes "pipe_new s = (Fc_ret p, s')"
  shows "owns {pipe_rd p, pipe_wr p} (set (fw_open s)) s' \<and> pipe_rd p \<noteq> pipe_wr p"
proof -
  define r where "r = fresh_fd (fw_open s)"
  define w where "w = fresh_fd (r # fw_open s)"
  have "r \<notin> set (fw_open s)" "w \<notin> set (fw_open s)" "w \<noteq> r"
    using fresh_new [of "fw_open s"] fresh_new [of "r # fw_open s"] by (simp_all add: r_def w_def)
  then show ?thesis using assms
    by (auto simp: pipe_new_def Let_def syscall_def owns_def r_def [symmetric] w_def [symmetric] split: list.splits if_splits)
qed

lemma pipe_read_open: "fw_open (snd (pipe_read p s)) = fw_open s"
  using fw_read_open [of "pipe_rd p" 1024 s] by (auto simp: pipe_read_def split: prod.split sum.split)

lemma pipe_write_open: "fw_open (snd (pipe_write bs p s)) = fw_open s"
  using fw_write_open [of "pipe_wr p" bs s] by (auto simp: pipe_write_def split: prod.split)

interpretation pipe_ob: descriptor_owner "\<lambda>p::pipe. {pipe_rd p, pipe_wr p}" pipe_run "\<lambda>_ _. True" pipe_destroy
proof
  fix ob :: pipe and F s op r ob' s'
  assume o: "owns {pipe_rd ob, pipe_wr ob} F s" and r: "pipe_run op ob s = (r, ob', s')"
  have "ob' = ob \<and> fw_open s' = fw_open s"
  proof (cases op)
    case Pipe_read
    then show ?thesis using r pipe_read_open [of ob s] by (auto split: prod.splits)
  next
    case (Pipe_write bs)
    then show ?thesis using r pipe_write_open [of bs ob s] by (auto split: prod.splits)
  qed
  then show "owns {pipe_rd ob', pipe_wr ob'} F s'" using o by (simp add: owns_def)
next
  fix ob :: pipe and F s
  assume "owns {pipe_rd ob, pipe_wr ob} F s"
  then show "owns {} F (pipe_destroy ob s)" by (auto simp: owns_def pipe_destroy_def fw_close_open)
qed

lemma sc_connect_owns:
  assumes "owns {} F s" "sc_connect ip port sock s = (r, sock', s')"
  shows "owns (fd_set sock') F s'"
proof -
  obtain fd s1 where n: "fw_new s = (fd, s1)" by fastforce
  have o: "owns (fd_set fd) F s1" "fd = -1 \<or> 0 \<le> fd"
    using fw_new_owns [OF n, of F] assms(1) by (simp_all add: owns_def)
  show ?thesis
  proof (cases "fd < 0")
    case True
    then show ?thesis using assms(2) n o by (simp add: sc_connect_def)
  next
    case False
    let ?act = "\<lambda>s. s\<lparr>fw_conn := fw_conn s @ [(fd, case fw_pton s1 ip of None \<Rightarrow> 0 | Some a \<Rightarrow> a, word_of_int port)]\<rparr>"
    obtain ok s2 where c: "syscall ?act s1 = (ok, s2)" by fastforce
    have o2: "owns (fd_set fd) F s2" using c o(1) by (auto simp: syscall_def owns_def split: list.splits if_splits)
    have "fd \<noteq> -1" using False by simp
    then have cl: "owns {} F (snd (fw_close fd s2))" using o2 by (intro fw_close_owns) (simp_all add: fd_set_def)
    show ?thesis
      using assms(2) n False c o2 cl by (cases ok) (auto simp: sc_connect_def Let_def fd_set_def)
  qed
qed

lemma sc_disconnect_owns:
  assumes "owns (fd_set sock) F s"
  shows "owns {} F (snd (sc_disconnect sock s)) \<and> fst (sc_disconnect sock s) = -1"
  using assms fw_close_owns [of sock "{}" F s] by (auto simp: sc_disconnect_def fd_set_def split: if_splits)

lemma sc_send_open: "fw_open (snd (sc_send msg sock s)) = fw_open s"
  using fw_write_open [of sock msg s] by (auto simp: sc_send_def split: prod.split)

interpretation client_ob: descriptor_owner fd_set sc_run sc_okay sc_destroy
proof
  fix ob F s op r ob' s'
  assume o: "owns (fd_set ob) F s" and k: "sc_okay op ob" and r: "sc_run op ob s = (r, ob', s')"
  show "owns (fd_set ob') F s'"
  proof (cases op)
    case (Sc_connect ip port)
    then have "owns {} F s" using o k by (simp add: sc_okay_def fd_set_def)
    then show ?thesis using sc_connect_owns r Sc_connect by (auto split: prod.splits)
  next
    case Sc_disconnect
    then show ?thesis using sc_disconnect_owns [OF o] r by (auto simp: fd_set_def split: prod.splits)
  next
    case (Sc_send msg)
    then show ?thesis using sc_send_open [of msg ob s] o r by (auto simp: owns_def split: prod.splits)
  qed
next
  fix ob F s
  assume "owns (fd_set ob) F s"
  then show "owns {} F (sc_destroy ob s)" using sc_disconnect_owns by (simp add: sc_destroy_def)
qed

definition sample_fdw :: fdw where
  "sample_fdw = os.extend (sample_os\<lparr>os_wres := []\<rparr>) \<lparr>fw_open = [2, 1, 0], fw_pton = (\<lambda>_. Some 0x7F000001), fw_conn = []\<rparr>"

section \<open>Two that do not\<close>

text \<open>Whatever has gone before, the descriptor of a \<^verbatim>\<open>FileDescriptor\<close> is the one its last \<^verbatim>\<open>open\<close> returned.\<close>

lemma fd_close_result:
  assumes "fd \<in> set (fw_open s)" "os_faults s = []" "fd \<noteq> -1"
  obtains s' where "fd_close fd s = (Fc_ret 0, s')" "set (fw_open s') = set (fw_open s) - {fd}" "os_faults s' = []"
proof -
  let ?s = "(os_close fd s)\<lparr>fw_open := removeAll fd (fw_open s)\<rparr>"
  have "os_faults ?s = []" using assms(2) by (simp add: os_close_def)
  then have "fd_close fd s = (Fc_ret 0, ?s)" using assms by (simp add: fd_close_def fw_close_def syscall_def)
  then show thesis by (rule that) (use assms(2) in \<open>auto simp: os_close_def\<close>)
qed

lemma fd_destroy_closed: "fd \<notin> set (fw_open s) \<Longrightarrow> fd \<noteq> -1 \<Longrightarrow> fd_destroy fd s = None"
  by (simp add: fd_destroy_def fd_close_def fw_close_def)

lemma fifo_init_fd:
  assumes "fifo_init (fifo_new path) s = (Fc_ret r, f, s')"
  shows "fifoFd f \<in> {0, 1}"
  using assms by (auto simp: fifo_init_def open_fifo_def Let_def split: prod.splits fc_res.splits if_splits)

section \<open>Properties\<close>

text \<open>
  C37: a socket client and a pipe leave no descriptor behind and close none that is not theirs, whichever of
  their methods are called and whatever fails, as long as a client that is connected is not
  connected again.
\<close>

theorem owners_clean_up:
  assumes "uses_ok sc_okay sc_run ops sc_new s" "uses sc_run ops sc_new s = (c, s1)"
    and "pipe_new s = (Fc_ret p, s2)" "uses pipe_run pops p s2 = (p', s3)"
  shows "set (fw_open (sc_destroy c s1)) = set (fw_open s) \<and> set (fw_open (pipe_destroy p' s3)) = set (fw_open s)"
proof -
  have "owns (fd_set sc_new) (set (fw_open s)) s" by (simp add: owns_def fd_set_def sc_new_def)
  then have "set (fw_open (sc_destroy c s1)) = set (fw_open s)" using client_ob.lifetime assms(1,2) by blast
  moreover have "uses_ok (\<lambda>_ _. True) pipe_run pops p s2" for s2
    by (induction pops arbitrary: p s2) (auto split: prod.split fc_res.split)
  then have "set (fw_open (pipe_destroy p' s3)) = set (fw_open s)"
    using pipe_ob.lifetime pipe_new_owns [OF assms(3)] assms(4) by blast
  ultimately show ?thesis ..
qed

lemma owners_clean_up_witness:
  "set (fw_open (sc_destroy 3 (snd (uses sc_run [Sc_connect ''127.0.0.1'' 9800, Sc_send ''a''] sc_new sample_fdw)))) = {0, 1, 2}"
proof -
  obtain c s1 where u: "uses sc_run [Sc_connect ''127.0.0.1'' 9800, Sc_send ''a''] sc_new sample_fdw = (c, s1)" by fastforce
  have k: "uses_ok sc_okay sc_run [Sc_connect ''127.0.0.1'' 9800, Sc_send ''a''] sc_new sample_fdw"
    by (simp add: sc_okay_def sc_new_def split: prod.split)
  have "fst (pipe_new sample_fdw) = Fc_ret \<lparr>pipe_rd = 3, pipe_wr = 4\<rparr>"
    by (simp add: pipe_new_def syscall_def fresh_fd_def sample_fdw_def sample_os_def os.extend_def Let_def)
  then obtain s2 where p: "pipe_new sample_fdw = (Fc_ret \<lparr>pipe_rd = 3, pipe_wr = 4\<rparr>, s2)" by (metis prod.collapse)
  obtain p' s3 where v: "uses pipe_run [] \<lparr>pipe_rd = 3, pipe_wr = 4\<rparr> s2 = (p', s3)" by fastforce
  have "fst (uses sc_run [Sc_connect ''127.0.0.1'' 9800, Sc_send ''a''] sc_new sample_fdw) = 3"
    by (simp add: sc_connect_def sc_send_def fw_new_def fw_write_def os_write_def syscall_def fresh_fd_def sample_fdw_def sample_os_def
        os.extend_def sc_new_def Let_def)
  then have "c = 3" using u by simp
  moreover have "set (fw_open sample_fdw) = {0, 1, 2}" by (auto simp: sample_fdw_def os.extend_def)
  ultimately show ?thesis using owners_clean_up [OF k u p v] u by simp
qed

text \<open>
  \<^verbatim>\<open>FifoDes\<close> takes the truth value of \<^verbatim>\<open>open_fifo\<close> for the descriptor: \<^verbatim>\<open>init\<close> succeeds also when the fifo
  could not be opened; when it could, the end of the object closes the standard output and leaves the fifo
  open.  A \<^verbatim>\<open>FileDescriptor\<close> that was closed is closed again by its destructor, whose exception ends the program.  A
  \<^verbatim>\<open>SocketClient\<close> that is connected twice never closes its first descriptor.
\<close>

theorem classes_lose_descriptors:
  assumes "os_faults s = []" "set (fw_open s) = {0, 1, 2}"
  shows "(\<exists>f s'. fifo_init (fifo_new path) s = (Fc_ret 0, f, s') \<and> set (fw_open (close_fifo f s')) = {0, 2, 3}) \<and>
    (\<exists>f s'. fifo_init (fifo_new path) (s\<lparr>os_faults := [0, 0, ENOENT]\<rparr>) = (Fc_ret 0, f, s') \<and> fifoFd f = 0) \<and>
    (\<exists>fd s1 s2. fd_open_file fd_new s = (Fc_ret 0, fd, s1) \<and> fd_close fd s1 = (Fc_ret 0, s2) \<and> fd_destroy fd s2 = None) \<and>
    (\<exists>c s1. uses sc_run [Sc_connect ip port, Sc_connect ip port] sc_new s = (c, s1) \<and>
       set (fw_open (sc_destroy c s1)) = {0, 1, 2, 3})"
proof (intro conjI)
  have f: "fresh_fd (fw_open s) = 3" by (rule fresh_std [OF assms(2)])
  have c: "create_fifo s = (Fc_ret 0, s)" using assms(1) by (simp add: create_fifo_def syscall_def)
  let ?s = "s\<lparr>fw_open := 3 # fw_open s\<rparr>"
  have n: "fw_new s = (3, ?s)" using assms(1) f by (simp add: fw_new_def syscall_def)
  let ?f = "(fifo_new path)\<lparr>fifoFd := 1\<rparr>"
  have "fifo_init (fifo_new path) s = (Fc_ret 0, ?f, ?s)" using c n by (simp add: fifo_init_def open_fifo_def Let_def)
  moreover have "set (fw_open (close_fifo ?f ?s)) = {0, 2, 3}" using assms(2) by (auto simp: close_fifo_def fw_close_open)
  ultimately show "\<exists>f s'. fifo_init (fifo_new path) s = (Fc_ret 0, f, s') \<and> set (fw_open (close_fifo f s')) = {0, 2, 3}" by blast
  show "\<exists>f s'. fifo_init (fifo_new path) (s\<lparr>os_faults := [0, 0, ENOENT]\<rparr>) = (Fc_ret 0, f, s') \<and> fifoFd f = 0"
    by (simp add: fifo_init_def create_fifo_def open_fifo_def fw_new_def syscall_def ENOENT_def Let_def)
  have o: "fd_open_file fd_new s = (Fc_ret 0, 3, ?s)" using n by (simp add: fd_open_file_def)
  obtain s2 where s2: "fd_close 3 ?s = (Fc_ret 0, s2)" "set (fw_open s2) = set (fw_open ?s) - {3}"
    by (rule fd_close_result [of 3 ?s]) (use assms(1) in simp_all)
  have "fd_destroy 3 s2 = None" by (rule fd_destroy_closed) (use s2(2) in simp_all)
  then show "\<exists>fd s1 s2. fd_open_file fd_new s = (Fc_ret 0, fd, s1) \<and> fd_close fd s1 = (Fc_ret 0, s2) \<and> fd_destroy fd s2 = None"
    using o s2(1) by blast
  have conn: "\<exists>s'. sc_connect ip port sock t = (True, fresh_fd (fw_open t), s') \<and> fw_open s' = fresh_fd (fw_open t) # fw_open t \<and>
      os_faults s' = []" if "os_faults t = []" for sock t
    using that by (simp add: sc_connect_def fw_new_def syscall_def Let_def)
  obtain s1 where s1: "sc_connect ip port sc_new s = (True, 3, s1)" "fw_open s1 = 3 # fw_open s" "os_faults s1 = []"
    using conn [OF assms(1)] f by metis
  have "fresh_fd (fw_open s1) = 4" using fresh_least [of 4 "fw_open s1"] assms(2) s1(2) by (auto simp: less_Suc_eq numeral_eq_Suc)
  then obtain s2 where s2: "sc_connect ip port 3 s1 = (True, 4, s2)" "fw_open s2 = 4 # fw_open s1"
    using conn [OF s1(3)] by metis
  have "uses sc_run [Sc_connect ip port, Sc_connect ip port] sc_new s = (4, s2)" using s1(1) s2(1) by simp
  moreover have "set (fw_open (sc_destroy 4 s2)) = {0, 1, 2, 3}"
    using s2(2) s1(2) assms(2) by (auto simp: sc_destroy_def sc_disconnect_def fw_close_open)
  ultimately show "\<exists>c s1. uses sc_run [Sc_connect ip port, Sc_connect ip port] sc_new s = (c, s1) \<and>
       set (fw_open (sc_destroy c s1)) = {0, 1, 2, 3}" by blast
qed

lemma classes_lose_descriptors_witness:
  "\<exists>f s'. fifo_init (fifo_new ''/tmp/x'') sample_fdw = (Fc_ret 0, f, s') \<and> set (fw_open (close_fifo f s')) = {0, 2, 3}"
  using classes_lose_descriptors [of sample_fdw "''/tmp/x''"]
  by (auto simp: sample_fdw_def sample_os_def os.extend_def)

end
