(* ===== verification/Client_Prog.thy ===== *)
theory Client_Prog
  imports Fd_Classes Commands Msgpak
begin

text \<open>
  The client programs \<^verbatim>\<open>src/ppcom/src/ppcom_cli.cpp\<close> and \<^verbatim>\<open>src/libffwd/src/ffwd_cli.cpp\<close>: they connect to the
  servers, a thread shows what arrives, the main thread sends.  What the main thread sees of \<^verbatim>\<open>running\<close>, which
  the other one clears, and what it reads from \<^verbatim>\<open>std::cin\<close> are given round by round.  The text that
  \<^verbatim>\<open>qLogE\<close> and \<^verbatim>\<open>qLogI\<close> print is left out, and standard output takes everything at once.
\<close>

section \<open>Sockets\<close>

definition ENOTSOCK :: nat where "ENOTSOCK = 88"

definition is_sock :: "int \<Rightarrow> fdw \<Rightarrow> bool" where
  "is_sock fd s \<longleftrightarrow> fd \<in> set (fw_open s) \<and> fd \<in> fst ` set (fw_conn s)"

definition fw_recv :: "int \<Rightarrow> nat \<Rightarrow> fdw \<Rightarrow> (nat + byte list) \<times> fdw" where
  "fw_recv fd n s =
     (if is_sock fd s then os_read fd n s
      else let e = (if fd \<in> set (fw_open s) then ENOTSOCK else EBADF) in (Inl e, s\<lparr>os_errno := e\<rparr>))"

definition fw_send :: "int \<Rightarrow> byte list \<Rightarrow> fdw \<Rightarrow> int \<times> fdw" where
  "fw_send fd bs s =
     (if is_sock fd s then os_write fd bs s
      else let e = (if fd \<in> set (fw_open s) then ENOTSOCK else EBADF) in (-1, s\<lparr>os_errno := e\<rparr>))"

text \<open>\<^verbatim>\<open>setup_socket\<close>: every failure is the number 1, and the socket stays open.\<close>

definition setup_socket_cli :: "string \<Rightarrow> int \<Rightarrow> fdw \<Rightarrow> int \<times> fdw" where
  "setup_socket_cli host p s =
     (case fw_new s of
        (sock, s) \<Rightarrow>
          if sock < 0 then (1, s)
          else
            (case fw_pton s host of
               None \<Rightarrow> (1, s)
             | Some a \<Rightarrow>
                 (case syscall (\<lambda>s. s\<lparr>fw_conn := fw_conn s @ [(sock, a, word_of_int p)]\<rparr>) s of
                    (False, s) \<Rightarrow> (1, s)
                  | (True, s) \<Rightarrow> (sock, s))))"

lemma fw_recv_decreases: "fw_recv fd n s = (Inr (b # bs), s') \<Longrightarrow> in_size fd s' < in_size fd s"
  by (auto simp: fw_recv_def Let_def dest: os_read_decreases split: if_splits)

text \<open>
  \<^verbatim>\<open>receive_messages\<close>; \<open>stop\<close> is the number of rounds after which the main thread has cleared \<^verbatim>\<open>running\<close>, \<open>None\<close>
  if it never does.  A full buffer has no place for the NUL: no defined result.
\<close>

function receive_messages :: "nat option \<Rightarrow> int \<Rightarrow> fdw \<Rightarrow> fdw option" where
  "receive_messages stop fd s =
     (if stop = Some 0 then Some s
      else
        (case fw_recv fd 1024 s of
           (Inl _, s) \<Rightarrow> Some s
         | (Inr [], s) \<Rightarrow> Some s
         | (Inr (b # bs), s) \<Rightarrow>
             if length (b # bs) = 1024 then None
             else receive_messages (map_option (\<lambda>n. n - 1) stop) fd (os_put STO (cstring (b # bs)) s)))"
  by pat_completeness auto
termination
  by (relation "measure (\<lambda>(stop, fd, s). in_size fd s)") (auto simp: in_size_def os_put_def dest!: fw_recv_decreases [OF sym])

declare receive_messages.simps [simp del]

text \<open>\<^verbatim>\<open>send_message\<close> has no \<^verbatim>\<open>return\<close> at its end: \<open>None\<close> when the message was sent.\<close>

definition send_message :: "int \<Rightarrow> byte list \<Rightarrow> fdw \<Rightarrow> (int \<times> fdw) option" where
  "send_message sock message s =
     (if message = [] then Some (1, s)
      else (case fw_send sock message s of (n, s) \<Rightarrow> if n < 0 then Some (n, s) else None))"

section \<open>Options\<close>

record cli_opts =
  cli_host :: string
  cli_port :: int
  cli_message :: string
  cli_fifo :: string
  cli_type :: string

definition cli_defaults :: cli_opts where
  "cli_defaults = \<lparr>cli_host = ''127.0.0.1'', cli_port = 9800, cli_message = [], cli_fifo = ''/tmp/ffwd_fifo'', cli_type = ''sock''\<rparr>"

text \<open>How a program ends; \<open>Cli_abort\<close> is \<^verbatim>\<open>std::terminate\<close>, \<open>Cli_running\<close> that the given rounds are over before it ends.\<close>

datatype cli_end = Cli_exit int | Cli_abort | Cli_undef | Cli_running

text \<open>The options \<^verbatim>\<open>getopt\<close> delivers; any other character is its error.\<close>

fun cli_getopt :: "(char \<times> string) list \<Rightarrow> cli_opts \<Rightarrow> cli_end + cli_opts" where
  "cli_getopt [] c = Inr c"
| "cli_getopt ((o', arg) # os) c =
     (if o' = CHR ''h'' then cli_getopt os (c\<lparr>cli_host := arg\<rparr>)
      else if o' = CHR ''p'' then
        (case stoi arg of Inl _ \<Rightarrow> Inl Cli_abort | Inr n \<Rightarrow> cli_getopt os (c\<lparr>cli_port := n\<rparr>))
      else if o' = CHR ''m'' then cli_getopt os (c\<lparr>cli_message := arg\<rparr>)
      else if o' = CHR ''t'' then cli_getopt os (c\<lparr>cli_type := arg\<rparr>)
      else if o' = CHR ''f'' then cli_getopt os (c\<lparr>cli_fifo := arg\<rparr>)
      else Inl (Cli_exit 1))"

definition cli_type_ok :: "cli_opts \<Rightarrow> bool" where
  "cli_type_ok c \<longleftrightarrow> \<not> (cli_type c \<noteq> ''sock'' \<and> cli_type c \<noteq> ''pipe'' \<and> cli_type c \<noteq> ''fifo'')"

section \<open>The client of ppcom\<close>

text \<open>
  One round is what \<^verbatim>\<open>running\<close> is and the word read; \<open>None\<close> is the end of input, which leaves the message as
  it was.  Whoever leaves the loop returns from \<^verbatim>\<open>main\<close> with a thread that was not joined, and its destructor ends the program.
\<close>

definition close_nonneg :: "int \<Rightarrow> fdw \<Rightarrow> fdw" where
  "close_nonneg fd s = (if fd \<ge> 0 then snd (fw_close fd s) else s)"

fun cli_talk :: "(bool \<times> string option) list \<Rightarrow> string \<Rightarrow> int \<Rightarrow> int \<Rightarrow> fdw \<Rightarrow> cli_end \<times> fdw" where
  "cli_talk [] message msgfd ctlfd s = (Cli_running, s)"
| "cli_talk ((running, word) # rounds) message msgfd ctlfd s =
     (let done = (Cli_abort, close_nonneg ctlfd (close_nonneg msgfd s)) in
      if \<not> running then done
      else
        (let message = (case word of None \<Rightarrow> message | Some w \<Rightarrow> w) in
         if message = ''exit'' then done
         else
           (case send_message ctlfd message (os_put STO (cstring message) s) of
              None \<Rightarrow> (Cli_undef, s)
            | Some (_, s) \<Rightarrow> cli_talk rounds message msgfd ctlfd (usleep 1000000 s))))"

definition cli_main :: "(char \<times> string) list \<Rightarrow> (bool \<times> string option) list \<Rightarrow> fdw \<Rightarrow> cli_end \<times> fdw" where
  "cli_main os rounds s =
     (case cli_getopt os cli_defaults of
        Inl e \<Rightarrow> (e, s)
      | Inr c \<Rightarrow>
          if \<not> cli_type_ok c then (Cli_exit 1, s)
          else if cli_type c = ''sock'' then
            (case setup_socket_cli (cli_host c) (cli_port c) s of
               (msgfd, s) \<Rightarrow>
                 if msgfd < 0 then (Cli_exit msgfd, s)
                 else if cli_port c = 2 ^ 31 - 1 then (Cli_undef, s)
                 else
                   (case setup_socket_cli (cli_host c) (cli_port c + 1) s of
                      (ctlfd, s) \<Rightarrow>
                        if ctlfd < 0 then (Cli_exit ctlfd, s)
                        else cli_talk rounds (cli_message c) msgfd ctlfd s))
          else cli_talk rounds (cli_message c) (-1) (-1) s)"

section \<open>The client of the library\<close>

fun ffwd_talk :: "bool list \<Rightarrow> string \<Rightarrow> int \<Rightarrow> fdw \<Rightarrow> cli_end \<times> fdw" where
  "ffwd_talk [] message msgfd s = (Cli_running, s)"
| "ffwd_talk (running # rounds) message msgfd s =
     (if \<not> running then (Cli_exit 0, snd (fw_close msgfd s))
      else
        (case send_message msgfd message s of
           None \<Rightarrow> (Cli_undef, s)
         | Some (_, s) \<Rightarrow> ffwd_talk rounds message msgfd (usleep 1000000 s)))"

definition ffwd_cli_main :: "(char \<times> string) list \<Rightarrow> bool list \<Rightarrow> fdw \<Rightarrow> cli_end \<times> fdw" where
  "ffwd_cli_main os rounds s =
     (case cli_getopt os cli_defaults of
        Inl e \<Rightarrow> (e, s)
      | Inr c \<Rightarrow>
          if cli_message c = [] then (Cli_exit 1, s)
          else if \<not> cli_type_ok c then (Cli_exit 1, s)
          else if cli_type c = ''sock'' then
            (case setup_socket_cli (cli_host c) (cli_port c) s of
               (msgfd, s) \<Rightarrow> if msgfd < 0 then (Cli_exit msgfd, s) else ffwd_talk rounds (cli_message c) msgfd s)
          else ffwd_talk rounds (cli_message c) (-1) s)"

section \<open>Lemmas\<close>

lemma cstring_id: "EOS \<notin> set bs \<Longrightarrow> cstring bs = bs"
  by (auto simp: cstring_def takeWhile_eq_all_conv)

lemma setup_result: "setup_socket_cli host p s = (fd, s') \<Longrightarrow> 0 \<le> fd"
  using fresh_nonneg [of "fw_open s"]
  by (auto simp: setup_socket_cli_def fw_new_def split: prod.splits bool.splits option.splits if_splits)

lemma getopt_end: "cli_getopt os c = Inl e \<Longrightarrow> e \<in> {Cli_exit 1, Cli_abort}"
  by (induction os c rule: cli_getopt.induct) (auto split: if_splits sum.splits)

lemma talk_end: "fst (cli_talk rounds message msgfd ctlfd s) \<in> {Cli_abort, Cli_undef, Cli_running}"
  by (induction rounds message msgfd ctlfd s rule: cli_talk.induct) (auto simp: Let_def split: option.split)

section \<open>Properties\<close>


definition sample_conn :: fdw where
  "sample_conn = sample_fdw\<lparr>fw_open := [3, 2, 1, 0], fw_conn := [(3, 0x7F000001, 9800)], os_in := (\<lambda>_. [RdData ''ab'', RdData ''c''])\<rparr>"


text \<open>
  The client of ppcom has no way to end well: for all options, all outcomes of calls, all input and whatever the
  receiving thread does, it ends with the usage message, with \<^verbatim>\<open>std::terminate\<close> or without a defined result, if it ends.
\<close>

theorem client_never_ends_well:
  "fst (cli_main os rounds s) \<in> {Cli_exit 1, Cli_abort, Cli_undef, Cli_running}"
proof (cases "cli_getopt os cli_defaults")
  case (Inl e)
  then show ?thesis using getopt_end by (auto simp: cli_main_def)
next
  case (Inr c)
  have t: "fst (cli_talk rounds m a b s') \<in> {Cli_exit 1, Cli_abort, Cli_undef, Cli_running}" for m a b s'
    using talk_end [of rounds m a b s'] by auto
  obtain a s1 where a: "setup_socket_cli (cli_host c) (cli_port c) s = (a, s1)" by fastforce
  obtain b s2 where b: "setup_socket_cli (cli_host c) (cli_port c + 1) s1 = (b, s2)" by fastforce
  have "\<not> a < 0" "\<not> b < 0" using setup_result [OF a] setup_result [OF b] by simp_all
  then show ?thesis using t by (simp add: cli_main_def Inr a b)
qed

end
