(* ===== verification/Demo_Server.thy ===== *)
theory Demo_Server
  imports Ffwd_Props Msgpak
begin

text \<open>
  The server program of the library, \<^verbatim>\<open>src/libffwd/src/ffwd.cpp\<close>: what a client of the message port sends goes to
  the clients of the control port, and the other way round.  It uses the callbacks of \<^verbatim>\<open>Epoll::add\<close>, and
  never takes a client out of its list.  Sockets and events are those of theory \<open>Ffwd_Server\<close>; the pipe, the
  fifo, the file descriptor and the socket client it makes but does not use are left out.
\<close>

section \<open>State\<close>

datatype demo_cb = Demo_accept_msg | Demo_accept_ctl | Demo_msg | Demo_ctl

record demo =
  dm_srv :: ffwd
  dm_callbacks :: "int \<rightharpoonup> demo_cb"

section \<open>Parts of the library that only this program has\<close>

text \<open>\<^verbatim>\<open>Epoll::add\<close>; the word of events is not kept.\<close>

definition ep_add_plain :: "int \<Rightarrow> demo_cb \<Rightarrow> demo \<Rightarrow> ff_halt + demo" where
  "ep_add_plain fd cb d =
     (let s = dm_srv d in
      if fd \<notin> fd_open s \<or> fd \<in> fd_watched s then Inl (Threw ''Failed to add file descriptor to epoll'')
      else Inr (d\<lparr>dm_srv := s\<lparr>fd_watched := insert fd (fd_watched s)\<rparr>, dm_callbacks := (dm_callbacks d)(fd \<mapsto> cb)\<rparr>))"

text \<open>\<^verbatim>\<open>getEpollStByIndex\<close>: the position and the entry.\<close>

fun st_by_index :: "epoll_st list \<Rightarrow> int \<Rightarrow> nat \<Rightarrow> (nat \<times> epoll_st) option" where
  "st_by_index [] i n = None"
| "st_by_index (x # xs) i n = (if st_index x = i then Some (n, x) else st_by_index xs i (Suc n))"

definition sv_send :: "int \<Rightarrow> byte list \<Rightarrow> ffwd \<Rightarrow> ffwd" where
  "sv_send fd msg s = snd (os_write fd msg s)"

text \<open>\<^verbatim>\<open>handleClient\<close> leaves room for the NUL; what it reads is only logged.\<close>

definition sv_handle :: "int \<Rightarrow> ffwd \<Rightarrow> ffwd" where
  "sv_handle fd s = ff_close fd (snd (os_read fd (SRV_BUF - 1) s))"

section \<open>Callbacks\<close>

text \<open>The descriptor of a client that is gone is closed, but goes on to be served.\<close>

definition demo_read :: "int \<Rightarrow> ffwd \<Rightarrow> ff_halt + byte list \<times> ffwd" where
  "demo_read fd s =
     (case os_read fd SRV_BUF s of
        (Inr bs, s) \<Rightarrow>
          if bs = [] then Inr (c_text (ff_stack s), ff_close fd s)
          else if length bs = SRV_BUF then Inl Undef
          else Inr (c_text bs, s)
      | (Inl e, s) \<Rightarrow> Inr (c_text (ff_stack s), ff_close fd s))"

fun demo_pass :: "byte list \<Rightarrow> int list \<Rightarrow> ffwd \<Rightarrow> ffwd" where
  "demo_pass txt [] s = s"
| "demo_pass txt (c # cs) s = demo_pass txt cs (if c \<noteq> -1 \<and> c \<in> fd_open s then snd (os_write c txt s) else s)"

definition demo_callback_msg :: "int \<Rightarrow> demo \<Rightarrow> ff_halt + demo" where
  "demo_callback_msg fd d =
     (case demo_read fd (dm_srv d) of
        Inl h \<Rightarrow> Inl h
      | Inr (txt, s) \<Rightarrow> Inr (d\<lparr>dm_srv := demo_pass txt (client_fds (srv_ctl s)) s\<rparr>))"

definition demo_callback_ctl :: "int \<Rightarrow> demo \<Rightarrow> ff_halt + demo" where
  "demo_callback_ctl fd d =
     (case demo_read fd (dm_srv d) of
        Inl h \<Rightarrow> Inl h
      | Inr (txt, s) \<Rightarrow> Inr (d\<lparr>dm_srv := demo_pass txt (client_fds (srv_msg s)) s\<rparr>))"

definition demo_accept :: "bool \<Rightarrow> int option \<Rightarrow> demo \<Rightarrow> ff_halt + demo" where
  "demo_accept ctl r d =
     (let s = dm_srv d in
      case sv_accept r (if ctl then srv_ctl s else srv_msg s) s of
        ((fd, sv), s) \<Rightarrow>
          (let d = d\<lparr>dm_srv := (if ctl then s\<lparr>srv_ctl := sv\<rparr> else s\<lparr>srv_msg := sv\<rparr>)\<rparr> in
           if fd \<noteq> -1 then ep_add_plain fd (if ctl then Demo_ctl else Demo_msg) d else Inr d))"

definition demo_run_cb :: "demo_cb \<Rightarrow> int \<Rightarrow> int option \<Rightarrow> demo \<Rightarrow> ff_halt + demo" where
  "demo_run_cb cb fd acc =
     (case cb of
        Demo_accept_msg \<Rightarrow> demo_accept False acc
      | Demo_accept_ctl \<Rightarrow> demo_accept True acc
      | Demo_msg \<Rightarrow> demo_callback_msg fd
      | Demo_ctl \<Rightarrow> demo_callback_ctl fd)"

section \<open>The program\<close>

text \<open>\<^verbatim>\<open>Epoll::wait\<close> where only plain callbacks are set.\<close>

fun demo_wait :: "ep_event list \<Rightarrow> demo \<Rightarrow> ff_halt + demo" where
  "demo_wait [] d = Inr d"
| "demo_wait (e # es) d =
     (if \<not> ev_in e then demo_wait es d
      else
        (case dm_callbacks d (ev_fd e) of
           None \<Rightarrow> demo_wait es d
         | Some cb \<Rightarrow>
             (case demo_run_cb cb (ev_fd e) (ev_accept e) d of Inl h \<Rightarrow> Inl h | Inr d \<Rightarrow> demo_wait es d)))"

fun demo_loop :: "ep_event list list \<Rightarrow> demo \<Rightarrow> ff_halt + demo" where
  "demo_loop [] d = Inr d"
| "demo_loop (b # bs) d =
     (case demo_wait b d of
        Inl h \<Rightarrow> Inl h
      | Inr d \<Rightarrow> demo_loop bs (if filter ev_in b = [] then d\<lparr>dm_srv := usleep 1000000 (dm_srv d)\<rparr> else d))"

text \<open>Both servers are started; a listening socket that cannot be had makes the following \<^verbatim>\<open>add\<close> throw.\<close>

definition demo_start :: "start_env \<Rightarrow> start_env \<Rightarrow> demo \<Rightarrow> ff_halt + demo" where
  "demo_start em ec d =
     (case sv_start em (srv_msg (dm_srv d)) (dm_srv d) of
        ((_, svm), s) \<Rightarrow>
     (case sv_start ec (srv_ctl s) (s\<lparr>srv_msg := svm\<rparr>) of
        ((_, svc), s) \<Rightarrow>
     (case ep_add_plain (server_fd svm) Demo_accept_msg (d\<lparr>dm_srv := s\<lparr>srv_ctl := svc\<rparr>\<rparr>) of
        Inl h \<Rightarrow> Inl h
      | Inr d \<Rightarrow> ep_add_plain (server_fd svc) Demo_accept_ctl d)))"

record demo_opts =
  do_type :: string
  do_path :: string
  do_port :: int

fun demo_getopt :: "(char \<times> string) list \<Rightarrow> demo_opts \<Rightarrow> (std_exn + int) + demo_opts" where
  "demo_getopt [] c = Inr c"
| "demo_getopt ((o', arg) # os) c =
     (if o' = CHR ''t'' then demo_getopt os (c\<lparr>do_type := arg\<rparr>)
      else if o' = CHR ''f'' then demo_getopt os (c\<lparr>do_path := arg\<rparr>)
      else if o' = CHR ''p'' then
        (case stoi arg of Inl e \<Rightarrow> Inl (Inl e) | Inr n \<Rightarrow> demo_getopt os (c\<lparr>do_port := n\<rparr>))
      else Inl (Inr 1))"

text \<open>The number of \<^verbatim>\<open>main\<close> or the exception that ends it; \<open>Inr (Inr d)\<close> is the state after the given rounds.\<close>

definition demo_main :: "(char \<times> string) list \<Rightarrow> start_env \<Rightarrow> start_env \<Rightarrow> ep_event list list \<Rightarrow> ffwd \<Rightarrow>
    ff_halt + (int + demo)" where
  "demo_main os em ec rounds s =
     (case demo_getopt os \<lparr>do_type = ''socket'', do_path = ''/tmp/ffwd_fifo'', do_port = 9800\<rparr> of
        Inl (Inl e) \<Rightarrow> Inl (Threw ''stoi'')
      | Inl (Inr n) \<Rightarrow> Inr (Inl n)
      | Inr c \<Rightarrow>
          if do_type c \<noteq> ''pipe'' \<and> do_type c \<noteq> ''fifo'' \<and> do_type c \<noteq> ''socket'' then Inr (Inl 1)
          else if do_port c = 2 ^ 31 - 1 then Inl Undef
          else
            (let s = s\<lparr>srv_msg := new_server (do_port c), srv_ctl := new_server (do_port c + 1)\<rparr> in
             case demo_start em ec \<lparr>dm_srv = s, dm_callbacks = Map.empty\<rparr> of
               Inl h \<Rightarrow> Inl h
             | Inr d \<Rightarrow> map_sum id Inr (demo_loop rounds d)))"

section \<open>Lemmas\<close>

lemma demo_pass_more:
  "os.more (demo_pass t cs s) = os.more s \<and> os_in (demo_pass t cs s) = os_in s"
  by (induction t cs s rule: demo_pass.induct) (simp_all add: os_write_srv)

lemma demo_pass_out:
  "os_wres s = [] \<Longrightarrow>
     os_out (demo_pass t cs s) g = os_out s g @ concat (replicate (if g \<noteq> -1 \<and> g \<in> fd_open s then count_list cs g else 0) t)"
proof (induction t cs s rule: demo_pass.induct)
  case (2 t c cs s)
  let ?s = "if c \<noteq> -1 \<and> c \<in> fd_open s then snd (os_write c t s) else s"
  have e: "os_wres ?s = []" using 2(2) by (simp add: os_write_def)
  have f: "fd_open ?s = fd_open s" by (simp add: ffwd_more(2) [OF os_write_srv(1)])
  have o: "os_out ?s = (if c \<noteq> -1 \<and> c \<in> fd_open s then (os_out s)(c := os_out s c @ t) else os_out s)"
    using 2(2) by (simp add: os_write_def)
  show ?case using 2(1) [OF e] unfolding f o by simp
qed simp

lemma demo_read_data:
  assumes "demo_read fd s = Inr (t, s1)"
  shows "srv_msg s1 = srv_msg s" "srv_ctl s1 = srv_ctl s" "os_out s1 = os_out s" "os_wres s1 = os_wres s"
proof -
  obtain r s2 where r: "os_read fd SRV_BUF s = (r, s2)" by fastforce
  have k: "os.more s2 = os.more s" "os_out s2 = os_out s" "os_wres s2 = os_wres s"
    using os_read_ffwd [of fd SRV_BUF s] r by simp_all
  have p: "srv_msg s2 = srv_msg s" "srv_ctl s2 = srv_ctl s" using ffwd_more(1) [OF k(1)] by (simp_all add: srv_part_def)
  have "s1 = s2 \<or> s1 = ff_close fd s2" using assms r by (auto simp: demo_read_def split: sum.splits if_splits)
  then show "srv_msg s1 = srv_msg s" "srv_ctl s1 = srv_ctl s" "os_out s1 = os_out s" "os_wres s1 = os_wres s"
    using k p by auto
qed

section \<open>Properties\<close>

text \<open>
  In the server program of the library, what one side sends reaches each client of the other side, up to
  its first NUL, once for every time its number is in the list, and reaches nobody else.
\<close>

theorem demo_forwards:
  assumes "os_wres (dm_srv d) = []" "demo_read fd (dm_srv d) = Inr (t, s)"
  shows "\<exists>dm dc. demo_callback_msg fd d = Inr dm \<and> demo_callback_ctl fd d = Inr dc \<and>
    (\<forall>g. g \<noteq> -1 \<and> g \<in> fd_open s \<longrightarrow>
       os_out (dm_srv dm) g = os_out (dm_srv d) g @ concat (replicate (count_list (client_fds (srv_ctl (dm_srv d))) g) t) \<and>
       os_out (dm_srv dc) g = os_out (dm_srv d) g @ concat (replicate (count_list (client_fds (srv_msg (dm_srv d))) g) t)) \<and>
    (\<forall>g. g = -1 \<or> g \<notin> fd_open s \<longrightarrow>
       os_out (dm_srv dm) g = os_out (dm_srv d) g \<and> os_out (dm_srv dc) g = os_out (dm_srv d) g)"
proof -
  note k = demo_read_data [OF assms(2)]
  have w: "os_wres s = []" using k(4) assms(1) by simp
  have "demo_callback_msg fd d = Inr (d\<lparr>dm_srv := demo_pass t (client_fds (srv_ctl s)) s\<rparr>)"
    "demo_callback_ctl fd d = Inr (d\<lparr>dm_srv := demo_pass t (client_fds (srv_msg s)) s\<rparr>)"
    using assms(2) by (simp_all add: demo_callback_msg_def demo_callback_ctl_def)
  then show ?thesis using demo_pass_out [OF w] k by simp
qed

lemma demo_forwards_witness:
  "\<exists>dm. demo_callback_msg 7 \<lparr>dm_srv = sample_srv\<lparr>srv_ctl := \<lparr>server_port = 9801, server_fd = 5, client_fds = [9]\<rparr>\<rparr>, dm_callbacks = Map.empty\<rparr> = Inr dm \<and>
     os_out (dm_srv dm) 9 = ''ab''"
proof -
  let ?s = "sample_srv\<lparr>srv_ctl := \<lparr>server_port = 9801, server_fd = 5, client_fds = [9]\<rparr>\<rparr>"
  have o: "os_out ?s = (\<lambda>_. [])" by (simp add: sample_srv_def os.extend_def sample_os_def)
  have r: "demo_read 7 ?s = Inr (''ab'', ?s\<lparr>os_in := (os_in ?s)(7 := [RdData [DEL, CR]])\<rparr>)"
    by (simp add: demo_read_def os_read_def sample_srv_sel SRV_BUF_def c_text_def)
  show ?thesis
    using demo_forwards [of "\<lparr>dm_srv = ?s, dm_callbacks = Map.empty\<rparr>", simplified, OF _ r] o by (auto simp: sample_srv_sel)
qed

text \<open>
  A client that leaves stays in the list, so that the next one that is given its number is in the list
  twice and gets everything twice.
\<close>

lemma demo_client_twice:
  assumes "fd \<in> set (client_fds (srv_ctl (dm_srv d)))" "fd \<noteq> -1" "demo_accept True (Some fd) d = Inr d'"
  shows "2 \<le> count_list (client_fds (srv_ctl (dm_srv d'))) fd"
proof -
  have "0 < count_list (client_fds (srv_ctl (dm_srv d))) fd" using assms(1) by (metis count_list_0_iff gr0I)
  moreover have "client_fds (srv_ctl (dm_srv d')) = client_fds (srv_ctl (dm_srv d)) @ [fd]"
    using assms(2,3) by (auto simp: demo_accept_def sv_accept_def ep_add_plain_def Let_def split: if_splits)
  ultimately show ?thesis by simp
qed

end
