(* ===== verification/Spec2Isabelle.thy ===== *)
theory Spec2Isabelle
  imports Charmap Hexin Split Term_Props Fdio Queue Options Cmd_Props Main_Prog Loop_Live End_Props Ffwd_Props Msgpak Line_Prompts Uucp_Race Client_Prog Demo_Server
begin

text \<open>
  ppcom, a terminal program for serial ports derived from picocom, with the line editing library and the
  socket servers it is built with.  This theory only collects the others; this text says what they hold.

  \<^bold>\<open>The program.\<close>  \<^verbatim>\<open>main\<close> (\<^verbatim>\<open>src/ppcom/src/ppcom.cpp\<close>) reads the options, opens and configures the port
  through the terminal library (\<^verbatim>\<open>term.cpp\<close>), and runs \<^verbatim>\<open>loop\<close>: one call of \<^verbatim>\<open>select\<close> after the other, bytes
  from the user go through a three-state escape lexer into the output queue (\<^verbatim>\<open>tty_q\<close>, mapped by
  \<^verbatim>\<open>omap\<close>) or to \<^verbatim>\<open>do_command\<close>, bytes from the port go (mapped by \<^verbatim>\<open>imap\<close>) to the screen, the log file and a
  socket.  The commands change settings of the port, ask for file names, rates and hexadecimal
  text, and run external programs with the port as standard input and output.  A thread serves the
  clients of two sockets.  Whatever the way out, \<^verbatim>\<open>cleanup\<close> and the exit handler of the terminal library run.

  \<^bold>\<open>How programs are modelled.\<close>  State is a chain of records, each extending the one below:
  \<open>os\<close> (theory \<open>Sysenv\<close>: descriptors, devices, input, output, scripts of outcomes of calls),
  \<open>term_lib\<close> (\<open>Term\<close>), \<open>app\<close> (\<open>App\<close>), \<open>ffwd\<close> (\<open>Ffwd_Server\<close>); for the line editing library \<open>os\<close>, \<open>ln\<close>, \<open>led\<close>
  (\<open>Linenoise\<close>).  Every function of the source is a function on such a state with the name of the source.
  What the system decides is input of the model: each call that may fail takes the next entry of a list of
  outcomes, \<^verbatim>\<open>read\<close> the next portion of the input of its descriptor; \<^verbatim>\<open>select\<close>, signals, \<^verbatim>\<open>getopt_long\<close>,
  \<^verbatim>\<open>accept\<close> and \<^verbatim>\<open>epoll_wait\<close> deliver lists of events.  A function that can end the process
  has a result of type \<open>halt + 'r \<times> app\<close>: exit, abort, undefined behaviour, or a value; one of the line editor an
  \<open>option\<close>, where \<open>None\<close> is undefined behaviour.  Sizes that the source keeps as \<^verbatim>\<open>size_t\<close> and that may wrap are
  64-bit words, flag words are 32-bit words, an \<^verbatim>\<open>int\<close> got from a wider value is cut by \<open>c_int\<close>.

  \<^bold>\<open>Theories.\<close>
  \<^item> \<open>Prelude\<close>: bytes, C conversions, decimal numbers, single-bit flags.  \<open>Sysenv\<close>: the system calls.
  \<^item> \<open>Charmap\<close>: \<^verbatim>\<open>parse_map\<close>, \<^verbatim>\<open>print_map\<close>, \<^verbatim>\<open>do_map\<close>; the mapping is the first rule that applies, parsing inverts
    printing, and when the assertion fails.  \<open>Hexin\<close>: \<^verbatim>\<open>hex2bin\<close> and its inverse.  \<open>Split\<close>: \<^verbatim>\<open>split_quoted\<close> refines
    the documented grammar, inverts quoting, stays in its arrays.
  \<^item> \<open>Baud\<close>, \<open>Termios\<close>, \<open>Settings\<close>: rates, \<^verbatim>\<open>struct termios\<close>, \<^verbatim>\<open>termios2.cpp\<close>, \<^verbatim>\<open>custbaud.cpp\<close>, and the bodies of all
    \<^verbatim>\<open>term_set_*\<close> and \<^verbatim>\<open>term_get_*\<close>; the locale \<open>setting\<close> is the contract of a pair of them, with an
    interpretation for each.
  \<^item> \<open>Term\<close>, \<open>Term_Lemmas\<close>, \<open>Term_Spec\<close>, \<open>Term_Props\<close>: the table of managed terminals and its operations, refining
    a map from descriptors to three settings (\<open>aspec\<close>); reachable tables are in order, the original settings
    are kept and put back at exit.  Locale \<open>keeps_table\<close>: what a system call leaves alone.
  \<^item> \<open>Fdio\<close>: \<^verbatim>\<open>fdio.cpp\<close>, writing all of a buffer, formatted messages, the line editor used without
    \<^verbatim>\<open>LINENOISE\<close>.  \<open>App\<close>, \<open>Queue\<close>: the state of the program, its end, the output queue as a FIFO (locale \<open>fifo\<close>).
  \<^item> \<open>Options\<close>: \<^verbatim>\<open>parse_args\<close>; accepted options are legal values.  \<open>Commands\<close>, \<open>Cmd_Lemmas\<close>, \<open>Cmd_Props\<close>: \<^verbatim>\<open>do_command\<close> and all
    it calls; a command keeps the port in step with the options (locale \<open>port_command\<close>), \<open>cycle\<close> for the keys
    that go round a list of values.
  \<^item> \<open>Main_Loop\<close>, \<open>Main_Prog\<close>, \<open>Loop_Lemmas\<close>, \<open>Loop_Props\<close>, \<open>Loop_Live\<close>, \<open>End_Props\<close>: \<^verbatim>\<open>loop\<close>, \<^verbatim>\<open>main\<close>; the stream to the port is
    the mapped stream of what was typed, the escape lexer, what is received is shown, the loop drains its queue,
    what the port is left with.
  \<^item> \<open>Ffwd_Server\<close>, \<open>Ffwd_Props\<close>: \<^verbatim>\<open>ffwd.cpp\<close> with \<^verbatim>\<open>SocketServer\<close> and \<^verbatim>\<open>Epoll\<close> of \<^verbatim>\<open>src/libffwd\<close>; the step relation
    \<open>srv_step\<close>, the invariant of its reachable states, who receives what.  \<open>Msgpak\<close>: \<^verbatim>\<open>msgpak.cpp\<close>.
  \<^item> \<open>Linenoise\<close>: \<^verbatim>\<open>linenoise.cpp\<close> and \<^verbatim>\<open>file_completion_cb\<close>.  \<open>Line_Edit\<close>: the C buffer refines a text with a cursor
    (locale \<open>text_editor\<close>), what is drawn, what a refresh keeps (locale \<open>draw_keeps\<close>).  \<open>Line_History\<close>: the history is a list of lines; saving,
    loading, stepping.  \<open>Line_Props\<close>, \<open>Line_Read\<close>: the key loop and \<^verbatim>\<open>linenoise\<close> return for every input,
    restore the terminal, and return the line that was typed.  \<open>Line_Prompts\<close>: the prompts of
    \<^verbatim>\<open>ppcom.cpp\<close> in the build with \<^verbatim>\<open>LINENOISE\<close>.
  \<^item> \<open>Uucp_Lock\<close>, \<open>Uucp_Race\<close>: the lock files of the build with \<^verbatim>\<open>UUCP_LOCK_DIR\<close>, on a state of their own (files by
    name); one process, and several whose steps (\<open>lock_phase\<close>) are ordered in any way: a free lock excludes, a
    stale one does not.
  \<^item> \<open>Fd_Classes\<close>: \<^verbatim>\<open>Pipe\<close>, \<^verbatim>\<open>FileDescriptor\<close>, \<^verbatim>\<open>FifoDes\<close> and \<^verbatim>\<open>SocketClient\<close> of \<^verbatim>\<open>src/libffwd\<close>; locale \<open>descriptor_owner\<close>: an
    object closes what it opened and nothing else, which two of the four do.  \<open>Client_Prog\<close>: \<^verbatim>\<open>ppcom_cli.cpp\<close> and
    \<^verbatim>\<open>ffwd_cli.cpp\<close>; what arrives is shown.  \<open>Demo_Server\<close>: \<^verbatim>\<open>ffwd.cpp\<close> of \<^verbatim>\<open>src/libffwd\<close> and the rest of \<^verbatim>\<open>Epoll\<close> and \<^verbatim>\<open>SocketServer\<close>.
  \<^item> \<open>Decimal\<close>, \<open>Printing\<close>: numbers that are printed and read back, and what printing a message changes of a state.

  \<^bold>\<open>Two builds.\<close>  The source has the prompts twice, with and without \<^verbatim>\<open>LINENOISE\<close> (the Makefile defines it).  The
  theories of the program use those without; \<open>Line_Prompts\<close> holds the others, on the state of the library, with
  the suffix \<open>_ln\<close>.  Both have the same type of answer: a name, a rate or bytes.  The options \<^verbatim>\<open>USE_CUSTOM_BAUD\<close>, \<^verbatim>\<open>NO_CUSTOM_BAUD\<close>,
  \<^verbatim>\<open>HIGH_BAUD\<close>, \<^verbatim>\<open>USE_FLOCK\<close>, \<^verbatim>\<open>NDEBUG\<close> and \<^verbatim>\<open>TTY_Q_SZ\<close> are fields of \<open>build\<close> and every property holds for all of them
  unless it says otherwise.

  \<^bold>\<open>Loops and bounds.\<close>  No definition has fuel (\<open>lock_run\<close> counts the steps of \<^verbatim>\<open>uucp_lock\<close>, and four are enough): every loop has a termination proof, by the length of
  the buffer, the script of outcomes or the input left (\<open>in_size\<close>, \<open>input_left\<close>), so a result is a result of the
  source for the given script.  The two loops of \<^verbatim>\<open>refreshSingleLine\<close> run on words and end, or are \<open>None\<close> when the
  terminal has no columns.  The constants are those of the source: \<open>MAX_TERMS\<close> terminals, \<open>MAX_ARG_LEN\<close> characters of an
  argument, \<open>LINENOISE_MAX_LINE\<close> bytes of a line, \<open>TTY_Q_SZ_MIN\<close> bytes of a new queue.

  \<^bold>\<open>Hypotheses of the line editor.\<close>  Its properties assume that memory does not run out (\<open>ln_mem = []\<close>), that the
  prompt leaves a column (\<open>wide\<close>) and that completions fit the buffer (\<open>short_completions\<close>); the source checks
  neither of the last two, and \<open>narrow_undefined\<close> shows what happens without the first of them.

  \<^bold>\<open>Not modelled.\<close>
  \<^item> \<^verbatim>\<open>printf\<close> and \<^verbatim>\<open>fprintf\<close> of the line editor write at once; the buffer of \<^verbatim>\<open>stdout\<close> is left out.  Messages of
    \<^verbatim>\<open>usage\<close> and the version text are output only.
  \<^item> \<^verbatim>\<open>linenoisePrintKeyCodes\<close>: a loop for debugging that nothing calls.
  \<^item> The interleaving of the server thread with \<^verbatim>\<open>loop\<close>: they share nothing but the object that \<^verbatim>\<open>loop\<close> destroys.
  \<^item> The interleaving of the threads of the client programs: what the sending one sees of \<^verbatim>\<open>running\<close> is an argument.
  \<^item> \<^verbatim>\<open>dbglog.h\<close>, \<^verbatim>\<open>debug.h\<close>: printing of debug messages.  \<^verbatim>\<open>custbaud_bsd.cpp\<close> and the parts of \<^verbatim>\<open>termios2.cpp\<close> for other
    architectures: not compiled on Linux.
\<close>

end
